(* ===== verification/Prelude.thy ===== *)
theory Prelude
  imports Main "HOL-Library.Sublist"
begin

text \<open>
  What every component of the development shares: the error values of
  apps/server/src/kernel/errors.ts, the result of a fallible operation, JavaScript's
  "find the first element and mutate it" on a list, and the counting and pointwise lemmas
  on lists that the invariants of the components need.
\<close>

section \<open>Lemma collections\<close>

named_theorems evolve_intros "facts showing that an operation only makes permitted changes"
named_theorems inv_intros "preservation of a component's invariant by its operations"
named_theorems frame_simps "fields that an operation leaves alone"

section \<open>Errors as values\<close>

datatype error_code =
    Bad_Request | Unauthorized | Forbidden | Not_Found | Conflict | Gone
  | Too_Many_Requests | Payload_Too_Large | Unsupported_Media_Type
  | Service_Unavailable | Update_In_Progress | Insufficient_Storage

text \<open>
  An \<open>ApplicationError\<close> carries its code and message; every other exception the
  modelled code can raise or pass on (a \<open>TypeError\<close>, an error of a port) is a
  \<open>Js_Error\<close> with its message.
\<close>

datatype app_error = App_Error error_code string | Js_Error string

fun error_message :: "app_error \<Rightarrow> string" where
  "error_message (App_Error c m) = m"
| "error_message (Js_Error m) = m"

type_synonym 'a result = "app_error + 'a"

definition bind_result :: "'a result \<Rightarrow> ('a \<Rightarrow> 'b result) \<Rightarrow> 'b result" where
  "bind_result r f = (case r of Inl e \<Rightarrow> Inl e | Inr x \<Rightarrow> f x)"

lemma bind_result_simps [simp]:
  "bind_result (Inl e) f = Inl e"
  "bind_result (Inr x) f = f x"
  by (simp_all add: bind_result_def)

lemma bind_result_Inr:
  "bind_result r f = Inr y \<longleftrightarrow> (\<exists>x. r = Inr x \<and> f x = Inr y)"
  by (cases r) auto

section \<open>Updating the first matching element of a list\<close>

text \<open>
  \<open>const m = xs.find(p)\<close> followed by assignments to \<open>m\<close> changes the first
  element that satisfies \<open>p\<close>, and no element when there is none.
\<close>

fun upd_first :: "('a \<Rightarrow> bool) \<Rightarrow> ('a \<Rightarrow> 'a) \<Rightarrow> 'a list \<Rightarrow> 'a list" where
  "upd_first p f [] = []"
| "upd_first p f (x # xs) = (if p x then f x # xs else x # upd_first p f xs)"

lemma length_upd_first [simp]: "length (upd_first p f xs) = length xs"
  by (induction xs) auto

lemma upd_first_nth:
  "i < length xs \<Longrightarrow> upd_first p f xs ! i = xs ! i \<or>
    (p (xs ! i) \<and> upd_first p f xs ! i = f (xs ! i))"
  by (induction xs arbitrary: i) (auto simp: nth_Cons split: nat.splits)

lemma upd_first_no_match: "\<forall>x\<in>set xs. \<not> p x \<Longrightarrow> upd_first p f xs = xs"
  by (induction xs) auto

lemma upd_first_id: "(\<And>x. p x \<Longrightarrow> f x = x) \<Longrightarrow> upd_first p f xs = xs"
  by (induction xs) auto

lemma map_upd_first:
  "(\<And>x. g (f x) = g x) \<Longrightarrow> map g (upd_first p f xs) = map g xs"
  by (induction xs) auto

lemma set_upd_first: "y \<in> set (upd_first p f xs) \<Longrightarrow> y \<in> set xs \<or> (\<exists>x\<in>set xs. p x \<and> y = f x)"
  by (induction xs) (auto split: if_splits)

lemma find_upd_first:
  "(\<And>x. p x \<Longrightarrow> p (f x)) \<Longrightarrow> find p (upd_first p f xs) = map_option f (find p xs)"
  by (induction xs) auto

lemma find_upd_first_other:
  "(\<And>x. q (f x) = q x) \<Longrightarrow> (\<And>x. p x \<Longrightarrow> \<not> q x) \<Longrightarrow> find q (upd_first p f xs) = find q xs"
  by (induction xs) auto

lemma find_Some_in: "find p xs = Some x \<Longrightarrow> x \<in> set xs \<and> p x"
  by (induction xs) (auto split: if_splits)

lemma find_None: "find p xs = None \<longleftrightarrow> (\<forall>x\<in>set xs. \<not> p x)"
  by (induction xs) auto

lemma find_map: "find p (map f xs) = map_option f (find (\<lambda>x. p (f x)) xs)"
  by (induction xs) auto

lemma find_append: "find p (xs @ ys) = (case find p xs of None \<Rightarrow> find p ys | Some x \<Rightarrow> Some x)"
  by (induction xs) auto

lemma find_nth: "find p xs = Some x \<Longrightarrow> \<exists>i<length xs. xs ! i = x \<and> p x \<and> (\<forall>j<i. \<not> p (xs ! j))"
  by (auto simp: find_Some_iff)

lemma find_key_unique:
  assumes "distinct (map f xs)" and "x \<in> set xs"
  shows "find (\<lambda>y. f y = f x) xs = Some x"
  using assms by (induction xs) (auto simp: rev_image_eqI)

text \<open>Changing the elements that satisfy a condition, as an \<open>UPDATE\<close> statement does.\<close>

lemma in_map_if: "y \<in> set (map (\<lambda>x. if p x then f x else x) xs) \<longleftrightarrow> (\<exists>x \<in> set xs. y = (if p x then f x else x))"
  unfolding set_map image_iff ..

section \<open>Counting\<close>

abbreviation count_if :: "('a \<Rightarrow> bool) \<Rightarrow> 'a list \<Rightarrow> nat" where
  "count_if p xs \<equiv> length (filter p xs)"

lemma count_if_zero: "count_if p xs = 0 \<longleftrightarrow> (\<forall>x\<in>set xs. \<not> p x)"
  by (auto simp: filter_empty_conv)

lemma count_if_map_le:
  "(\<And>x. p (f x) \<Longrightarrow> p x) \<Longrightarrow> count_if p (map f xs) \<le> count_if p xs"
  by (induction xs) (auto intro: le_SucI)

lemma count_if_upd_first_le:
  "(\<And>x. q x \<Longrightarrow> p (f x) \<Longrightarrow> p x) \<Longrightarrow> count_if p (upd_first q f xs) \<le> count_if p xs"
  by (induction xs) (auto intro: le_SucI)

lemma count_if_upd_first_Suc: "count_if p (upd_first q f xs) \<le> Suc (count_if p xs)"
  by (induction xs) auto

lemma count_if_pointwise_le:
  "length xs = length ys \<Longrightarrow> (\<And>i. i < length xs \<Longrightarrow> p (ys ! i) \<Longrightarrow> p (xs ! i)) \<Longrightarrow>
   count_if p ys \<le> count_if p xs"
proof (induction xs ys rule: list_induct2)
  case Nil
  then show ?case by simp
next
  case (Cons x xs y ys)
  have "count_if p ys \<le> count_if p xs"
    using Cons.prems[of "Suc i" for i] by (intro Cons.IH) auto
  moreover have "p y \<Longrightarrow> p x"
    using Cons.prems[of 0] by simp
  ultimately show ?case by auto
qed

section \<open>Maps with finitely many updates\<close>

lemma distinct_map_snoc:
  "distinct (map f (xs @ [x])) \<longleftrightarrow> distinct (map f xs) \<and> f x \<notin> set (map f xs)"
  by auto

end
