(* ===== verification/Messages.thy ===== *)
theory Messages
  imports Prelude
begin

text \<open>
  The persisted message queue of one task and its controller:
  packages/shared/src/messages.ts (\<open>PendingMessage\<close>, \<open>MessageQueue\<close>,
  \<open>SubmitMessage\<close>, \<open>MessageAction\<close>), packages/shared/src/compaction.ts
  (\<open>ContextCompaction\<close>), apps/server/src/modules/tasks/domain/models.ts
  (\<open>StoredMessage\<close>, \<open>MessageState\<close>) and the \<open>MessageController\<close> of
  apps/server/src/modules/tasks/application/use-cases/message-controller.ts.

  The controller serves one task id at a time; the state of the other tasks and of the
  service that hosts it is the second component of its world. The host's callbacks and the
  attachment store are a record of functions. \<open>Date.now()\<close> is an argument, read once
  per operation. A callback that arrives later (the settlement of a steer) is an operation
  of its own. An operation that throws returns the error and the state it left behind.
\<close>

section \<open>Data\<close>

datatype msg_status = Msg_Queued | Msg_Sending | Msg_Delivered | Msg_Rejected | Msg_Unknown | Msg_Cancelled

datatype msg_mode = Mode_Send | Mode_Queue

text \<open>
  A field of a settings object is absent (\<open>None\<close>), present and undefined
  (\<open>Some None\<close>) or present with a value.
\<close>

record message_settings =
  set_model :: "string option option"
  set_effort :: "string option option"
  set_permission :: "string option option"

type_synonym skill = string
type_synonym input_attachment = string
type_synonym attachment = string

record stored_message =
  m_id :: string
  m_version :: nat
  m_mode :: msg_mode
  m_text :: string
  m_skills :: "skill list option"
  m_images :: "input_attachment list option"
  m_attachments :: "attachment list option"
  m_settings :: message_settings
  m_status :: msg_status
  m_runId :: "string option"
  m_error :: "string option"
  m_editingUntil :: "int option"
  m_fingerprint :: string
  m_editToken :: "string option"

datatype compaction_status = Compaction_Running | Compaction_Completed | Compaction_Failed

record context_compaction =
  cc_requestId :: string
  cc_status :: compaction_status
  cc_error :: "string option"

record message_state =
  revision :: nat
  paused :: bool
  runId :: "string option"
  messages :: "stored_message list"
  compaction :: "context_compaction option"
  interactive_protocol :: bool
  initialMessageId :: "string option"
  runtimeStarted :: bool

text \<open>What \<open>snapshot\<close> publishes: no fingerprints, no edit tokens.\<close>

record pending_message =
  p_id :: string
  p_version :: nat
  p_mode :: msg_mode
  p_text :: string
  p_skills :: "skill list option"
  p_images :: "input_attachment list option"
  p_attachments :: "attachment list option"
  p_settings :: message_settings
  p_status :: msg_status
  p_runId :: "string option"
  p_error :: "string option"
  p_editingUntil :: "int option"

record message_queue =
  q_revision :: nat
  q_paused :: bool
  q_runId :: "string option"
  q_compaction :: "context_compaction option"
  q_messages :: "pending_message list"

record submit_message =
  clientMessageId :: string
  sm_mode :: msg_mode
  sm_text :: string
  sm_skills :: "skill list option"
  sm_images :: "input_attachment list option"
  expectedRunId :: "string option"
  sm_settings :: "message_settings option"

datatype message_action =
    Act_Edit nat string
  | Act_Renew string
  | Act_Save string nat string "skill list option" "input_attachment list option"
  | Act_Release string
  | Act_Delete nat
  | Act_Send nat "string option"

text \<open>The version an action names, where its shape has one (\<open>"version" in action\<close>).\<close>

fun action_version :: "message_action \<Rightarrow> nat option" where
  "action_version (Act_Edit v _) = Some v"
| "action_version (Act_Renew _) = None"
| "action_version (Act_Save _ v _ _ _) = Some v"
| "action_version (Act_Release _) = None"
| "action_version (Act_Delete v) = Some v"
| "action_version (Act_Send v _) = Some v"

definition EDIT_MS :: int where "EDIT_MS = 60000"

text \<open>\<open>state(id)\<close> of a task that has no row yet.\<close>

definition empty_message_state :: message_state where
  "empty_message_state = \<lparr>revision = 0, paused = False, runId = None, messages = [],
     compaction = None, interactive_protocol = False, initialMessageId = None, runtimeStarted = False\<rparr>"

section \<open>The host interface\<close>

datatype steer_outcome = Steer_Delivered | Steer_Rejected | Steer_Unknown

record 'h host =
  assertWritable :: "message_state \<times> 'h \<Rightarrow> app_error option"
  validateSubmission :: "submit_message \<Rightarrow> 'h \<Rightarrow> app_error option"
  canStart :: "'h \<Rightarrow> bool"
  hostSettings :: "'h \<Rightarrow> message_settings"
  hostStart :: "stored_message \<Rightarrow> message_state \<times> 'h \<Rightarrow> app_error option \<times> (message_state \<times> 'h)"
  hostSteer :: "stored_message \<Rightarrow> message_state \<times> 'h \<Rightarrow> 'h"
  hostChanged :: "message_state \<Rightarrow> 'h \<Rightarrow> 'h"
  saveAttachments :: "input_attachment list option \<Rightarrow> 'h \<Rightarrow> attachment list option result"
  loadAttachments :: "attachment list option \<Rightarrow> 'h \<Rightarrow> input_attachment list option result"
  digestRequest :: "submit_message \<Rightarrow> string"
  freshUuid :: "message_state \<times> 'h \<Rightarrow> string"

type_synonym 'h world = "message_state \<times> 'h"

section \<open>Operations\<close>

definition conflict :: "string \<Rightarrow> app_error" where
  "conflict s = App_Error Conflict s"

definition save :: "'h host \<Rightarrow> message_state \<Rightarrow> 'h \<Rightarrow> 'h world" where
  "save H s h = (let s' = s\<lparr>revision := revision s + 1\<rparr> in (s', hostChanged H s' h))"

definition publish :: "stored_message \<Rightarrow> pending_message" where
  "publish m = \<lparr>p_id = m_id m, p_version = m_version m, p_mode = m_mode m, p_text = m_text m,
     p_skills = m_skills m, p_images = m_images m, p_attachments = m_attachments m,
     p_settings = m_settings m, p_status = m_status m, p_runId = m_runId m, p_error = m_error m,
     p_editingUntil = m_editingUntil m\<rparr>"

definition live_message :: "stored_message \<Rightarrow> bool" where
  "live_message m \<longleftrightarrow> m_status m \<noteq> Msg_Delivered \<and> m_status m \<noteq> Msg_Cancelled"

definition snapshot :: "message_state \<Rightarrow> message_queue" where
  "snapshot s = \<lparr>q_revision = revision s, q_paused = paused s, q_runId = runId s,
     q_compaction = compaction s, q_messages = map publish (filter live_message (messages s))\<rparr>"

definition sending :: "stored_message \<Rightarrow> bool" where
  "sending m \<longleftrightarrow> m_status m = Msg_Sending"

definition unconfirmed :: "stored_message \<Rightarrow> bool" where
  "unconfirmed m \<longleftrightarrow> m_status m = Msg_Sending \<or> m_status m = Msg_Unknown"

definition on_message :: "string \<Rightarrow> (stored_message \<Rightarrow> stored_message) \<Rightarrow> message_state \<Rightarrow> message_state" where
  "on_message i f s = s\<lparr>messages := upd_first (\<lambda>m. m_id m = i) f (messages s)\<rparr>"

definition find_message :: "string \<Rightarrow> message_state \<Rightarrow> stored_message option" where
  "find_message i s = find (\<lambda>m. m_id m = i) (messages s)"

definition map_messages :: "(stored_message \<Rightarrow> stored_message) \<Rightarrow> message_state \<Rightarrow> message_state" where
  "map_messages f s = s\<lparr>messages := map f (messages s)\<rparr>"

text \<open>\<open>if (s.compaction?.status === "running") s.compaction = {...s.compaction, status, error}\<close>\<close>

definition settle_compaction :: "compaction_status \<Rightarrow> string option \<Rightarrow> message_state \<Rightarrow> message_state" where
  "settle_compaction st e s = (case compaction s of
       Some c \<Rightarrow> if cc_status c = Compaction_Running
                 then s\<lparr>compaction := Some (c\<lparr>cc_status := st, cc_error := (if e = None then cc_error c else e)\<rparr>)\<rparr>
                 else s
     | None \<Rightarrow> s)"

definition beginRun :: "'h host \<Rightarrow> string option \<Rightarrow> string option \<Rightarrow> 'h world \<Rightarrow> string option \<times> 'h world" where
  "beginRun H initial compact w = (case w of (s, h) \<Rightarrow>
     let r = freshUuid H w;
         s1 = s\<lparr>runId := Some r, initialMessageId := initial, runtimeStarted := False,
                compaction := (case compact of
                    Some q \<Rightarrow> Some \<lparr>cc_requestId = q, cc_status = Compaction_Running, cc_error = None\<rparr>
                  | None \<Rightarrow> None)\<rparr>;
         s2 = map_messages (\<lambda>m. if sending m \<and> m_runId m = None then m\<lparr>m_runId := Some r\<rparr> else m) s1
     in (Some r, save H (s2\<lparr>interactive_protocol := True\<rparr>) h))"

definition rejectBeforeStart :: "'h host \<Rightarrow> string \<Rightarrow> 'h world \<Rightarrow> 'h world" where
  "rejectBeforeStart H e w = (case w of (s, h) \<Rightarrow>
     if runtimeStarted s then w
     else save H ((map_messages (\<lambda>m. if sending m then m\<lparr>m_status := Msg_Rejected, m_error := Some e\<rparr> else m) s)
            \<lparr>runId := None, paused := True\<rparr>) h)"

definition startingRuntime :: "'h host \<Rightarrow> 'h world \<Rightarrow> 'h world" where
  "startingRuntime H w = (case w of (s, h) \<Rightarrow> save H (s\<lparr>runtimeStarted := True\<rparr>) h)"

definition requeue :: "stored_message \<Rightarrow> stored_message" where
  "requeue m = m\<lparr>m_status := Msg_Queued, m_runId := None\<rparr>"

text \<open>An initial message whose run never reached the runtime goes back to the queue.\<close>

definition requeue_initial :: "message_state \<Rightarrow> message_state" where
  "requeue_initial s = (case initialMessageId s of
       Some i \<Rightarrow> (case find_message i s of
           Some m \<Rightarrow> if \<not> runtimeStarted s \<and> sending m then on_message i requeue s else s
         | None \<Rightarrow> s)
     | None \<Rightarrow> s)"

definition stopWaiting :: "'h host \<Rightarrow> 'h world \<Rightarrow> 'h world" where
  "stopWaiting H w = (case w of (s, h) \<Rightarrow>
     save H (settle_compaction Compaction_Failed (Some ''Context compaction was stopped.'')
               ((requeue_initial s)\<lparr>runId := None, paused := True\<rparr>)) h)"

definition lost_message :: "string \<Rightarrow> stored_message \<Rightarrow> stored_message" where
  "lost_message e m = m\<lparr>m_status := Msg_Unknown, m_error := Some e\<rparr>"

definition never_started :: "bool \<Rightarrow> message_state \<Rightarrow> stored_message \<Rightarrow> bool" where
  "never_started live s m \<longleftrightarrow> \<not> live \<and> \<not> runtimeStarted s \<and> Some (m_id m) = initialMessageId s"

definition recover_message :: "bool \<Rightarrow> message_state \<Rightarrow> stored_message \<Rightarrow> stored_message" where
  "recover_message live s m =
     (if \<not> sending m then m
      else if never_started live s m then requeue m
      else lost_message ''Delivery could not be confirmed after reconnecting.'' m)"

definition recover :: "'h host \<Rightarrow> bool \<Rightarrow> 'h world \<Rightarrow> 'h world" where
  "recover H live w = (case w of (s, h) \<Rightarrow>
     let lost = (\<exists>m \<in> set (messages s). sending m \<and> \<not> never_started live s m);
         s1 = (map_messages (recover_message live s) s)\<lparr>paused := (paused s \<or> lost)\<rparr>;
         s2 = (if \<not> live \<and> runId s \<noteq> None then s1\<lparr>runId := None, paused := True\<rparr> else s1);
         s3 = (if live then s2 else settle_compaction Compaction_Failed
                 (Some ''Context compaction could not be confirmed after restarting. You can try again.'') s2)
     in save H s3 h)"

definition pause :: "'h host \<Rightarrow> 'h world \<Rightarrow> 'h world" where
  "pause H w = (case w of (s, h) \<Rightarrow> save H (s\<lparr>paused := True\<rparr>) h)"

definition delivered :: "'h host \<Rightarrow> string \<Rightarrow> 'h world \<Rightarrow> 'h world" where
  "delivered H mid w = (case w of (s, h) \<Rightarrow>
     (case find_message mid s of
        None \<Rightarrow> w
      | Some m \<Rightarrow> if \<not> unconfirmed m then w
          else save H (on_message mid (\<lambda>m. m\<lparr>m_status := Msg_Delivered, m_error := None\<rparr>) s) h))"

definition deliveryFailed :: "'h host \<Rightarrow> bool \<Rightarrow> string \<Rightarrow> bool \<Rightarrow> 'h world \<Rightarrow> 'h world" where
  \<comment> \<open>\<open>rejected\<close> tells the two failures apart; the first flag is \<open>closed\<close>.\<close>
  "deliveryFailed H closed mid rejected w = (case w of (s, h) \<Rightarrow>
     if closed then w
     else (case find_message mid s of
        None \<Rightarrow> w
      | Some m \<Rightarrow> if m_status m = Msg_Delivered then w
          else save H ((on_message mid (\<lambda>m. m\<lparr>
              m_status := (if rejected then Msg_Rejected else Msg_Unknown),
              m_error := Some (if rejected then ''The shared session rejected this message.''
                else ''Delivery could not be confirmed. Check the conversation before sending again.'')\<rparr>) s)
              \<lparr>paused := True\<rparr>) h))"

text \<open>\<open>start\<close>: a host that throws before the run begins leaves the entry rejected.\<close>

definition start :: "'h host \<Rightarrow> stored_message \<Rightarrow> 'h world \<Rightarrow> app_error option \<times> 'h world" where
  "start H m w = (case hostStart H m w of
       (None, w') \<Rightarrow> (None, w')
     | (Some e, (s, h)) \<Rightarrow>
         (case find_message (m_id m) s of
            Some entry \<Rightarrow> if runId s = None \<and> sending entry
              then (None, save H ((on_message (m_id m)
                     (\<lambda>m. m\<lparr>m_status := Msg_Rejected, m_error := Some (error_message e)\<rparr>) s)\<lparr>paused := True\<rparr>) h)
              else (Some e, (s, h))
          | None \<Rightarrow> (Some e, (s, h))))"

definition edit_held :: "int \<Rightarrow> stored_message \<Rightarrow> bool" where
  "edit_held now m \<longleftrightarrow> (case m_editingUntil m of Some t \<Rightarrow> t > now | None \<Rightarrow> 0 > now)"

text \<open>The early returns of \<open>pump\<close>, and the message it goes on to start.\<close>

definition pump_candidate :: "'h host \<Rightarrow> int \<Rightarrow> 'h world \<Rightarrow> stored_message option" where
  "pump_candidate H now w = (case w of (s, h) \<Rightarrow>
     if paused s \<or> runId s \<noteq> None \<or> \<not> canStart H h then None
     else if \<exists>m \<in> set (messages s). m_status m \<in> {Msg_Sending, Msg_Unknown, Msg_Rejected} then None
     else (case find (\<lambda>m. m_status m = Msg_Queued) (messages s) of
        None \<Rightarrow> None
      | Some m \<Rightarrow> if edit_held now m then None else Some m))"

definition pump :: "'h host \<Rightarrow> int \<Rightarrow> 'h world \<Rightarrow> app_error option \<times> 'h world" where
  "pump H now w = (case pump_candidate H now w of
       None \<Rightarrow> (None, w)
     | Some m \<Rightarrow> start H (m\<lparr>m_status := Msg_Sending\<rparr>)
         (save H ((fst w)\<lparr>messages := upd_first (\<lambda>m. m_status m = Msg_Queued)
            (\<lambda>m. m\<lparr>m_status := Msg_Sending\<rparr>) (messages (fst w))\<rparr>) (snd w)))"

definition resume :: "'h host \<Rightarrow> int \<Rightarrow> 'h world \<Rightarrow> message_queue result \<times> 'h world" where
  "resume H now w = (case assertWritable H w of
       Some e \<Rightarrow> (Inl e, w)
     | None \<Rightarrow> (case w of (s, h) \<Rightarrow>
         if \<exists>m \<in> set (messages s). unconfirmed m
         then (Inl (conflict ''Resolve unconfirmed delivery before resuming the queue.''), w)
         else (case pump H now (save H (s\<lparr>paused := False\<rparr>) h) of
             (Some e, w') \<Rightarrow> (Inl e, w')
           | (None, w') \<Rightarrow> (Inr (snapshot (fst w')), w'))))"

text \<open>The state \<open>finish\<close> saves: the run is over, what it was still sending is unknown.\<close>

definition finish_state :: "bool \<Rightarrow> string option \<Rightarrow> message_state \<Rightarrow> message_state" where
  "finish_state failed err s =
     (let s1 = settle_compaction (if failed then Compaction_Failed else Compaction_Completed)
                 (if failed then Some (case err of Some e \<Rightarrow> e
                     | None \<Rightarrow> ''Context compaction did not finish. Try again.'') else None)
                 (s\<lparr>runId := None\<rparr>);
          ended = (\<exists>m \<in> set (messages s1). sending m)
      in (map_messages (\<lambda>m. if sending m
              then lost_message ''The run ended before delivery was confirmed.'' m else m) s1)
            \<lparr>paused := (paused s1 \<or> failed \<or> ended)\<rparr>)"

definition finish :: "'h host \<Rightarrow> int \<Rightarrow> bool \<Rightarrow> bool \<Rightarrow> string option \<Rightarrow> 'h world \<Rightarrow> app_error option \<times> 'h world" where
  "finish H now failed drain err w = (case w of (s, h) \<Rightarrow>
     let w' = save H (finish_state failed err s) h
     in if \<not> failed \<and> drain then pump H now w' else (None, w'))"

definition send_refused :: "'h host \<Rightarrow> 'h world \<Rightarrow> app_error option" where
  "send_refused H w = (case w of (s, h) \<Rightarrow>
     if \<exists>m \<in> set (messages s). unconfirmed m
     then Some (conflict ''Wait for the previous message delivery to be confirmed.'')
     else if runId s = None \<and> \<not> canStart H h
     then Some (conflict ''The task cannot start a new run yet.'')
     else None)"

definition claim_message :: "message_state \<Rightarrow> stored_message \<Rightarrow> stored_message" where
  "claim_message s m = m\<lparr>m_status := Msg_Sending, m_mode := Mode_Send, m_runId := runId s\<rparr>"

definition sendNow :: "'h host \<Rightarrow> string \<Rightarrow> 'h world \<Rightarrow> app_error option \<times> 'h world" where
  "sendNow H mid w = (case send_refused H w of
       Some e \<Rightarrow> (Some e, w)
     | None \<Rightarrow> (case find_message mid (fst w) of
        None \<Rightarrow> (Some (Js_Error ''TypeError''), w)
      | Some m \<Rightarrow>
          let s = fst w; w' = save H (on_message mid (claim_message s) s) (snd w)
          in if runId s = None then start H (claim_message s m) w'
             else (None, (fst w', hostSteer H (claim_message s m) w'))))"

text \<open>
  The two handlers of the promise that \<open>host.steer\<close> returned: it settled with an
  outcome, or it was rejected.
\<close>

definition steer_settled :: "'h host \<Rightarrow> bool \<Rightarrow> string \<Rightarrow> steer_outcome \<Rightarrow> 'h world \<Rightarrow> 'h world" where
  "steer_settled H closed mid out w = (case w of (s, h) \<Rightarrow>
     if closed then w
     else (case find_message mid s of
        None \<Rightarrow> w
      | Some m \<Rightarrow> if m_status m = Msg_Delivered then w
          else save H (case out of
              Steer_Delivered \<Rightarrow> on_message mid (\<lambda>m. m\<lparr>m_status := Msg_Delivered\<rparr>) s
            | Steer_Rejected \<Rightarrow> (on_message mid (\<lambda>m. m\<lparr>m_status := Msg_Rejected,
                m_error := Some ''The active run could not accept this message.''\<rparr>) s)\<lparr>paused := True\<rparr>
            | Steer_Unknown \<Rightarrow> (on_message mid (lost_message
                ''Delivery could not be confirmed. Check the conversation before sending again.'') s)\<lparr>paused := True\<rparr>) h))"

definition steer_threw :: "'h host \<Rightarrow> bool \<Rightarrow> string \<Rightarrow> 'h world \<Rightarrow> 'h world" where
  "steer_threw H closed mid w = (case w of (s, h) \<Rightarrow>
     if closed then w
     else (case find_message mid s of
        None \<Rightarrow> w
      | Some m \<Rightarrow> if m_status m = Msg_Delivered then w
          else save H ((on_message mid (lost_message ''Delivery could not be confirmed.'') s)\<lparr>paused := True\<rparr>) h))"

definition spread_settings :: "message_settings \<Rightarrow> message_settings option \<Rightarrow> message_settings" where
  "spread_settings base over = (case over of None \<Rightarrow> base | Some o' \<Rightarrow>
     \<lparr>set_model = (case set_model o' of None \<Rightarrow> set_model base | v \<Rightarrow> v),
      set_effort = (case set_effort o' of None \<Rightarrow> set_effort base | v \<Rightarrow> v),
      set_permission = (case set_permission o' of None \<Rightarrow> set_permission base | v \<Rightarrow> v)\<rparr>)"

definition has_settings :: "message_settings option \<Rightarrow> bool" where
  "has_settings so = (case so of None \<Rightarrow> False
     | Some s \<Rightarrow> set_model s \<noteq> None \<or> set_effort s \<noteq> None \<or> set_permission s \<noteq> None)"

text \<open>The admission checks of \<open>submit\<close>, in the code's order.\<close>

definition submit_refused :: "'h host \<Rightarrow> submit_message \<Rightarrow> 'h world \<Rightarrow> app_error option" where
  "submit_refused H req w = (case w of (s, h) \<Rightarrow>
     (case assertWritable H w of Some e \<Rightarrow> Some e | None \<Rightarrow>
     (case validateSubmission H req h of Some e \<Rightarrow> Some e | None \<Rightarrow>
      if count_if live_message (messages s) \<ge> 100 then Some (conflict ''The message queue is full.'')
      else if sm_mode req = Mode_Send \<and> expectedRunId req \<noteq> runId s
        then Some (conflict ''The active run changed. Review the message and send again.'')
      else if sm_mode req = Mode_Send \<and> (\<exists>m \<in> set (messages s). unconfirmed m)
        then Some (conflict ''Wait for the previous message delivery to be confirmed.'')
      else if sm_mode req = Mode_Send \<and> runId s = None \<and> \<not> canStart H h
        then Some (conflict ''The task cannot start a new run yet.'')
      else if sm_mode req = Mode_Send \<and> runId s \<noteq> None \<and> has_settings (sm_settings req)
        then Some (conflict ''Model and permission changes apply to queued messages or the next run.'')
      else None)))"

definition new_message :: "'h host \<Rightarrow> submit_message \<Rightarrow> attachment list option \<Rightarrow> 'h \<Rightarrow> stored_message" where
  "new_message H req att h = \<lparr>m_id = clientMessageId req, m_version = 1, m_mode = sm_mode req,
     m_text = sm_text req, m_skills = sm_skills req, m_images = None, m_attachments = att,
     m_settings = spread_settings (hostSettings H h) (sm_settings req), m_status = Msg_Queued,
     m_runId = None, m_error = None, m_editingUntil = None,
     m_fingerprint = digestRequest H req, m_editToken = None\<rparr>"

definition with_snapshot :: "app_error option \<times> 'h world \<Rightarrow> message_queue result \<times> 'h world" where
  "with_snapshot r = (case r of (Some e, w) \<Rightarrow> (Inl e, w) | (None, w) \<Rightarrow> (Inr (snapshot (fst w)), w))"

definition submit :: "'h host \<Rightarrow> int \<Rightarrow> submit_message \<Rightarrow> 'h world \<Rightarrow> message_queue result \<times> 'h world" where
  "submit H now req w = (case w of (s, h) \<Rightarrow>
     (case find_message (clientMessageId req) s of
        Some old \<Rightarrow> if m_fingerprint old \<noteq> digestRequest H req
          then (Inl (conflict ''This message ID was already used with different content.''), w)
          else (Inr (snapshot s), w)
      | None \<Rightarrow> (case submit_refused H req w of
          Some e \<Rightarrow> (Inl e, w)
        | None \<Rightarrow> (case saveAttachments H (sm_images req) h of
            Inl e \<Rightarrow> (Inl e, w)
          | Inr att \<Rightarrow>
              let m = new_message H req att h;
                  w' = save H (s\<lparr>messages := messages s @ [m]\<rparr>) h
              in with_snapshot (if sm_mode req = Mode_Send then sendNow H (m_id m) w' else pump H now w')))))"

text \<open>\<open>entry.editToken && (entry.editingUntil ?? 0) > Date.now()\<close>\<close>

definition being_edited :: "int \<Rightarrow> stored_message \<Rightarrow> bool" where
  "being_edited now m \<longleftrightarrow> m_editToken m \<noteq> None \<and> edit_held now m"

definition holds_edit :: "int \<Rightarrow> string \<Rightarrow> stored_message \<Rightarrow> bool" where
  "holds_edit now token m \<longleftrightarrow> m_editToken m = Some token \<and> edit_held now m"

definition clear_edit :: "stored_message \<Rightarrow> stored_message" where
  "clear_edit m = m\<lparr>m_editToken := None, m_editingUntil := None\<rparr>"

text \<open>
  What an action other than a send does to its entry: the new entry and, for an edit, the
  images the editor is handed.
\<close>

definition act_on_entry :: "'h host \<Rightarrow> int \<Rightarrow> message_action \<Rightarrow> 'h \<Rightarrow> stored_message \<Rightarrow>
    (stored_message \<times> input_attachment list option) result" where
  "act_on_entry H now a h m = (case a of
       Act_Delete v \<Rightarrow>
         if sending m \<or> m_status m = Msg_Delivered then Inl (conflict ''The message has already been sent.'')
         else if being_edited now m then Inl (conflict ''This message is being edited.'')
         else Inr (m\<lparr>m_status := Msg_Cancelled\<rparr>, None)
     | Act_Send v e \<Rightarrow> Inr (m, None)
     | Act_Edit v t \<Rightarrow>
         if m_status m \<noteq> Msg_Queued then Inl (conflict ''This message is no longer waiting.'')
         else if m_editToken m \<noteq> None \<and> m_editToken m \<noteq> Some t \<and> edit_held now m
           then Inl (conflict ''This message is being edited on another device.'')
         else bind_result (loadAttachments H (m_attachments m) h) (\<lambda>imgs.
           Inr (m\<lparr>m_editToken := Some t, m_editingUntil := Some (now + EDIT_MS)\<rparr>,
                case imgs of None \<Rightarrow> m_images m | _ \<Rightarrow> imgs))
     | Act_Renew t \<Rightarrow>
         if m_status m \<noteq> Msg_Queued then Inl (conflict ''This message is no longer waiting.'')
         else if \<not> holds_edit now t m
           then Inl (conflict ''The edit session expired. Your draft is preserved; reopen the message.'')
         else Inr (m\<lparr>m_editingUntil := Some (now + EDIT_MS)\<rparr>, None)
     | Act_Release t \<Rightarrow>
         if m_status m \<noteq> Msg_Queued then Inl (conflict ''This message is no longer waiting.'')
         else if \<not> holds_edit now t m
           then Inl (conflict ''The edit session expired. Your draft is preserved; reopen the message.'')
         else Inr (clear_edit m, None)
     | Act_Save t v txt sk imgs \<Rightarrow>
         if m_status m \<noteq> Msg_Queued then Inl (conflict ''This message is no longer waiting.'')
         else if \<not> holds_edit now t m
           then Inl (conflict ''The edit session expired. Your draft is preserved; reopen the message.'')
         else bind_result (saveAttachments H imgs h) (\<lambda>att.
           Inr (clear_edit (m\<lparr>m_text := txt, m_attachments := att, m_images := None,
                  m_skills := sk, m_version := m_version m + 1\<rparr>), None)))"

definition show_images :: "string \<Rightarrow> input_attachment list option \<Rightarrow> message_queue \<Rightarrow> message_queue" where
  "show_images mid imgs q = q\<lparr>q_messages := map (\<lambda>m. if p_id m = mid then m\<lparr>p_images := imgs\<rparr> else m) (q_messages q)\<rparr>"

text \<open>\<open>"version" in action && action.version !== entry.version\<close>\<close>

definition stale_version :: "message_action \<Rightarrow> stored_message \<Rightarrow> bool" where
  "stale_version a m \<longleftrightarrow> (case action_version a of None \<Rightarrow> False | Some v \<Rightarrow> v \<noteq> m_version m)"

text \<open>The snapshot an action answers with: an edit shows the images it loaded.\<close>

definition answer_action :: "string \<Rightarrow> message_action \<Rightarrow> input_attachment list option \<Rightarrow>
    message_queue result \<times> 'h world \<Rightarrow> message_queue result \<times> 'h world" where
  "answer_action mid a imgs r = (case r of
       (Inl e, w) \<Rightarrow> (Inl e, w)
     | (Inr q, w) \<Rightarrow> (Inr (case a of Act_Edit _ _ \<Rightarrow> show_images mid imgs q | _ \<Rightarrow> q), w))"

definition action :: "'h host \<Rightarrow> int \<Rightarrow> string \<Rightarrow> message_action \<Rightarrow> 'h world \<Rightarrow> message_queue result \<times> 'h world" where
  "action H now mid a w = (case assertWritable H w of Some e \<Rightarrow> (Inl e, w) | None \<Rightarrow>
     (case find_message mid (fst w) of
        None \<Rightarrow> (Inl (conflict ''Message not found.''), w)
      | Some m \<Rightarrow>
          if stale_version a m
          then (Inl (conflict ''This message changed. Reload it before editing.''), w)
          else (case a of
            Act_Send v er \<Rightarrow>
              if m_status m \<noteq> Msg_Queued then (Inl (conflict ''Only waiting messages can be sent.''), w)
              else if being_edited now m then (Inl (conflict ''Finish editing before sending.''), w)
              else if er \<noteq> runId (fst w) then (Inl (conflict ''The active run changed. Try again.''), w)
              else with_snapshot (sendNow H mid w)
          | _ \<Rightarrow> (case act_on_entry H now a (snd w) m of
              Inl e \<Rightarrow> (Inl e, w)
            | Inr (m', imgs) \<Rightarrow> answer_action mid a imgs
                (with_snapshot (pump H now (save H (on_message mid (\<lambda>_. m') (fst w)) (snd w))))))))"

end
