(* ===== verification/Message_Laws.thy ===== *)
theory Message_Laws
  imports Messages
begin

text \<open>
  The contract of the message queue and its proof: how a message may change
  (\<open>msg_evolves\<close>), how a whole queue may (\<open>evolves\<close>), the queue's invariant
  (\<open>queue_inv\<close>), and the step relation over every operation of the controller. A host
  whose \<open>start\<close> callback keeps the contract is an instance of the locale
  \<open>message_host\<close>; inside it every operation keeps it.
\<close>

section \<open>The contract\<close>

definition settled :: "stored_message \<Rightarrow> bool" where
  "settled m \<longleftrightarrow> m_status m \<noteq> Msg_Queued \<and> m_status m \<noteq> Msg_Sending"

text \<open>
  A message keeps its identity, its request fingerprint and the settings captured when it
  was submitted; its version never decreases. Once it has left the queue for good
  (\<open>settled\<close>) it is never queued or sent again and its content is frozen; once
  delivered it stays delivered.
\<close>

definition msg_evolves :: "stored_message \<Rightarrow> stored_message \<Rightarrow> bool" where
  "msg_evolves m m' \<longleftrightarrow>
     m_id m' = m_id m \<and> m_fingerprint m' = m_fingerprint m \<and> m_settings m' = m_settings m \<and>
     m_version m \<le> m_version m' \<and>
     (settled m \<longrightarrow> settled m' \<and> m_text m' = m_text m \<and> m_attachments m' = m_attachments m
        \<and> m_skills m' = m_skills m) \<and>
     (m_status m = Msg_Delivered \<longrightarrow> m_status m' = Msg_Delivered)"

definition evolves :: "message_state \<Rightarrow> message_state \<Rightarrow> bool" where
  "evolves s s' \<longleftrightarrow> revision s \<le> revision s' \<and> length (messages s) \<le> length (messages s') \<and>
     (\<forall>i < length (messages s). msg_evolves (messages s ! i) (messages s' ! i))"

definition queue_inv :: "message_state \<Rightarrow> bool" where
  "queue_inv s \<longleftrightarrow> distinct (map m_id (messages s)) \<and> count_if sending (messages s) \<le> 1"

text \<open>No message is put on the wire that was not on it before.\<close>

definition no_new_sending :: "message_state \<Rightarrow> message_state \<Rightarrow> bool" where
  "no_new_sending s s' \<longleftrightarrow> map m_id (messages s') = map m_id (messages s) \<and>
     (\<forall>i < length (messages s). sending (messages s' ! i) \<longrightarrow> sending (messages s ! i))"

lemma msg_evolves_refl [simp, intro]: "msg_evolves m m"
  by (simp add: msg_evolves_def)

lemma msg_evolves_trans [trans]: "msg_evolves a b \<Longrightarrow> msg_evolves b c \<Longrightarrow> msg_evolves a c"
  by (auto simp: msg_evolves_def settled_def)

lemma evolves_refl [simp, intro]: "evolves s s"
  by (simp add: evolves_def)

lemma evolves_trans [trans]: "evolves a b \<Longrightarrow> evolves b c \<Longrightarrow> evolves a c"
  unfolding evolves_def by (meson le_trans less_le_trans msg_evolves_trans)

lemma no_new_sending_refl [simp, intro]: "no_new_sending s s"
  by (simp add: no_new_sending_def)

lemma no_new_sending_length: "no_new_sending s s' \<Longrightarrow> length (messages s') = length (messages s)"
  unfolding no_new_sending_def by (metis length_map)

lemma no_new_sending_trans [trans]:
  "no_new_sending a b \<Longrightarrow> no_new_sending b c \<Longrightarrow> no_new_sending a c"
  using no_new_sending_length[of a b] by (auto simp: no_new_sending_def)

lemma no_new_sending_inv: "no_new_sending s s' \<Longrightarrow> queue_inv s \<Longrightarrow> queue_inv s'"
  using no_new_sending_length[of s s']
    count_if_pointwise_le[of "messages s" "messages s'" sending]
  by (auto simp: queue_inv_def no_new_sending_def)

text \<open>
  What most operations do: they rewrite the fields of the state around the messages, and
  each message by a function that only makes permitted changes.
\<close>

definition tame :: "message_state \<Rightarrow> message_state \<Rightarrow> bool" where
  "tame s s' \<longleftrightarrow> evolves s s' \<and> no_new_sending s s'"

lemma tame_refl [simp, intro]: "tame s s"
  by (simp add: tame_def)

lemma tame_trans [trans]: "tame a b \<Longrightarrow> tame b c \<Longrightarrow> tame a c"
  unfolding tame_def by (meson evolves_trans no_new_sending_trans)

lemma tame_evolves: "tame s s' \<Longrightarrow> evolves s s'"
  by (simp add: tame_def)

lemma tame_inv: "tame s s' \<Longrightarrow> queue_inv s \<Longrightarrow> queue_inv s'"
  unfolding tame_def by (blast intro: no_new_sending_inv)

lemma tameI:
  assumes "revision s \<le> revision s'" and "length (messages s') = length (messages s)"
    and "\<And>i. i < length (messages s) \<Longrightarrow> msg_evolves (messages s ! i) (messages s' ! i)"
    and "\<And>i. i < length (messages s) \<Longrightarrow> sending (messages s' ! i) \<Longrightarrow> sending (messages s ! i)"
  shows "tame s s'"
proof -
  have "map m_id (messages s') = map m_id (messages s)"
    using assms(2,3) by (intro nth_equalityI) (auto simp: msg_evolves_def)
  with assms show ?thesis
    by (auto simp: tame_def evolves_def no_new_sending_def)
qed

lemma tame_same: "revision s \<le> revision s' \<Longrightarrow> messages s' = messages s \<Longrightarrow> tame s s'"
  by (rule tameI) auto

lemma tame_map:
  assumes "\<And>m. m \<in> set (messages s) \<Longrightarrow> msg_evolves m (f m) \<and> (sending (f m) \<longrightarrow> sending m)"
    and "revision s \<le> revision s'" and "messages s' = map f (messages s)"
  shows "tame s s'"
  using assms by (intro tameI) auto

lemma tame_upd_first:
  assumes "\<And>m. m \<in> set (messages s) \<Longrightarrow> p m \<Longrightarrow> msg_evolves m (f m) \<and> (sending (f m) \<longrightarrow> sending m)"
    and "revision s \<le> revision s'" and "messages s' = upd_first p f (messages s)"
  shows "tame s s'"
proof (rule tameI)
  fix i assume i: "i < length (messages s)"
  then have "messages s ! i \<in> set (messages s)" by simp
  then have *: "messages s' ! i = messages s ! i \<or>
      msg_evolves (messages s ! i) (messages s' ! i) \<and> (sending (messages s' ! i) \<longrightarrow> sending (messages s ! i))"
    using upd_first_nth[OF i, of p f] assms(1,3) by metis
  show "msg_evolves (messages s ! i) (messages s' ! i)" using * by auto
  show "sending (messages s ! i)" if "sending (messages s' ! i)" using * that by auto
qed (use assms in auto)

section \<open>Each operation\<close>

text \<open>
  An operation \<open>f\<close> on a message is harmless when it only makes permitted changes and
  sends nothing.
\<close>

definition harmless :: "stored_message \<Rightarrow> stored_message \<Rightarrow> bool" where
  "harmless m m' \<longleftrightarrow> msg_evolves m m' \<and> (sending m' \<longrightarrow> sending m)"

lemmas harmless_simps = harmless_def msg_evolves_def settled_def sending_def

lemma harmless_refl [simp]: "harmless m m"
  by (simp add: harmless_def)

lemma harmless_lost: "m_status m \<noteq> Msg_Delivered \<Longrightarrow> m_status m \<noteq> Msg_Queued \<Longrightarrow> harmless m (lost_message e m)"
  by (auto simp: harmless_simps lost_message_def)

lemma harmless_requeue: "sending m \<Longrightarrow> harmless m (requeue m)"
  by (auto simp: harmless_simps requeue_def)

lemma save_fst [simp]: "fst (save H s h) = s\<lparr>revision := revision s + 1\<rparr>"
  by (simp add: save_def Let_def)

lemma save_snd: "snd (save H s h) = hostChanged H (s\<lparr>revision := revision s + 1\<rparr>) h"
  by (simp add: save_def Let_def)

lemma saved_tame: "tame s s' \<Longrightarrow> tame s (fst (save H s' h))"
  by (erule tame_trans) (auto intro!: tame_same)

lemma settle_compaction_messages [simp]:
  "messages (settle_compaction st e s) = messages s"
  "revision (settle_compaction st e s) = revision s"
  "runId (settle_compaction st e s) = runId s"
  "paused (settle_compaction st e s) = paused s"
  by (auto simp: settle_compaction_def split: option.splits)

lemma map_messages_simps [simp]:
  "messages (map_messages f s) = map f (messages s)"
  "revision (map_messages f s) = revision s"
  "runId (map_messages f s) = runId s"
  "paused (map_messages f s) = paused s"
  by (simp_all add: map_messages_def)

lemma on_message_simps [simp]:
  "messages (on_message i f s) = upd_first (\<lambda>m. m_id m = i) f (messages s)"
  "revision (on_message i f s) = revision s"
  "runId (on_message i f s) = runId s"
  "paused (on_message i f s) = paused s"
  by (simp_all add: on_message_def)

lemma tame_on_message:
  assumes "distinct (map m_id (messages s))" and "find_message i s = Some m"
    and "harmless m (f m)" and "revision s \<le> revision s'"
    and "messages s' = upd_first (\<lambda>m. m_id m = i) f (messages s)"
  shows "tame s s'"
proof (rule tame_upd_first[OF _ assms(4,5)])
  fix x assume x: "x \<in> set (messages s)" "m_id x = i"
  have m: "m \<in> set (messages s)" "m_id m = i"
    using find_Some_in[OF assms(2)[unfolded find_message_def]] by auto
  with x assms(1) have "x = m" by (metis distinct_map inj_onD)
  with assms(3) show "msg_evolves x (f x) \<and> (sending (f x) \<longrightarrow> sending x)"
    by (simp add: harmless_def)
qed

text \<open>When every match may be rewritten, uniqueness of the ids is not needed.\<close>

lemma tame_on_message_all:
  assumes "\<And>m. m_id m = i \<Longrightarrow> m \<in> set (messages s) \<Longrightarrow> harmless m (f m)" and "revision s \<le> revision s'"
    and "messages s' = upd_first (\<lambda>m. m_id m = i) f (messages s)"
  shows "tame s s'"
  using assms by (intro tame_upd_first) (auto simp: harmless_def)

lemma beginRun_tame [evolve_intros]: "tame (fst w) (fst (snd (beginRun H i c w)))"
proof -
  let ?f = "\<lambda>m. if sending m \<and> m_runId m = None then m\<lparr>m_runId := Some (freshUuid H w)\<rparr> else m"
  have "harmless m (?f m)" for m by (auto simp: harmless_simps)
  then show ?thesis
    by (intro tame_map[where f = ?f]) (auto simp: beginRun_def Let_def harmless_def split: prod.split)
qed

lemma rejectBeforeStart_tame [evolve_intros]: "tame (fst w) (fst (rejectBeforeStart H e w))"
proof (cases "runtimeStarted (fst w)")
  case True
  then show ?thesis by (auto simp: rejectBeforeStart_def split: prod.split)
next
  case False
  let ?f = "\<lambda>m. if sending m then m\<lparr>m_status := Msg_Rejected, m_error := Some e\<rparr> else m"
  have "harmless m (?f m)" for m by (auto simp: harmless_simps)
  with False show ?thesis
    by (intro tame_map[where f = ?f]) (auto simp: rejectBeforeStart_def harmless_def split: prod.split)
qed

lemma startingRuntime_tame [evolve_intros]: "tame (fst w) (fst (startingRuntime H w))"
  by (cases w) (auto simp: startingRuntime_def intro!: tame_same)

lemma pause_tame [evolve_intros]: "tame (fst w) (fst (pause H w))"
  by (cases w) (auto simp: pause_def intro!: tame_same)

lemma recover_tame [evolve_intros]: "tame (fst w) (fst (recover H live w))"
proof -
  obtain s h where w: "w = (s, h)" by (cases w)
  have "messages (fst (recover H live w)) = map (recover_message live s) (messages s)"
    and "revision s \<le> revision (fst (recover H live w))"
    by (simp_all add: w recover_def Let_def)
  moreover have "harmless m (recover_message live s m)" for m
    using harmless_requeue[of m] harmless_lost[of m]
    by (auto simp: recover_message_def sending_def)
  ultimately show ?thesis
    by (intro tame_map[where f = "recover_message live s"]) (auto simp: w harmless_def)
qed

lemma unique_ids: "queue_inv s \<Longrightarrow> distinct (map m_id (messages s))"
  by (simp add: queue_inv_def)

lemma requeue_initial_tame:
  assumes "queue_inv s"
  shows "tame s (requeue_initial s)"
  using assms unique_ids[of s] harmless_requeue
  by (auto simp: requeue_initial_def split: option.splits intro!: tame_on_message[where f = requeue])

lemma requeue_initial_revision [simp]: "revision (requeue_initial s) = revision s"
  by (auto simp: requeue_initial_def split: option.splits)

lemma stopWaiting_tame [evolve_intros]:
  assumes "queue_inv (fst w)"
  shows "tame (fst w) (fst (stopWaiting H w))"
proof -
  have "tame (fst w) (requeue_initial (fst w))"
    using assms by (rule requeue_initial_tame)
  also have "tame (requeue_initial (fst w)) (fst (stopWaiting H w))"
    by (rule tame_same) (auto simp: stopWaiting_def split: prod.split)
  finally show ?thesis .
qed

lemma delivered_tame [evolve_intros]:
  assumes "queue_inv (fst w)"
  shows "tame (fst w) (fst (delivered H mid w))"
  using assms unique_ids[of "fst w"]
  by (cases w) (auto simp: delivered_def unconfirmed_def harmless_simps split: option.splits
      intro!: tame_on_message[where f = "\<lambda>m. m\<lparr>m_status := Msg_Delivered, m_error := None\<rparr>"])

lemma deliveryFailed_tame [evolve_intros]:
  assumes "queue_inv (fst w)"
  shows "tame (fst w) (fst (deliveryFailed H closed mid rej w))"
proof -
  let ?f = "\<lambda>m. m\<lparr>m_status := (if rej then Msg_Rejected else Msg_Unknown),
     m_error := Some (if rej then ''The shared session rejected this message.''
       else ''Delivery could not be confirmed. Check the conversation before sending again.'')\<rparr>"
  show ?thesis
    using assms unique_ids[of "fst w"]
    by (cases w) (auto simp: deliveryFailed_def harmless_simps split: option.splits
        intro!: tame_on_message[where f = ?f])
qed

lemma steer_settled_tame [evolve_intros]:
  assumes "queue_inv (fst w)"
  shows "tame (fst w) (fst (steer_settled H closed mid out w))"
proof -
  obtain s h where w: "w = (s, h)" by (cases w)
  let ?f = "case out of
      Steer_Delivered \<Rightarrow> (\<lambda>m. m\<lparr>m_status := Msg_Delivered\<rparr>)
    | Steer_Rejected \<Rightarrow> (\<lambda>m. m\<lparr>m_status := Msg_Rejected,
        m_error := Some ''The active run could not accept this message.''\<rparr>)
    | Steer_Unknown \<Rightarrow> lost_message
        ''Delivery could not be confirmed. Check the conversation before sending again.''"
  have "m_status m \<noteq> Msg_Delivered \<Longrightarrow> harmless m (?f m)" for m
    by (cases out) (auto simp: harmless_simps lost_message_def)
  then show ?thesis
    using assms unique_ids[of s]
    by (cases out) (auto simp: w steer_settled_def split: option.splits
        intro!: tame_on_message[where f = ?f])
qed

lemma steer_threw_tame [evolve_intros]:
  assumes "queue_inv (fst w)"
  shows "tame (fst w) (fst (steer_threw H closed mid w))"
  using assms unique_ids[of "fst w"]
  by (cases w) (auto simp: steer_threw_def harmless_simps lost_message_def split: option.splits
      intro!: tame_on_message[where f = "lost_message ''Delivery could not be confirmed.''"])

lemma finish_state_tame: "tame s (finish_state failed err s)"
proof -
  let ?l = "\<lambda>m. if sending m then lost_message ''The run ended before delivery was confirmed.'' m else m"
  have "harmless m (?l m)" for m
    by (auto simp: harmless_simps lost_message_def)
  then show ?thesis
    by (intro tame_map[where f = ?l]) (auto simp: finish_state_def Let_def harmless_def)
qed

section \<open>Claiming a message\<close>

text \<open>
  A message is claimed for sending only while it waits and while no other delivery is
  unconfirmed. \<open>step_ok\<close> is what remains true of a step that may claim one.
\<close>

definition step_ok :: "message_state \<Rightarrow> message_state \<Rightarrow> bool" where
  "step_ok s s' \<longleftrightarrow> evolves s s' \<and> (queue_inv s \<longrightarrow> queue_inv s')"

lemma step_ok_refl [simp, intro]: "step_ok s s"
  by (simp add: step_ok_def)

lemma step_ok_trans [trans]: "step_ok a b \<Longrightarrow> step_ok b c \<Longrightarrow> step_ok a c"
  unfolding step_ok_def by (blast intro: evolves_trans)

lemma tame_step_ok: "tame s s' \<Longrightarrow> step_ok s s'"
  unfolding step_ok_def by (blast intro: tame_evolves tame_inv)

lemma step_okI: "(queue_inv s \<Longrightarrow> tame s s') \<Longrightarrow> evolves s s' \<Longrightarrow> step_ok s s'"
  unfolding step_ok_def by (blast intro: tame_inv)

lemma claim_step:
  assumes none: "\<forall>m \<in> set (messages s). \<not> sending m"
    and claims: "\<And>m. p m \<Longrightarrow> m \<in> set (messages s) \<Longrightarrow>
       msg_evolves m (f m) \<and> m_id (f m) = m_id m"
    and ids: "\<And>m. m_id (f m) = m_id m"
    and s': "revision s \<le> revision s'" "messages s' = upd_first p f (messages s)"
  shows "step_ok s s'"
proof -
  have "count_if sending (messages s) = 0"
    using none by (simp add: count_if_zero)
  then have "count_if sending (messages s') \<le> 1"
    using count_if_upd_first_Suc[of sending p f "messages s"] s' by simp
  moreover have "map m_id (messages s') = map m_id (messages s)"
    using s' ids by (simp add: map_upd_first)
  moreover have "msg_evolves (messages s ! i) (messages s' ! i)" if "i < length (messages s)" for i
    using upd_first_nth[OF that, of p f] claims that s'(2) by (metis msg_evolves_refl nth_mem)
  ultimately show ?thesis
    using s' by (auto simp: step_ok_def evolves_def queue_inv_def)
qed

lemma append_step:
  assumes "m_id m \<notin> set (map m_id (messages s))" and "\<not> sending m"
    and "revision s \<le> revision s'" and "messages s' = messages s @ [m]"
  shows "step_ok s s'"
  using assms by (auto simp: step_ok_def evolves_def queue_inv_def nth_append)

lemma pump_candidate_Some:
  assumes "pump_candidate H now w = Some m"
  shows "\<forall>m \<in> set (messages (fst w)). m_status m \<notin> {Msg_Sending, Msg_Unknown, Msg_Rejected}"
    and "find (\<lambda>m. m_status m = Msg_Queued) (messages (fst w)) = Some m"
    and "\<not> edit_held now m" and "\<not> paused (fst w)" and "runId (fst w) = None" and "canStart H (snd w)"
  using assms by (auto simp: pump_candidate_def split: prod.splits if_splits option.splits)

lemma send_refused_None:
  "send_refused H w = None \<longleftrightarrow>
     (\<forall>m \<in> set (messages (fst w)). \<not> unconfirmed m) \<and> (runId (fst w) \<noteq> None \<or> canStart H (snd w))"
  by (auto simp: send_refused_def split: prod.splits)

lemma act_on_entry_harmless:
  assumes "act_on_entry H now a h m = Inr (m', imgs)"
  shows "harmless m m'"
  using assms
  by (auto simp: act_on_entry_def harmless_simps clear_edit_def bind_result_Inr
      split: message_action.splits if_splits)

lemma with_snapshot_snd [simp]: "snd (with_snapshot r) = snd r"
  by (auto simp: with_snapshot_def split: prod.split option.split)

lemma answer_action_snd [simp]: "snd (answer_action mid a imgs r) = snd r"
  by (auto simp: answer_action_def split: prod.split sum.split)

text \<open>The three things an action can do: nothing, send its message, or change it and pump.\<close>

lemma action_world:
  obtains (same) "snd (action H now mid a w) = w"
    | (sent) m where "find_message mid (fst w) = Some m" "m_status m = Msg_Queued"
        "snd (action H now mid a w) = snd (sendNow H mid w)"
    | (entry) m m' imgs where "find_message mid (fst w) = Some m"
        "act_on_entry H now a (snd w) m = Inr (m', imgs)"
        "snd (action H now mid a w) = snd (pump H now (save H (on_message mid (\<lambda>_. m') (fst w)) (snd w)))"
proof (cases "assertWritable H w = None \<and> (\<exists>m. find_message mid (fst w) = Some m \<and> \<not> stale_version a m)")
  case False
  then have "snd (action H now mid a w) = w"
    by (cases "assertWritable H w"; cases "find_message mid (fst w)") (auto simp: action_def)
  then show ?thesis by (rule same)
next
  case True
  then obtain m where m: "assertWritable H w = None" "find_message mid (fst w) = Some m" "\<not> stale_version a m"
    by blast
  show ?thesis
  proof (cases "\<exists>v e. a = Act_Send v e")
    case True
    then obtain v e where a: "a = Act_Send v e" by blast
    with m have "snd (action H now mid a w) = w \<or>
        m_status m = Msg_Queued \<and> snd (action H now mid a w) = snd (sendNow H mid w)"
      by (cases "m_status m = Msg_Queued"; cases "being_edited now m"; cases "e = runId (fst w)")
        (simp_all add: action_def)
    then show ?thesis using same sent[OF m(2)] by blast
  next
    case False
    with m have "snd (action H now mid a w) = (case act_on_entry H now a (snd w) m of
        Inl e \<Rightarrow> w
      | Inr (m', imgs) \<Rightarrow> snd (pump H now (save H (on_message mid (\<lambda>_. m') (fst w)) (snd w))))"
      by (cases a) (simp_all add: action_def split: sum.split prod.split)
    then show ?thesis
      using same entry[OF m(2)] by (auto split: sum.splits prod.splits)
  qed
qed

lemma sent_by_submit:
  assumes inv: "queue_inv (fst w)" and new: "find_message (clientMessageId req) (fst w) = None"
    and w': "w' = save H ((fst w)\<lparr>messages := messages (fst w) @ [new_message H req att (snd w)]\<rparr>) (snd w)"
  shows "step_ok (fst w) (fst w')" and "queue_inv (fst w')"
    and "find_message (clientMessageId req) (fst w') = Some (new_message H req att (snd w))"
proof -
  have fresh: "\<forall>m \<in> set (messages (fst w)). m_id m \<noteq> clientMessageId req"
    using new by (simp add: find_message_def find_None)
  then show ok: "step_ok (fst w) (fst w')"
    unfolding w' by (intro append_step[where m = "new_message H req att (snd w)"])
      (auto simp: new_message_def sending_def)
  then show "queue_inv (fst w')" using inv by (simp add: step_ok_def)
  show "find_message (clientMessageId req) (fst w') = Some (new_message H req att (snd w))"
    using new by (simp add: w' find_message_def find_append new_message_def)
qed

section \<open>Hosts\<close>

text \<open>
  What the controller needs of its host: the \<open>start\<close> callback, which begins a run and
  re-enters the controller, only makes permitted changes to this queue and sends nothing.
\<close>

locale message_host =
  fixes H :: "'h host"
  assumes host_start: "queue_inv (fst w) \<Longrightarrow> tame (fst w) (fst (snd (hostStart H m w)))"

section \<open>Invariants of the world around a queue\<close>

text \<open>
  A predicate on the queue and its host together that survives a permitted save and the
  host's own callbacks survives every operation that may call the host.
\<close>

locale world_invariant = message_host H for H :: "'h host" +
  fixes W :: "'h world \<Rightarrow> bool"
  assumes w_queue: "W w \<Longrightarrow> queue_inv (fst w)"
    and w_save: "W (s, h) \<Longrightarrow> step_ok s s' \<Longrightarrow> W (save H s' h)"
    and w_start: "W w \<Longrightarrow> W (snd (hostStart H m w))"
    and w_steer: "W w \<Longrightarrow> W (fst w, hostSteer H m w)"
begin

lemma world_save: "W w \<Longrightarrow> step_ok (fst w) s' \<Longrightarrow> W (save H s' (snd w))"
  by (cases w) (auto intro: w_save)

lemma world_start: "W w \<Longrightarrow> W (snd (start H m w))"
proof -
  assume w: "W w"
  obtain e s h where r: "hostStart H m w = (e, (s, h))" by (metis prod.exhaust)
  have 1: "W (s, h)" using w_start[OF w, of m] r by simp
  show ?thesis
  proof (cases "\<exists>x e'. e = Some e' \<and> find_message (m_id m) s = Some x \<and> runId s = None \<and> sending x")
    case True
    then obtain x e' where x: "e = Some e'" "find_message (m_id m) s = Some x" "sending x" "runId s = None"
      by blast
    let ?f = "\<lambda>m. m\<lparr>m_status := Msg_Rejected, m_error := Some (error_message e')\<rparr>"
    from x have "harmless x (?f x)" by (auto simp: harmless_simps)
    with x w_queue[OF 1] have "tame s ((on_message (m_id m) ?f s)\<lparr>paused := True\<rparr>)"
      by (intro tame_on_message[where f = ?f and i = "m_id m" and m = x]) (auto simp: unique_ids)
    from w_save[OF 1 tame_step_ok[OF this]] x show ?thesis by (auto simp: start_def r)
  next
    case False
    with 1 show ?thesis by (auto simp: start_def r split: option.splits)
  qed
qed

lemma world_pump: "W w \<Longrightarrow> W (snd (pump H now w))"
proof (cases "pump_candidate H now w")
  case None
  then show "W w \<Longrightarrow> ?thesis" by (simp add: pump_def)
next
  case (Some m)
  let ?c = "\<lambda>m. m\<lparr>m_status := Msg_Sending\<rparr>"
  let ?s' = "(fst w)\<lparr>messages := upd_first (\<lambda>m. m_status m = Msg_Queued) ?c (messages (fst w))\<rparr>"
  have "step_ok (fst w) ?s'"
    using pump_candidate_Some(1)[OF Some]
    by (intro claim_step[where f = ?c and p = "\<lambda>m. m_status m = Msg_Queued"])
      (auto simp: sending_def msg_evolves_def settled_def)
  then show "W w \<Longrightarrow> ?thesis"
    using Some by (auto simp: pump_def intro: world_start world_save)
qed

lemma world_sendNow:
  assumes w: "W w" and waits: "find_message mid (fst w) = Some m" "m_status m = Msg_Queued"
  shows "W (snd (sendNow H mid w))"
proof (cases "send_refused H w")
  case (Some e)
  with w show ?thesis by (simp add: sendNow_def)
next
  case None
  let ?s = "fst w"
  let ?w' = "save H (on_message mid (claim_message ?s) ?s) (snd w)"
  have "x = m" if "x \<in> set (messages ?s)" "m_id x = mid" for x
    using that waits(1) unique_ids[OF w_queue[OF w]] find_Some_in[of "\<lambda>m. m_id m = mid" "messages ?s" m]
    by (auto simp: find_message_def distinct_map inj_on_def)
  with None waits(2) have "step_ok ?s (on_message mid (claim_message ?s) ?s)"
    by (intro claim_step[where f = "claim_message ?s" and p = "\<lambda>m. m_id m = mid"])
      (auto simp: send_refused_None claim_message_def sending_def unconfirmed_def msg_evolves_def settled_def)
  with w have 1: "W ?w'" by (rule world_save)
  show ?thesis
    using waits None world_start[OF 1, of "claim_message ?s m"] w_steer[OF 1, of "claim_message ?s m"]
    by (auto simp: sendNow_def Let_def)
qed

lemma world_resume: "W w \<Longrightarrow> W (snd (resume H now w))"
proof -
  assume w: "W w"
  have "snd (resume H now w) \<in> {w, snd (pump H now (save H ((fst w)\<lparr>paused := False\<rparr>) (snd w)))}"
    by (auto simp: resume_def split: option.splits prod.splits)
  moreover have "W (save H ((fst w)\<lparr>paused := False\<rparr>) (snd w))"
    using w by (intro world_save tame_step_ok tame_same) auto
  from world_pump[OF this] have "W (snd (pump H now (save H ((fst w)\<lparr>paused := False\<rparr>) (snd w))))" .
  ultimately show ?thesis using w by (elim insertE singletonE) simp_all
qed

lemma world_finish: "W w \<Longrightarrow> W (snd (finish H now failed drain err w))"
proof -
  assume w: "W w"
  have 1: "W (save H (finish_state failed err (fst w)) (snd w))"
    using w by (intro world_save tame_step_ok finish_state_tame)
  show ?thesis
    using 1 world_pump[OF 1] by (cases w; cases failed) (simp_all add: finish_def Let_def)
qed

lemma world_submit: "W w \<Longrightarrow> W (snd (submit H now req w))"
proof -
  assume w: "W w"
  show ?thesis
  proof (cases "find_message (clientMessageId req) (fst w) = None \<and> submit_refused H req w = None \<and>
      (\<exists>att. saveAttachments H (sm_images req) (snd w) = Inr att)")
    case False
    then have "snd (submit H now req w) = w"
      by (auto simp: submit_def split: prod.splits option.splits sum.splits)
    with w show ?thesis by simp
  next
    case True
    then obtain att where att: "saveAttachments H (sm_images req) (snd w) = Inr att"
      and new: "find_message (clientMessageId req) (fst w) = None" and ok: "submit_refused H req w = None"
      by blast
    let ?m = "new_message H req att (snd w)"
    let ?s' = "(fst w)\<lparr>messages := messages (fst w) @ [?m]\<rparr>"
    define w' where "w' = save H ?s' (snd w)"
    note sub = sent_by_submit[OF w_queue[OF w] new w'_def]
    have "step_ok (fst w) ?s'"
      using new by (intro append_step[where m = ?m])
        (auto simp: new_message_def sending_def find_message_def find_None)
    with w have 1: "W w'" unfolding w'_def by (rule world_save)
    have "snd (submit H now req w) =
        snd (if sm_mode req = Mode_Send then sendNow H (clientMessageId req) w' else pump H now w')"
      using att new ok
      by (cases w) (auto simp: submit_def w'_def with_snapshot_def new_message_def Let_def split: prod.splits option.splits)
    moreover have "W (snd (sendNow H (clientMessageId req) w'))"
      using sub(3) by (intro world_sendNow[OF 1]) (auto simp: new_message_def)
    ultimately show ?thesis using world_pump[OF 1] by simp
  qed
qed

lemma world_action: "W w \<Longrightarrow> W (snd (action H now mid a w))"
proof -
  assume w: "W w"
  show ?thesis
    using action_world[of H now mid a w]
  proof cases
    case same
    with w show ?thesis by simp
  next
    case (sent m)
    with world_sendNow[OF w, of mid m] show ?thesis by simp
  next
    case (entry m m' imgs)
    have "step_ok (fst w) (on_message mid (\<lambda>_. m') (fst w))"
      using entry(1) act_on_entry_harmless[OF entry(2)] unique_ids[OF w_queue[OF w]]
      by (intro tame_step_ok tame_on_message[where f = "\<lambda>_. m'" and i = mid and m = m]) auto
    with w have "W (save H (on_message mid (\<lambda>_. m') (fst w)) (snd w))" by (rule world_save)
    then show ?thesis using entry(3) by (simp add: world_pump)
  qed
qed

end

section \<open>The step relation\<close>

text \<open>
  Every public operation of the controller, every callback it registers and every change
  that the rest of the service makes to its own state. The arguments of an operation,
  the time it reads included, are arbitrary.
\<close>

inductive message_step :: "'h host \<Rightarrow> 'h world \<Rightarrow> 'h world \<Rightarrow> bool" for H where
  Step_BeginRun: "message_step H w (snd (beginRun H i c w))"
| Step_RejectBeforeStart: "message_step H w (rejectBeforeStart H e w)"
| Step_StartingRuntime: "message_step H w (startingRuntime H w)"
| Step_StopWaiting: "message_step H w (stopWaiting H w)"
| Step_Recover: "message_step H w (recover H live w)"
| Step_Pause: "message_step H w (pause H w)"
| Step_Resume: "message_step H w (snd (resume H now w))"
| Step_Finish: "message_step H w (snd (finish H now failed drain err w))"
| Step_Delivered: "message_step H w (delivered H mid w)"
| Step_DeliveryFailed: "message_step H w (deliveryFailed H closed mid rej w)"
| Step_Submit: "message_step H w (snd (submit H now req w))"
| Step_Action: "message_step H w (snd (action H now mid a w))"
| Step_Pump: "message_step H w (snd (pump H now w))"
| Step_SteerSettled: "message_step H w (steer_settled H closed mid out w)"
| Step_SteerThrew: "message_step H w (steer_threw H closed mid w)"
| Step_Host: "message_step H (s, h) (s, h')"

text \<open>The contract of the queue is such an invariant of the world of any host.\<close>

sublocale message_host \<subseteq> kept: world_invariant H "\<lambda>w. queue_inv (fst w) \<and> evolves s0 (fst w)"
  for s0 :: message_state
proof unfold_locales
  fix w :: "'h world" and m
  assume w: "queue_inv (fst w) \<and> evolves s0 (fst w)"
  show "queue_inv (fst w)" using w by simp
  show "queue_inv (fst (snd (hostStart H m w))) \<and> evolves s0 (fst (snd (hostStart H m w)))"
    using w host_start[of w m] by (auto intro: tame_inv evolves_trans[OF _ tame_evolves])
  show "queue_inv (fst (fst w, hostSteer H m w)) \<and> evolves s0 (fst (fst w, hostSteer H m w))"
    using w by simp
next
  fix s s' and h :: 'h
  assume "queue_inv (fst (s, h)) \<and> evolves s0 (fst (s, h))" and "step_ok s s'"
  moreover have "tame s' (fst (save H s' h))" by (intro saved_tame tame_refl)
  ultimately show "queue_inv (fst (save H s' h)) \<and> evolves s0 (fst (save H s' h))"
    unfolding step_ok_def using tame_inv tame_evolves by (metis evolves_trans fst_conv)
qed

context message_host
begin

text \<open>The permitted steps, one for each operation.\<close>

lemma steps_keep_calls:
  "queue_inv (fst w) \<Longrightarrow> step_ok (fst w) (fst (snd (pump H now w)))"
  "queue_inv (fst w) \<Longrightarrow> step_ok (fst w) (fst (snd (resume H now w)))"
  "queue_inv (fst w) \<Longrightarrow> step_ok (fst w) (fst (snd (finish H now failed drain err w)))"
  "queue_inv (fst w) \<Longrightarrow> step_ok (fst w) (fst (snd (submit H now req w)))"
  "queue_inv (fst w) \<Longrightarrow> step_ok (fst w) (fst (snd (action H now mid a w)))"
  using kept.world_pump[of w "fst w" now] kept.world_resume[of w "fst w" now]
    kept.world_finish[of w "fst w" now failed drain err] kept.world_submit[of w "fst w" now req]
    kept.world_action[of w "fst w" now mid a]
  by (simp_all add: step_ok_def)

lemma step_keeps: "message_step H w w' \<Longrightarrow> queue_inv (fst w) \<Longrightarrow> step_ok (fst w) (fst w')"
  by (induction rule: message_step.induct) (simp_all add: steps_keep_calls evolve_intros tame_step_ok)

lemma steps_keep:
  "(message_step H)\<^sup>*\<^sup>* w w' \<Longrightarrow> queue_inv (fst w) \<Longrightarrow> queue_inv (fst w') \<and> evolves (fst w) (fst w')"
proof (induction rule: rtranclp_induct)
  case base
  then show ?case by simp
next
  case (step y z)
  then show ?case using step_keeps[of y z] by (auto simp: step_ok_def intro: evolves_trans)
qed

end

lemma found_by_id: "queue_inv s \<Longrightarrow> m \<in> set (messages s) \<Longrightarrow> find_message (m_id m) s = Some m"
  unfolding queue_inv_def find_message_def
  by (cases "find (\<lambda>x. m_id x = m_id m) (messages s)")
    (auto simp: find_None distinct_map inj_on_def dest: find_Some_in)

lemma evolves_member:
  assumes "evolves s s'" and "m \<in> set (messages s)"
  shows "\<exists>m' \<in> set (messages s'). msg_evolves m m'"
proof -
  obtain k where "k < length (messages s)" "messages s ! k = m" using assms(2) by (auto simp: in_set_conv_nth)
  with assms(1) show ?thesis by (intro bexI[of _ "messages s' ! k"]) (auto simp: evolves_def)
qed

context message_host
begin

text \<open>An accepted submission leaves its message in the queue.\<close>

lemma submit_accepted:
  assumes inv: "queue_inv (fst w)" and ok: "fst (submit H now req w) = Inr q"
  shows "\<exists>m \<in> set (messages (fst (snd (submit H now req w)))).
    m_id m = clientMessageId req \<and> m_fingerprint m = digestRequest H req"
proof (cases "find_message (clientMessageId req) (fst w)")
  case (Some old)
  with ok have "snd (submit H now req w) = w" "m_fingerprint old = digestRequest H req"
    by (auto simp: submit_def split: prod.splits if_splits)
  with Some show ?thesis
    using find_Some_in[of "\<lambda>m. m_id m = clientMessageId req" "messages (fst w)" old]
    by (auto simp: find_message_def)
next
  case None
  with ok obtain att where att: "saveAttachments H (sm_images req) (snd w) = Inr att" "submit_refused H req w = None"
    by (auto simp: submit_def split: prod.splits option.splits sum.splits)
  define w' where "w' = save H ((fst w)\<lparr>messages := messages (fst w) @ [new_message H req att (snd w)]\<rparr>) (snd w)"
  note sub = sent_by_submit[OF inv None w'_def]
  have "snd (submit H now req w) =
      snd (if sm_mode req = Mode_Send then sendNow H (clientMessageId req) w' else pump H now w')"
    using att None
    by (cases w) (auto simp: submit_def w'_def with_snapshot_def new_message_def Let_def split: prod.splits option.splits)
  moreover have "evolves (fst w') (fst (snd (sendNow H (clientMessageId req) w')))"
    using kept.world_sendNow[of w' "fst w'" "clientMessageId req", OF _ sub(3)] sub(2) by (simp add: new_message_def)
  moreover have "evolves (fst w') (fst (snd (pump H now w')))"
    using kept.world_pump[of w' "fst w'"] sub(2) by simp
  ultimately have "evolves (fst w') (fst (snd (submit H now req w)))" by simp
  then obtain m' where "m' \<in> set (messages (fst (snd (submit H now req w))))"
      "msg_evolves (new_message H req att (snd w)) m'"
    using evolves_member[of "fst w'" _ "new_message H req att (snd w)"] by (auto simp: w'_def)
  then show ?thesis by (intro bexI[of _ m']) (auto simp: msg_evolves_def new_message_def)
qed

end

text \<open>A submission whose message is in the queue is only read back.\<close>

lemma submit_known:
  "find_message (clientMessageId req) (fst w) = Some old \<Longrightarrow> submit H now req w =
     (if m_fingerprint old = digestRequest H req then (Inr (snapshot (fst w)), w)
      else (Inl (conflict ''This message ID was already used with different content.''), w))"
  by (auto simp: submit_def split: prod.splits)

section \<open>Editing a waiting message\<close>

fun action_token :: "message_action \<Rightarrow> string option" where
  "action_token (Act_Edit _ t) = Some t"
| "action_token (Act_Renew t) = Some t"
| "action_token (Act_Save t _ _ _ _) = Some t"
| "action_token (Act_Release t) = Some t"
| "action_token (Act_Delete _) = None"
| "action_token (Act_Send _ _) = None"

lemma action_blocked:
  assumes "find_message mid (fst w) = Some m" and "m_status m = Msg_Queued"
    and "m_editToken m = Some t" and "edit_held now m" and "action_token a \<noteq> Some t"
  shows "\<exists>e. action H now mid a w = (Inl e, w)"
proof (cases "assertWritable H w")
  case None
  have held: "being_edited now m" "\<And>t'. t' \<noteq> t \<Longrightarrow> \<not> holds_edit now t' m"
    using assms(3,4) by (auto simp: being_edited_def holds_edit_def)
  show ?thesis
    using assms held None by (cases a) (auto simp: action_def act_on_entry_def)
qed (simp add: action_def)

lemma save_needs_edit:
  assumes "find_message mid (fst w) = Some m" and "\<not> holds_edit now t m"
  shows "\<exists>e. action H now mid (Act_Save t v txt sk imgs) w = (Inl e, w)"
  using assms by (cases "assertWritable H w") (auto simp: action_def act_on_entry_def)

lemma queue_inv_empty [simp]: "queue_inv empty_message_state"
  by (simp add: queue_inv_def empty_message_state_def)

end
