(* ===== verification/Supervisor.thy ===== *)
theory Supervisor
  imports Prelude
begin

text \<open>
  apps/server/src/modules/agents/adapters/outbound/supervisor.ts: the table of live run
  handles and the counting semaphore that caps how many turns run at once. A pending
  promise of \<open>acquire\<close> is a waiter, represented by the job that awaits it; a waiter
  whose promise was resolved waits in \<open>sup_granted\<close> for its continuation to run. A
  handle is represented by its identity.
\<close>

record 'w supervisor =
  sup_max :: nat
  sup_handles :: "string \<rightharpoonup> nat"
  sup_active :: nat
  sup_waiters :: "'w list"
  sup_granted :: "'w list"

definition new_supervisor :: "nat \<Rightarrow> 'w supervisor" where
  "new_supervisor m = \<lparr>sup_max = m, sup_handles = Map.empty, sup_active = 0, sup_waiters = [], sup_granted = []\<rparr>"

definition tryAcquire :: "'w supervisor \<Rightarrow> bool \<times> 'w supervisor" where
  "tryAcquire s = (if sup_active s < sup_max s then (True, s\<lparr>sup_active := sup_active s + 1\<rparr>) else (False, s))"

definition acquire :: "'w \<Rightarrow> 'w supervisor \<Rightarrow> 'w supervisor" where
  "acquire w s = (if sup_active s < sup_max s
     then s\<lparr>sup_active := sup_active s + 1, sup_granted := sup_granted s @ [w]\<rparr>
     else s\<lparr>sup_waiters := sup_waiters s @ [w]\<rparr>)"

definition register :: "string \<Rightarrow> nat \<Rightarrow> 'w supervisor \<Rightarrow> 'w supervisor" where
  "register i h s = s\<lparr>sup_handles := (sup_handles s)(i \<mapsto> h)\<rparr>"

definition reclaim :: "string \<Rightarrow> nat \<Rightarrow> 'w supervisor \<Rightarrow> 'w supervisor" where
  "reclaim i h s = s\<lparr>sup_active := sup_active s + 1, sup_handles := (sup_handles s)(i \<mapsto> h)\<rparr>"

definition has_handle :: "string \<Rightarrow> 'w supervisor \<Rightarrow> bool" where
  "has_handle i s \<longleftrightarrow> sup_handles s i \<noteq> None"

definition release :: "string \<Rightarrow> 'w supervisor \<Rightarrow> 'w supervisor" where
  "release i s = (let s1 = s\<lparr>sup_handles := (sup_handles s)(i := None)\<rparr> in
     case sup_waiters s1 of
       w # ws \<Rightarrow> s1\<lparr>sup_waiters := ws, sup_granted := sup_granted s1 @ [w]\<rparr>
     | [] \<Rightarrow> if sup_active s1 > 0 then s1\<lparr>sup_active := sup_active s1 - 1\<rparr> else s1)"

text \<open>The continuation of a granted waiter starts to run.\<close>

definition take_granted :: "'w supervisor \<Rightarrow> ('w \<times> 'w supervisor) option" where
  "take_granted s = (case sup_granted s of [] \<Rightarrow> None | w # ws \<Rightarrow> Some (w, s\<lparr>sup_granted := ws\<rparr>))"

section \<open>The semaphore\<close>

text \<open>
  The waiting queue is only used when every slot is taken, and the slots never exceed the
  cap except by the turns that were already running when the server restarted.
\<close>

definition sup_inv :: "nat \<Rightarrow> 'w supervisor \<Rightarrow> bool" where
  "sup_inv reclaimed s \<longleftrightarrow>
     (sup_waiters s \<noteq> [] \<longrightarrow> sup_active s \<ge> sup_max s) \<and> sup_active s \<le> sup_max s + reclaimed"

lemma sup_inv_new [inv_intros]: "sup_inv 0 (new_supervisor m)"
  by (simp add: sup_inv_def new_supervisor_def)

lemma sup_inv_tryAcquire [inv_intros]: "sup_inv k s \<Longrightarrow> sup_inv k (snd (tryAcquire s))"
  by (auto simp: sup_inv_def tryAcquire_def)

lemma sup_inv_acquire [inv_intros]: "sup_inv k s \<Longrightarrow> sup_inv k (acquire w s)"
  by (auto simp: sup_inv_def acquire_def)

lemma sup_inv_register [inv_intros]: "sup_inv k s \<Longrightarrow> sup_inv k (register i h s)"
  by (auto simp: sup_inv_def register_def)

lemma sup_inv_reclaim [inv_intros]: "sup_inv k s \<Longrightarrow> sup_inv (Suc k) (reclaim i h s)"
  by (auto simp: sup_inv_def reclaim_def)

lemma sup_inv_release [inv_intros]: "sup_inv k s \<Longrightarrow> sup_inv k (release i s)"
  by (auto simp: sup_inv_def release_def Let_def split: list.splits)

lemma sup_inv_take_granted [inv_intros]: "sup_inv k s \<Longrightarrow> take_granted s = Some (w, s') \<Longrightarrow> sup_inv k s'"
  by (auto simp: sup_inv_def take_granted_def split: list.splits)

lemma release_handles [simp]: "sup_handles (release i s) = (sup_handles s)(i := None)"
  by (auto simp: release_def Let_def split: list.splits)

lemma release_hands_over:
  "sup_waiters s = w # ws \<Longrightarrow> sup_active (release i s) = sup_active s \<and>
     sup_waiters (release i s) = ws \<and> sup_granted (release i s) = sup_granted s @ [w]"
  by (simp add: release_def)

lemma release_frees:
  "sup_waiters s = [] \<Longrightarrow> sup_active s > 0 \<Longrightarrow> sup_active (release i s) = sup_active s - 1 \<and>
     sup_granted (release i s) = sup_granted s"
  by (simp add: release_def)

lemma sup_max_simps [simp]:
  "sup_max (snd (tryAcquire s)) = sup_max s" "sup_max (acquire w s) = sup_max s"
  "sup_max (register i h s) = sup_max s" "sup_max (reclaim i h s) = sup_max s"
  "sup_max (release i s) = sup_max s"
  by (auto simp: tryAcquire_def acquire_def register_def reclaim_def release_def Let_def split: list.splits)

section \<open>Fair service\<close>

text \<open>
  The jobs served so far, in order, followed by those still waiting: an acquire appends to
  this sequence and a release leaves it as it is, so waiters are served first come, first
  served, and each is granted at most once.
\<close>

definition service_order :: "'w supervisor \<Rightarrow> 'w list" where
  "service_order s = sup_granted s @ sup_waiters s"

lemma service_order_release: "service_order (release i s) = service_order s"
  by (auto simp: service_order_def release_def Let_def split: list.splits)

lemma service_order_acquire: "sup_inv k s \<Longrightarrow> service_order (acquire w s) = service_order s @ [w]"
  by (auto simp: service_order_def acquire_def sup_inv_def)

lemma service_order_take: "take_granted s = Some (w, s') \<Longrightarrow> service_order s = w # service_order s'"
  by (auto simp: service_order_def take_granted_def split: list.splits)

text \<open>Every client of the supervisor sees it through these operations.\<close>

datatype 'w sup_op = Try | Wait 'w | Reg string nat | Recl string nat | Rel string | Run

fun sup_step :: "'w sup_op \<Rightarrow> 'w supervisor \<Rightarrow> 'w supervisor" where
  "sup_step Try s = snd (tryAcquire s)"
| "sup_step (Wait w) s = acquire w s"
| "sup_step (Reg i h) s = register i h s"
| "sup_step (Recl i h) s = reclaim i h s"
| "sup_step (Rel i) s = release i s"
| "sup_step Run s = (case take_granted s of None \<Rightarrow> s | Some (_, s') \<Rightarrow> s')"

fun is_reclaim :: "'w sup_op \<Rightarrow> bool" where
  "is_reclaim (Recl _ _) = True"
| "is_reclaim _ = False"

lemma sup_step_inv: "sup_inv k s \<Longrightarrow> sup_inv (k + (if is_reclaim a then 1 else 0)) (sup_step a s)"
  by (cases a) (auto simp: inv_intros split: option.split intro: sup_inv_take_granted)

lemma sup_steps_inv:
  "sup_inv k s \<Longrightarrow> sup_inv (k + count_if is_reclaim as) (fold sup_step as s)"
proof (induction as arbitrary: k s)
  case Nil
  then show ?case by simp
next
  case (Cons a as)
  then show ?case using Cons.IH[OF sup_step_inv[OF Cons.prems, of a]] by (simp split: if_splits)
qed

fun wait_of :: "'w sup_op \<Rightarrow> 'w list" where
  "wait_of (Wait w) = [w]"
| "wait_of _ = []"

fun ran_of :: "'w sup_op \<Rightarrow> 'w supervisor \<Rightarrow> 'w list" where
  "ran_of Run s = (case take_granted s of None \<Rightarrow> [] | Some (w, _) \<Rightarrow> [w])"
| "ran_of _ s = []"

text \<open>The continuations run by a sequence of operations, in order.\<close>

fun ran :: "'w sup_op list \<Rightarrow> 'w supervisor \<Rightarrow> 'w list" where
  "ran [] s = []"
| "ran (a # as) s = ran_of a s @ ran as (sup_step a s)"

lemma service_order_other [simp]:
  "service_order (snd (tryAcquire s)) = service_order s"
  "service_order (register i h s) = service_order s"
  "service_order (reclaim i h s) = service_order s"
  by (simp_all add: service_order_def tryAcquire_def register_def reclaim_def)

lemma sup_step_order:
  "sup_inv k s \<Longrightarrow> ran_of a s @ service_order (sup_step a s) = service_order s @ wait_of a"
  by (cases a) (auto simp: service_order_release service_order_acquire split: option.split
      dest: service_order_take)

lemma sup_steps_order:
  "sup_inv k s \<Longrightarrow>
   ran as s @ service_order (fold sup_step as s) = service_order s @ concat (map wait_of as)"
proof (induction as arbitrary: k s)
  case Nil
  then show ?case by simp
next
  case (Cons a as)
  have "sup_inv (k + (if is_reclaim a then 1 else 0)) (sup_step a s)"
    by (rule sup_step_inv[OF Cons.prems])
  from Cons.IH[OF this] have "ran (a # as) s @ service_order (fold sup_step (a # as) s) =
      ran_of a s @ service_order (sup_step a s) @ concat (map wait_of as)" by simp
  also have "\<dots> = service_order s @ concat (map wait_of (a # as))"
    using sup_step_order[OF Cons.prems, of a] by (simp add: append_assoc[symmetric] del: append_assoc)
  finally show ?case .
qed

end
