(* ===== verification/Permissions.thy ===== *)
theory Permissions
  imports Prelude
begin

text \<open>
  packages/shared/src/permissions.ts: the permission catalog of each agent, the aliases of
  older rows and the normalization every adapter applies.
\<close>

datatype agent_kind = Claude | Codex

fun PERMISSION_CLI_FLAG :: "agent_kind \<Rightarrow> string" where
  "PERMISSION_CLI_FLAG Claude = ''--permission-mode''"
| "PERMISSION_CLI_FLAG Codex = ''--sandbox''"

text \<open>The values of the catalog and whether the option is marked dangerous.\<close>

fun PERMISSIONS :: "agent_kind \<Rightarrow> (string \<times> bool) list" where
  "PERMISSIONS Claude = [(''plan'', False), (''auto'', False), (''acceptEdits'', False),
     (''manual'', False), (''dontAsk'', False), (''bypassPermissions'', True)]"
| "PERMISSIONS Codex = [(''read-only'', False), (''workspace-write'', False), (''danger-full-access'', True)]"

fun DEFAULT_PERMISSION :: "agent_kind \<Rightarrow> string" where
  "DEFAULT_PERMISSION Claude = ''acceptEdits''"
| "DEFAULT_PERMISSION Codex = ''workspace-write''"

definition defaultPermission :: "agent_kind \<Rightarrow> string" where
  "defaultPermission a = DEFAULT_PERMISSION a"

fun LEGACY_PERMISSION :: "agent_kind \<Rightarrow> string \<Rightarrow> string option" where
  "LEGACY_PERMISSION Claude v = map_of [(''default'', ''auto''), (''readonly'', ''plan''),
     (''auto-edit'', ''acceptEdits''), (''full'', ''bypassPermissions'')] v"
| "LEGACY_PERMISSION Codex v = map_of [(''readonly'', ''read-only''), (''auto-edit'', ''workspace-write''),
     (''full'', ''danger-full-access''), (''workspace-write-net'', ''workspace-write'')] v"

definition permissionAlias :: "agent_kind \<Rightarrow> string \<Rightarrow> string" where
  "permissionAlias a v = (case LEGACY_PERMISSION a v of None \<Rightarrow> v | Some w \<Rightarrow> w)"

definition normalizePermission :: "agent_kind \<Rightarrow> string option \<Rightarrow> string" where
  "normalizePermission a v = (let native = permissionAlias a (case v of None \<Rightarrow> [] | Some s \<Rightarrow> s) in
     if native \<in> fst ` set (PERMISSIONS a) then native else DEFAULT_PERMISSION a)"

text \<open>The sandbox mode, and whether the network stays open.\<close>

definition codexSandbox :: "string option \<Rightarrow> string \<times> bool" where
  "codexSandbox p = (normalizePermission Codex p, p = Some ''workspace-write-net'')"

definition catalog :: "agent_kind \<Rightarrow> string set" where
  "catalog a = fst ` set (PERMISSIONS a)"

definition dangerous :: "agent_kind \<Rightarrow> string \<Rightarrow> bool" where
  "dangerous a v \<longleftrightarrow> (v, True) \<in> set (PERMISSIONS a)"

lemma default_in_catalog: "DEFAULT_PERMISSION a \<in> catalog a"
  by (cases a) (simp_all add: catalog_def)

lemma normalize_in_catalog: "normalizePermission a v \<in> catalog a"
  using default_in_catalog[of a] by (auto simp: normalizePermission_def Let_def catalog_def)

lemma alias_in_catalog: "LEGACY_PERMISSION a v = Some w \<Longrightarrow> w \<in> catalog a"
  by (cases a) (auto simp: catalog_def split: if_splits)

lemma alias_not_native: "v \<in> catalog a \<Longrightarrow> LEGACY_PERMISSION a v = None"
  by (cases a) (auto simp: catalog_def)

lemma normalize_native: "v \<in> catalog a \<Longrightarrow> normalizePermission a (Some v) = v"
  by (simp add: normalizePermission_def permissionAlias_def alias_not_native Let_def)
    (simp add: catalog_def)

lemma normalize_idempotent: "normalizePermission a (Some (normalizePermission a v)) = normalizePermission a v"
  by (rule normalize_native[OF normalize_in_catalog])

lemma normalize_not_dangerous:
  assumes "dangerous a (normalizePermission a v)"
  shows "v = Some (normalizePermission a v) \<or> v = Some ''full''"
proof -
  have "\<not> dangerous a (DEFAULT_PERMISSION a)" by (cases a) (simp_all add: dangerous_def)
  with assms have *: "permissionAlias a (case v of None \<Rightarrow> [] | Some s \<Rightarrow> s) = normalizePermission a v"
    by (auto simp: normalizePermission_def Let_def split: if_splits)
  show ?thesis
    using assms * by (cases a; cases v)
      (auto simp: dangerous_def permissionAlias_def split: option.splits if_splits)
qed

end
