(* ===== verification/Task_Data.thy ===== *)
theory Task_Data
  imports Message_Laws Supervisor Permissions "HOL-Library.AList"
begin

text \<open>
  The data of the task service: the task record and its statuses
  (packages/shared/src/task.ts), normalized agent events (packages/shared/src/events.ts),
  the compaction admission rule (packages/shared/src/compaction.ts), the tasks and events
  tables with the statements that update them
  (apps/server/src/modules/tasks/adapters/outbound/sqlite-tasks.ts), and the state of
  \<open>TaskService\<close>.
\<close>

section \<open>Tasks\<close>

datatype task_status =
  Queued | Running | Awaiting_Approval | Awaiting_Input | Idle | Archived | Failed | Cancelled

fun status_text :: "task_status \<Rightarrow> string" where
  "status_text Queued = ''queued''"
| "status_text Running = ''running''"
| "status_text Awaiting_Approval = ''awaiting_approval''"
| "status_text Awaiting_Input = ''awaiting_input''"
| "status_text Idle = ''idle''"
| "status_text Archived = ''archived''"
| "status_text Failed = ''failed''"
| "status_text Cancelled = ''cancelled''"

definition ACTIVE_TASK_STATUSES :: "task_status list" where
  "ACTIVE_TASK_STATUSES = [Queued, Running, Awaiting_Approval, Awaiting_Input]"

definition isActiveTaskStatus :: "task_status \<Rightarrow> bool" where
  "isActiveTaskStatus st \<longleftrightarrow> st \<in> set ACTIVE_TASK_STATUSES"

definition isClosedTaskStatus :: "task_status \<Rightarrow> bool" where
  "isClosedTaskStatus st \<longleftrightarrow> st = Cancelled \<or> st = Archived"

definition needsTaskAttention :: "task_status \<Rightarrow> bool" where
  "needsTaskAttention st \<longleftrightarrow> st = Awaiting_Input \<or> st = Awaiting_Approval"

datatype session_owner = Owner_Palmagent | Owner_Local | Owner_Returning | Owner_Shared

datatype connection_state = Connected | Reconnecting

record session_control =
  sc_owner :: session_owner
  sc_home :: string
  sc_transcript :: string
  sc_cursor :: nat
  sc_prefixHash :: string
  sc_waitPid :: "nat option"
  sc_waitIdentity :: "string option"
  sc_error :: "string option"
  sc_connection :: "connection_state option"
  sc_sharedHistory :: "string option"
  sc_sharedSocket :: "string option"

record question_request =
  qr_requestId :: string
  qr_questions :: "string list"

record permission_request =
  pq_requestId :: string
  pq_tool :: string

datatype pr_lifecycle = PR_Open | PR_Draft | PR_Merged | PR_Closed
datatype pr_checks = Checks_Passed | Checks_Pending | Checks_Failed | Checks_None | Checks_Unknown

record pr_ref =
  pr_url :: string
  pr_number :: nat
  pr_repo :: string
  pr_title :: "string option"
  pr_status :: pr_lifecycle
  pr_checks :: pr_checks
  pr_branch :: "string option"
  pr_fetchedAt :: "int option"

text \<open>packages/shared/src/context-usage.ts\<close>

record context_usage =
  cu_usedTokens :: int
  cu_windowTokens :: "int option"
  cu_updatedAt :: int
  cu_stale :: bool

record task_state =
  taskId :: string
  pinnedAt :: "int option"
  contextUsage :: "context_usage option"
  repoId :: string
  agent :: agent_kind
  title :: "string option"
  t_skills :: "skill list option"
  prompt :: string
  status :: task_status
  interrupted :: bool
  sessionId :: "string option"
  sessionControl :: "session_control option"
  branch :: "string option"
  worktreePath :: "string option"
  prs :: "pr_ref list option"
  prUrl :: "string option"
  pendingInput :: "question_request option"
  pendingApproval :: "permission_request option"
  permission :: string
  model :: "string option"
  effort :: "string option"
  createdAt :: int
  updatedAt :: int
  lastActivityAt :: int

definition owned_by :: "session_owner \<Rightarrow> task_state \<Rightarrow> bool" where
  "owned_by ow t \<longleftrightarrow> (case sessionControl t of None \<Rightarrow> False | Some c \<Rightarrow> sc_owner c = ow)"

text \<open>\<open>compactUnavailableReason\<close>; the queue it reads is the task's message queue, if it has one.\<close>

definition compactUnavailableReason :: "message_queue option \<Rightarrow> task_state \<Rightarrow> string option" where
  "compactUnavailableReason q t =
     (if agent t \<noteq> Codex then Some ''Context compaction is available only for Codex.''
      else if owned_by Owner_Shared t then Some ''Compact context in the connected Codex client.''
      else if sessionControl t \<noteq> None \<and> \<not> owned_by Owner_Palmagent t
        then Some ''Continue this session in Palmagent first.''
      else if (\<exists>c. Option.bind q q_compaction = Some c \<and> cc_status c = Compaction_Running)
        then Some ''Context compaction is in progress.''
      else if isClosedTaskStatus (status t) then Some ''This task is closed.''
      else if sessionId t = None then Some ''Available after the first response.''
      else if worktreePath t = None then Some ''The session directory is unavailable.''
      else if status t \<notin> {Idle, Failed} \<or> Option.bind q q_runId \<noteq> None
        then Some ''Available after the response finishes.''
      else if (\<exists>m \<in> set (case q of None \<Rightarrow> [] | Some q' \<Rightarrow> q_messages q').
                 p_status m \<notin> {Msg_Delivered, Msg_Cancelled})
        then Some ''Resolve queued messages first.''
      else None)"

section \<open>Events\<close>

text \<open>
  The payload of a status event. The synthetic events of the service and the lifecycle
  events of the runners use some of its fields each.
\<close>

record status_payload =
  st_subtype :: string
  st_text :: "string option"
  st_messageId :: "string option"
  st_requestId :: "string option"
  st_code :: "int option"
  st_note :: "string option"
  st_message :: "string option"
  st_decision :: "string option"
  st_scope :: "string option"
  st_injected :: "bool option"
  st_queued :: "bool option"
  st_restarted :: "bool option"
  st_attachments :: "attachment list option"
  st_images :: "nat option"
  st_skills :: "skill list option"
  st_settings :: "(string option \<times> string option \<times> string) option"

definition status_event :: "string \<Rightarrow> status_payload" where
  "status_event sub = \<lparr>st_subtype = sub, st_text = None, st_messageId = None, st_requestId = None,
     st_code = None, st_note = None, st_message = None, st_decision = None, st_scope = None,
     st_injected = None, st_queued = None, st_restarted = None, st_attachments = None,
     st_images = None, st_skills = None, st_settings = None\<rparr>"

text \<open>An event by its kind; provider payloads that the service only passes on are opaque.\<close>

datatype event_body =
    Ev_Status status_payload
  | Ev_Output_Image string
  | Ev_Text string
  | Ev_Tool_Call string
  | Ev_Tool_Result string
  | Ev_Approval permission_request
  | Ev_Question question_request
  | Ev_Result bool string
  | Ev_Error "string option"

record raw_event =
  re_sessionId :: "string option"
  re_body :: event_body

record agent_event =
  ev_taskId :: string
  ev_agent :: agent_kind
  ev_sessionId :: "string option"
  ev_body :: event_body
  ev_ts :: int

record event_row =
  er_id :: nat
  er_seq :: nat
  er_event :: agent_event

section \<open>The state of the service\<close>

record turn_state =
  failureMessage :: "string option"
  sawResult :: bool
  lastResultError :: bool
  errored :: bool
  abnormalExit :: bool

definition fresh_turn :: turn_state where
  "fresh_turn = \<lparr>failureMessage = None, sawResult = False, lastResultError = False, errored = False, abnormalExit = False\<rparr>"

text \<open>A suspended \<open>runTurn\<close>: its parameters and the run it began.\<close>

record turn_job =
  j_task :: string
  j_prompt :: string
  j_resume :: "string option"
  j_images :: "input_attachment list option"
  j_message :: "string option"
  j_skills :: "skill list option"
  j_run :: "string option"

text \<open>
  The database, every table a list of its rows (the tables tasks, events, approvals and \<open>task_message_state\<close>, and the
  column \<open>last_raw_seq\<close>), the in-memory fields of \<open>TaskService\<close>, and the
  continuations that are still to run: the supervisor's granted waiters, the turns whose
  skills are being resolved and the \<open>done\<close> callbacks of the started processes.
\<close>

record svc =
  db_tasks :: "task_state list"
  db_events :: "event_row list"
  db_approvals :: "(string \<times> string) list"
  db_messages :: "(string \<times> message_state) list"
  db_rawSeq :: "string \<Rightarrow> nat"
  cache :: "task_state list"
  sup :: "turn_job supervisor"
  resolving :: "turn_job list"
  done_callbacks :: "(string \<times> nat) list"
  shuttingDown :: bool
  updating :: bool
  sessionMismatch :: "string set"
  turnState :: "string \<rightharpoonup> turn_state"
  pendingSteer :: "string \<rightharpoonup> (string \<times> input_attachment list) list"
  stopping :: "string set"
  steerRestart :: "string set"
  turnBaseline :: "string \<rightharpoonup> nat"
  sharedConnections :: "string set"
  sharedSending :: "string set"
  sharedTurns :: "string \<rightharpoonup> string"
  sharedTerminal :: "string \<rightharpoonup> bool"
  notified :: "(string \<times> string) list"
  removed_worktrees :: "string list"
  saved_control :: "string \<rightharpoonup> (bool \<times> bool \<times> (string \<times> input_attachment list) list)"

definition initial_svc :: "nat \<Rightarrow> svc" where
  "initial_svc cap = \<lparr>db_tasks = [], db_events = [], db_approvals = [], db_messages = [],
     db_rawSeq = (\<lambda>_. 0), cache = [], sup = new_supervisor cap, resolving = [], done_callbacks = [],
     shuttingDown = False, updating = False, sessionMismatch = {}, turnState = Map.empty,
     pendingSteer = Map.empty, stopping = {}, steerRestart = {}, turnBaseline = Map.empty,
     sharedConnections = {}, sharedSending = {}, sharedTurns = Map.empty, sharedTerminal = Map.empty,
     notified = [], removed_worktrees = [], saved_control = Map.empty\<rparr>"

text \<open>
  What the service is configured with, and the ports whose answers it acts on. A handle is
  known by the number its runner gave it; what an adapter answers is a function of that
  number and the state.
\<close>

record start_request =
  rq_taskId :: string
  rq_messageId :: "string option"
  rq_compact :: bool
  rq_prompt :: string
  rq_resumeId :: "string option"
  rq_permission :: string
  rq_model :: "string option"
  rq_effort :: "string option"
  rq_reattach :: bool
  rq_fromSeq :: nat

record repo =
  rp_id :: string
  rp_path :: string
  rp_git :: bool

record create_request =
  cr_clientRequestId :: "string option"
  cr_repoId :: string
  cr_agent :: agent_kind
  cr_prompt :: string
  cr_title :: "string option"
  cr_isolate :: bool
  cr_images :: "input_attachment list option"
  cr_skills :: "skill list option"
  cr_permission :: "string option"
  cr_model :: "string option"
  cr_effort :: "string option"

record ports =
  independent :: bool
  saves_control :: bool
  default_model :: "agent_kind \<Rightarrow> string option"
  default_effort :: "agent_kind \<Rightarrow> string option"
  runner_start :: "start_request \<Rightarrow> svc \<Rightarrow> string + nat"
  handle_steer :: "nat \<Rightarrow> string \<Rightarrow> svc \<Rightarrow> bool"
  handle_interrupt :: "nat \<Rightarrow> svc \<Rightarrow> bool"
  handle_approve :: "nat \<Rightarrow> string \<Rightarrow> svc \<Rightarrow> bool"
  handle_send :: "nat \<Rightarrow> bool"
  extract_images :: "event_body \<Rightarrow> event_body \<times> string list"
  sanitize :: "input_attachment list option \<Rightarrow> input_attachment list option result"
  store_images :: "string \<Rightarrow> input_attachment list option \<Rightarrow> svc \<Rightarrow> attachment list option result"
  load_images :: "string \<Rightarrow> attachment list option \<Rightarrow> svc \<Rightarrow> input_attachment list option result"
  project_prs :: "agent_event list \<Rightarrow> pr_ref list option \<Rightarrow> pr_ref list option"
  project_usage :: "agent_event list \<Rightarrow> context_usage option \<Rightarrow> context_usage option"
  digest_request :: "submit_message \<Rightarrow> string"
  uuid :: "string \<Rightarrow> nat \<Rightarrow> string"
  findRepo :: "string \<Rightarrow> repo option"
  create_worktree :: "repo \<Rightarrow> string \<Rightarrow> (string \<times> string) result"
  rebase_skills :: "create_request \<Rightarrow> (string \<times> string) option \<Rightarrow> skill list option"
  session_home :: "agent_kind \<Rightarrow> string"
  emptyTranscriptHash :: string
  next_id :: "svc \<Rightarrow> string"
  checkpoint :: "task_state \<Rightarrow> session_control result"
  resumeCommand :: "task_state \<Rightarrow> string"

end
