(* ===== verification/Task_Store.thy ===== *)
theory Task_Store
  imports Task_Data
begin

text \<open>
  The statements of apps/server/src/modules/tasks/adapters/outbound/sqlite-tasks.ts that
  the task service runs, over the tables of \<open>svc\<close>. An UPDATE changes the row of its
  task when there is one. The projections that the append of an event also maintains
  (confirmed pull requests, context usage) are the ports \<open>project_prs\<close> and
  \<open>project_usage\<close>.
\<close>

section \<open>Rows and cached tasks\<close>

definition getRow :: "string \<Rightarrow> svc \<Rightarrow> task_state option" where
  "getRow i sv = find (\<lambda>r. taskId r = i) (db_tasks sv)"

definition upd_row :: "string \<Rightarrow> (task_state \<Rightarrow> task_state) \<Rightarrow> svc \<Rightarrow> svc" where
  "upd_row i f sv = sv\<lparr>db_tasks := upd_first (\<lambda>r. taskId r = i) f (db_tasks sv)\<rparr>"

definition cached :: "string \<Rightarrow> svc \<Rightarrow> task_state option" where
  "cached i sv = find (\<lambda>t. taskId t = i) (cache sv)"

text \<open>\<open>Object.assign(task, ...)\<close> on the task object of the cache.\<close>

definition upd_task :: "string \<Rightarrow> (task_state \<Rightarrow> task_state) \<Rightarrow> svc \<Rightarrow> svc" where
  "upd_task i f sv = sv\<lparr>cache := upd_first (\<lambda>t. taskId t = i) f (cache sv)\<rparr>"

section \<open>Statements\<close>

definition insertTask :: "task_state \<Rightarrow> svc \<Rightarrow> svc" where
  "insertTask t sv = sv\<lparr>db_tasks := db_tasks sv @
     [t\<lparr>t_skills := (if t_skills t = Some [] then None else t_skills t)\<rparr>]\<rparr>"

definition setSessionControl :: "string \<Rightarrow> session_control option \<Rightarrow> svc \<Rightarrow> svc" where
  "setSessionControl i c = upd_row i (\<lambda>r. r\<lparr>sessionControl := c\<rparr>)"

text \<open>
  \<open>COALESCE(pinned_at, MAX(now, COALESCE(MAX(pinned_at) + 1, now)))\<close>: a new pin comes after
  every other, even when the clock went back.
\<close>

definition next_pin :: "int \<Rightarrow> svc \<Rightarrow> int" where
  "next_pin now sv = foldr (\<lambda>r acc. case pinnedAt r of None \<Rightarrow> acc | Some p \<Rightarrow> max (p + 1) acc) (db_tasks sv) now"

definition setTaskPin :: "string \<Rightarrow> bool \<Rightarrow> int \<Rightarrow> svc \<Rightarrow> int option \<times> svc" where
  "setTaskPin i pinned now sv =
     (let p = (\<lambda>r. if pinned then (case pinnedAt r of Some q \<Rightarrow> Some q | None \<Rightarrow> Some (next_pin now sv)) else None)
      in (Option.bind (getRow i sv) p, upd_row i (\<lambda>r. r\<lparr>pinnedAt := p r, updatedAt := now\<rparr>) sv))"

definition setTaskTitle :: "string \<Rightarrow> string \<Rightarrow> int \<Rightarrow> svc \<Rightarrow> svc" where
  "setTaskTitle i ti now = upd_row i (\<lambda>r. r\<lparr>title := Some ti, updatedAt := now\<rparr>)"

definition setTaskStatus :: "string \<Rightarrow> task_status \<Rightarrow> bool \<Rightarrow> int \<Rightarrow> svc \<Rightarrow> svc" where
  "setTaskStatus i st intr now = upd_row i (\<lambda>r. r\<lparr>status := st, interrupted := intr, updatedAt := now,
     pinnedAt := (if st = Archived then None else pinnedAt r)\<rparr>)"

definition setTaskSession :: "string \<Rightarrow> string \<Rightarrow> int \<Rightarrow> svc \<Rightarrow> svc" where
  "setTaskSession i s now = upd_row i (\<lambda>r. r\<lparr>contextUsage := (if sessionId r \<noteq> Some s then None else contextUsage r),
     sessionId := Some s, updatedAt := now\<rparr>)"

definition setTaskSettings :: "string \<Rightarrow> string option \<Rightarrow> string option \<Rightarrow> string \<Rightarrow> int \<Rightarrow> svc \<Rightarrow> svc" where
  "setTaskSettings i m e p now = upd_row i (\<lambda>r. r\<lparr>contextUsage := (if model r \<noteq> m
       then map_option (\<lambda>u. u\<lparr>cu_stale := True\<rparr>) (contextUsage r) else contextUsage r),
     model := m, effort := e, permission := p, updatedAt := now\<rparr>)"

definition touchTask :: "string \<Rightarrow> int \<Rightarrow> svc \<Rightarrow> svc" where
  "touchTask i now = upd_row i (\<lambda>r. r\<lparr>lastActivityAt := now\<rparr>)"

definition setTaskPrs :: "string \<Rightarrow> pr_ref list \<Rightarrow> int \<Rightarrow> svc \<Rightarrow> svc" where
  "setTaskPrs i ps now = upd_row i (\<lambda>r. r\<lparr>prs := (if ps = [] then None else Some ps),
     prUrl := (case ps of [] \<Rightarrow> None | p # _ \<Rightarrow> Some (pr_url p)), updatedAt := now\<rparr>)"

definition setTaskPendingInput :: "string \<Rightarrow> question_request option \<Rightarrow> int \<Rightarrow> svc \<Rightarrow> svc" where
  "setTaskPendingInput i q now = upd_row i (\<lambda>r. r\<lparr>pendingInput := q, updatedAt := now\<rparr>)"

definition setTaskPendingApproval :: "string \<Rightarrow> permission_request option \<Rightarrow> int \<Rightarrow> svc \<Rightarrow> svc" where
  "setTaskPendingApproval i q now = upd_row i (\<lambda>r. r\<lparr>pendingApproval := q, updatedAt := now\<rparr>)"

definition setTaskRawSeq :: "string \<Rightarrow> nat \<Rightarrow> svc \<Rightarrow> svc" where
  "setTaskRawSeq i n sv = (if getRow i sv = None then sv else sv\<lparr>db_rawSeq := (db_rawSeq sv)(i := n)\<rparr>)"

definition getTaskRawSeq :: "string \<Rightarrow> svc \<Rightarrow> nat" where
  "getTaskRawSeq i sv = (if getRow i sv = None then 0 else db_rawSeq sv i)"

definition inFlightTaskIds :: "svc \<Rightarrow> string list" where
  "inFlightTaskIds sv = map taskId (filter (\<lambda>r. status r \<in> {Running, Awaiting_Approval, Awaiting_Input, Queued}) (db_tasks sv))"

definition resetInterruptedTasks :: "string list \<Rightarrow> int \<Rightarrow> svc \<Rightarrow> svc" where
  "resetInterruptedTasks ids now = fold (\<lambda>i. upd_row i (\<lambda>r. r\<lparr>status := Idle, interrupted := True,
     pendingInput := None, pendingApproval := None, updatedAt := now\<rparr>)) ids"

definition insertApproval :: "string \<Rightarrow> string \<Rightarrow> svc \<Rightarrow> svc" where
  "insertApproval i d sv = sv\<lparr>db_approvals := db_approvals sv @ [(i, d)]\<rparr>"

section \<open>The event log\<close>

definition task_events :: "string \<Rightarrow> svc \<Rightarrow> event_row list" where
  "task_events i sv = filter (\<lambda>r. ev_taskId (er_event r) = i) (db_events sv)"

definition eventCursor :: "string \<Rightarrow> svc \<Rightarrow> nat" where
  "eventCursor i sv = foldr (\<lambda>r. max (er_seq r)) (task_events i sv) 0"

definition globalCursor :: "svc \<Rightarrow> nat" where
  "globalCursor sv = foldr (\<lambda>r. max (er_id r)) (db_events sv) 0"

text \<open>The sequence number is one more than the task's last, the row id one more than any.\<close>

definition insertEvent :: "agent_event \<Rightarrow> svc \<Rightarrow> svc" where
  "insertEvent e sv = sv\<lparr>db_events := db_events sv @
     [\<lparr>er_id = globalCursor sv + 1, er_seq = eventCursor (ev_taskId e) sv + 1, er_event = e\<rparr>]\<rparr>"

definition project_events :: "ports \<Rightarrow> string \<Rightarrow> agent_event list \<Rightarrow> int \<Rightarrow> svc \<Rightarrow> svc" where
  "project_events P i evs now = upd_row i (\<lambda>r.
     let ps = project_prs P evs (prs r) in
     r\<lparr>prs := ps, prUrl := (case ps of Some (p # _) \<Rightarrow> Some (pr_url p) | _ \<Rightarrow> prUrl r),
       updatedAt := (if (case ps of None \<Rightarrow> 0 | Some l \<Rightarrow> length l) > (case prs r of None \<Rightarrow> 0 | Some l \<Rightarrow> length l)
                     then now else updatedAt r),
       contextUsage := project_usage P evs (contextUsage r)\<rparr>)"

definition appendAgentEvents :: "ports \<Rightarrow> string \<Rightarrow> agent_event list \<Rightarrow> nat option \<Rightarrow> int \<Rightarrow> svc \<Rightarrow> svc" where
  "appendAgentEvents P i evs rawSeq now sv =
     (let sv1 = project_events P i evs now (fold insertEvent evs sv);
          sv2 = (case rawSeq of None \<Rightarrow> sv1 | Some n \<Rightarrow> setTaskRawSeq i n sv1)
      in touchTask i now sv2)"

section \<open>Message states\<close>

definition mstate :: "string \<Rightarrow> svc \<Rightarrow> message_state" where
  "mstate i sv = (case map_of (db_messages sv) i of Some s \<Rightarrow> s | None \<Rightarrow> empty_message_state)"

text \<open>\<open>writeMessageState\<close>; an operation that saved nothing wrote nothing.\<close>

definition writeMessageState :: "string \<Rightarrow> message_state \<Rightarrow> svc \<Rightarrow> svc" where
  "writeMessageState i s sv = (if s = mstate i sv then sv
     else sv\<lparr>db_messages := AList.update i s (db_messages sv)\<rparr>)"

definition messageTaskIds :: "svc \<Rightarrow> string list" where
  "messageTaskIds sv = map fst (db_messages sv)"

section \<open>Lemmas\<close>

lemma cached_upd_task [simp]:
  "(\<And>t. taskId (f t) = taskId t) \<Longrightarrow>
   cached i (upd_task j f sv) = (if i = j then map_option f (cached i sv) else cached i sv)"
  by (auto simp: cached_def upd_task_def find_upd_first find_upd_first_other)

lemma getRow_upd_row [simp]:
  "(\<And>t. taskId (f t) = taskId t) \<Longrightarrow>
   getRow i (upd_row j f sv) = (if i = j then map_option f (getRow i sv) else getRow i sv)"
  by (auto simp: getRow_def upd_row_def find_upd_first find_upd_first_other)

lemma upd_frames [simp]:
  "cached i (upd_row j f sv) = cached i sv" "getRow i (upd_task j f sv) = getRow i sv"
  "cached i (insertEvent e sv) = cached i sv" "getRow i (insertEvent e sv) = getRow i sv"
  by (simp_all add: cached_def getRow_def upd_row_def upd_task_def insertEvent_def)

lemma mstate_write [simp]: "mstate i (writeMessageState j s sv) = (if i = j then s else mstate i sv)"
  by (auto simp: mstate_def writeMessageState_def update_conv')

lemma write_mstate [simp]: "writeMessageState i (mstate i sv) sv = sv"
  by (simp add: writeMessageState_def)

end
