(* ===== verification/Tasks.thy ===== *)
theory Tasks
  imports Task_Store
begin

text \<open>
  \<open>TaskService\<close> of apps/server/src/modules/tasks/application/use-cases/task-service.ts:
  the lifecycle of tasks and of their turns. Its message controller is the one of
  \<open>Messages\<close>, over the world of one task's message state and the service. An
  \<open>async\<close> method is split where it awaits: the part up to the await, which leaves the
  continuation in the state, and the continuation. A method that throws returns the error
  and the state it left. Broadcasts of the task list are derived from the state and are
  not recorded; push notifications are.
\<close>

section \<open>Helpers\<close>

definition badRequest :: "string \<Rightarrow> app_error" where "badRequest m = App_Error Bad_Request m"
definition notFound :: "string \<Rightarrow> app_error" where "notFound m = App_Error Not_Found m"

definition getTask :: "string \<Rightarrow> svc \<Rightarrow> task_state result" where
  "getTask i sv = (case cached i sv of None \<Rightarrow> Inl (notFound (''no such task: '' @ i)) | Some t \<Rightarrow> Inr t)"

text \<open>The queue snapshot \<open>withMessageQueue\<close> attaches to a task that has one.\<close>

definition messageQueue :: "string \<Rightarrow> svc \<Rightarrow> message_queue option" where
  "messageQueue i sv = (let q = snapshot (mstate i sv) in if q_revision q > 0 then Some q else None)"

definition assertTaskAdmission :: "svc \<Rightarrow> app_error option" where
  "assertTaskAdmission sv = (if updating sv \<or> shuttingDown sv
     then Some (App_Error Update_In_Progress ''Palmagent is updating. Try starting the task again shortly.'') else None)"

definition sharedConnected :: "svc \<Rightarrow> task_state \<Rightarrow> bool" where
  "sharedConnected sv t \<longleftrightarrow> (case sessionControl t of None \<Rightarrow> False
     | Some c \<Rightarrow> sc_owner c = Owner_Shared \<and> sc_connection c = Some Connected) \<and> taskId t \<in> sharedConnections sv"

definition assertSessionOwnership :: "svc \<Rightarrow> task_state \<Rightarrow> app_error option" where
  "assertSessionOwnership sv t =
     (if owned_by Owner_Shared t then
        if sharedConnected sv t then None
        else Some (conflict ''The shared session is reconnecting. Your draft is preserved.'')
      else if sessionControl t \<noteq> None \<and> \<not> owned_by Owner_Palmagent t
        then Some (conflict ''This session is controlled in a local shell. Dispatch it back after closing the local CLI.'')
      else None)"

text \<open>Write-through of an in-memory task and its row: \<open>transition\<close> and \<open>commitTask\<close>.\<close>

definition transition :: "string \<Rightarrow> task_status \<Rightarrow> bool option \<Rightarrow> int \<Rightarrow> svc \<Rightarrow> svc" where
  "transition i st intr now sv = (case cached i sv of None \<Rightarrow> sv | Some t \<Rightarrow>
     let b = (case intr of None \<Rightarrow> interrupted t | Some b \<Rightarrow> b) in
     upd_task i (\<lambda>t. t\<lparr>status := st, interrupted := b, updatedAt := now,
         pinnedAt := (if st = Archived then None else pinnedAt t)\<rparr>)
       (setTaskStatus i st b now sv))"

definition refreshContextUsage :: "string \<Rightarrow> svc \<Rightarrow> svc" where
  "refreshContextUsage i sv = upd_task i (\<lambda>t. t\<lparr>contextUsage := Option.bind (getRow i sv) contextUsage\<rparr>) sv"

definition refreshPrs :: "string \<Rightarrow> svc \<Rightarrow> svc" where
  "refreshPrs i sv = (let saved = getRow i sv; ps = Option.bind saved prs in
     upd_task i (\<lambda>t. if prs t = ps then t else
       t\<lparr>prs := ps, updatedAt := (case saved of None \<Rightarrow> updatedAt t | Some r \<Rightarrow> updatedAt r),
         prUrl := (case ps of Some (p # _) \<Rightarrow> Some (pr_url p) | _ \<Rightarrow> None)\<rparr>) sv)"

definition emitSynthetic :: "ports \<Rightarrow> string \<Rightarrow> status_payload \<Rightarrow> int \<Rightarrow> svc \<Rightarrow> svc" where
  "emitSynthetic P i p now sv = (case cached i sv of None \<Rightarrow> sv | Some t \<Rightarrow>
     refreshContextUsage i (appendAgentEvents P i
       [\<lparr>ev_taskId = i, ev_agent = agent t, ev_sessionId = sessionId t, ev_body = Ev_Status p, ev_ts = now\<rparr>] None now sv))"

definition notifyPush :: "string \<Rightarrow> string \<Rightarrow> svc \<Rightarrow> svc" where
  "notifyPush i what sv = sv\<lparr>notified := notified sv @ [(i, what)]\<rparr>"

text \<open>\<open>undefined\<close> leaves a field, the empty string resets it to the agent's default.\<close>

definition override :: "'a \<Rightarrow> (string \<Rightarrow> 'a) \<Rightarrow> 'a \<Rightarrow> string option \<Rightarrow> 'a" where
  "override current set_to fallback v = (case v of None \<Rightarrow> current
     | Some s \<Rightarrow> if s = [] then fallback else set_to s)"

definition next_settings :: "ports \<Rightarrow> task_state \<Rightarrow> string option \<Rightarrow> string option \<Rightarrow> string option \<Rightarrow>
    string option \<times> string option \<times> string" where
  "next_settings P t m e p =
     (override (model t) Some (default_model P (agent t)) m,
      override (effort t) Some (default_effort P (agent t)) e,
      override (permission t) id (defaultPermission (agent t)) p)"

definition applySettings :: "ports \<Rightarrow> string \<Rightarrow> string option \<Rightarrow> string option \<Rightarrow> string option \<Rightarrow> int \<Rightarrow> svc \<Rightarrow> bool \<times> svc" where
  "applySettings P i m e p now sv = (case cached i sv of None \<Rightarrow> (False, sv) | Some t \<Rightarrow>
     (case next_settings P t m e p of (m', e', p') \<Rightarrow>
       if m' = model t \<and> e' = effort t \<and> p' = permission t then (False, sv)
       else (True, refreshContextUsage i (upd_task i (\<lambda>t. t\<lparr>model := m', effort := e', permission := p', updatedAt := now\<rparr>)
                     (setTaskSettings i m' e' p' now sv)))))"

section \<open>The message controller of a task\<close>

text \<open>Run a controller operation on the message state of a task.\<close>

definition with_messages :: "string \<Rightarrow> (message_state \<times> svc \<Rightarrow> 'a \<times> (message_state \<times> svc)) \<Rightarrow> svc \<Rightarrow> 'a \<times> svc" where
  "with_messages i f sv = (case f (mstate i sv, sv) of (r, (s, h)) \<Rightarrow> (r, writeMessageState i s h))"

definition do_messages :: "string \<Rightarrow> (message_state \<times> svc \<Rightarrow> message_state \<times> svc) \<Rightarrow> svc \<Rightarrow> svc" where
  "do_messages i f sv = (case f (mstate i sv, sv) of (s, h) \<Rightarrow> writeMessageState i s h)"

text \<open>A host callback sees the service with the controller's current state written back.\<close>

definition enter :: "string \<Rightarrow> message_state \<times> svc \<Rightarrow> svc" where
  "enter i w = writeMessageState i (fst w) (snd w)"

definition leave :: "string \<Rightarrow> svc \<Rightarrow> message_state \<times> svc" where
  "leave i sv = (mstate i sv, sv)"

definition host_writable :: "string \<Rightarrow> message_state \<times> svc \<Rightarrow> app_error option" where
  "host_writable i w = (let sv = enter i w in
     case assertTaskAdmission sv of Some e \<Rightarrow> Some e | None \<Rightarrow>
     case getTask i sv of Inl e \<Rightarrow> Some e | Inr t \<Rightarrow>
     case assertSessionOwnership sv t of Some e \<Rightarrow> Some e | None \<Rightarrow>
       if (case compaction (mstate i sv) of None \<Rightarrow> False | Some c \<Rightarrow> cc_status c = Compaction_Running)
       then Some (conflict ''Wait for context compaction to finish.'')
       else if isClosedTaskStatus (status t) then Some (conflict ''This task is closed.'')
       else None)"

definition host_validate :: "string \<Rightarrow> submit_message \<Rightarrow> svc \<Rightarrow> app_error option" where
  "host_validate i req sv = (case getTask i sv of Inl e \<Rightarrow> Some e | Inr t \<Rightarrow>
     if owned_by Owner_Shared t \<and> (case sm_settings req of None \<Rightarrow> False
          | Some s \<Rightarrow> (case set_permission s of Some (Some _) \<Rightarrow> True | _ \<Rightarrow> False))
     then Some (conflict ''Change the shared session permissions in the local CLI.'') else None)"

definition host_canStart :: "string \<Rightarrow> svc \<Rightarrow> bool" where
  "host_canStart i sv \<longleftrightarrow> \<not> shuttingDown sv \<and> \<not> updating sv \<and> (case cached i sv of None \<Rightarrow> False | Some t \<Rightarrow>
     (sessionControl t = None \<or> owned_by Owner_Palmagent t \<or> sharedConnected sv t) \<and>
     status t \<in> {Idle, Failed} \<and> \<not> has_handle i (sup sv))"

definition host_settings :: "string \<Rightarrow> svc \<Rightarrow> message_settings" where
  "host_settings i sv = (case cached i sv of
       None \<Rightarrow> \<lparr>set_model = None, set_effort = None, set_permission = None\<rparr>
     | Some t \<Rightarrow> \<lparr>set_model = Some (Some (case model t of None \<Rightarrow> [] | Some m \<Rightarrow> m)),
                  set_effort = Some (Some (case effort t of None \<Rightarrow> [] | Some e \<Rightarrow> e)),
                  set_permission = Some (Some (permission t))\<rparr>)"

text \<open>
  The host without its \<open>start\<close> and \<open>steer\<close> callbacks, for the operations of the
  controller that call neither.
\<close>

definition quiet_host :: "ports \<Rightarrow> string \<Rightarrow> svc host" where
  "quiet_host P i = \<lparr>assertWritable = host_writable i, validateSubmission = host_validate i,
     canStart = host_canStart i, hostSettings = host_settings i, hostStart = (\<lambda>m w. (None, w)),
     hostSteer = (\<lambda>m w. snd w), hostChanged = (\<lambda>s h. h),
     saveAttachments = store_images P i, loadAttachments = load_images P i,
     digestRequest = digest_request P, freshUuid = (\<lambda>w. uuid P i (revision (fst w)))\<rparr>"

definition do_beginRun :: "ports \<Rightarrow> string \<Rightarrow> string option \<Rightarrow> string option \<Rightarrow> svc \<Rightarrow> string option \<times> svc" where
  "do_beginRun P i initial compact = with_messages i (beginRun (quiet_host P i) initial compact)"

definition do_startingRuntime :: "ports \<Rightarrow> string \<Rightarrow> svc \<Rightarrow> svc" where
  "do_startingRuntime P i = do_messages i (startingRuntime (quiet_host P i))"

definition do_pause :: "ports \<Rightarrow> string \<Rightarrow> svc \<Rightarrow> svc" where
  "do_pause P i = do_messages i (pause (quiet_host P i))"

definition do_stopWaiting :: "ports \<Rightarrow> string \<Rightarrow> svc \<Rightarrow> svc" where
  "do_stopWaiting P i = do_messages i (stopWaiting (quiet_host P i))"

definition do_rejectBeforeStart :: "ports \<Rightarrow> string \<Rightarrow> string \<Rightarrow> svc \<Rightarrow> svc" where
  "do_rejectBeforeStart P i e = do_messages i (rejectBeforeStart (quiet_host P i) e)"

text \<open>\<open>finish(id, failed, false, error)\<close>: the queue is not drained.\<close>

definition do_finish :: "ports \<Rightarrow> string \<Rightarrow> bool \<Rightarrow> string option \<Rightarrow> svc \<Rightarrow> svc" where
  "do_finish P i failed err = do_messages i (\<lambda>w. snd (finish (quiet_host P i) 0 failed False err w))"

definition do_delivered :: "ports \<Rightarrow> string \<Rightarrow> string \<Rightarrow> svc \<Rightarrow> svc" where
  "do_delivered P i mid = do_messages i (delivered (quiet_host P i) mid)"

definition do_deliveryFailed :: "ports \<Rightarrow> string \<Rightarrow> string \<Rightarrow> bool \<Rightarrow> svc \<Rightarrow> svc" where
  "do_deliveryFailed P i mid rejected sv =
     do_messages i (deliveryFailed (quiet_host P i) (shuttingDown sv) mid rejected) sv"

definition compacting :: "string \<Rightarrow> svc \<Rightarrow> bool" where
  "compacting i sv \<longleftrightarrow> (case compaction (mstate i sv) of None \<Rightarrow> False | Some c \<Rightarrow> cc_status c = Compaction_Running)"

section \<open>Turn execution\<close>

definition release_slot :: "string \<Rightarrow> svc \<Rightarrow> svc" where
  "release_slot i sv = sv\<lparr>sup := release i (sup sv)\<rparr>"

text \<open>The fields \<open>startTurnNow\<close> resets for a brand-new turn.\<close>

definition reset_turn :: "string \<Rightarrow> svc \<Rightarrow> svc" where
  "reset_turn i sv = setTaskRawSeq i 0 (sv\<lparr>sessionMismatch := sessionMismatch sv - {i},
     turnState := (turnState sv)(i \<mapsto> fresh_turn), turnBaseline := (turnBaseline sv)(i \<mapsto> 0)\<rparr>)"

definition turn_request :: "turn_job \<Rightarrow> task_state \<Rightarrow> svc \<Rightarrow> start_request" where
  "turn_request j t sv = \<lparr>rq_taskId = j_task j, rq_messageId = j_message j,
     rq_compact = compacting (j_task j) sv, rq_prompt = j_prompt j, rq_resumeId = j_resume j,
     rq_permission = permission t, rq_model = model t, rq_effort = effort t,
     rq_reattach = False, rq_fromSeq = 0\<rparr>"

definition startTurnNow :: "ports \<Rightarrow> turn_job \<Rightarrow> int \<Rightarrow> svc \<Rightarrow> svc" where
  "startTurnNow P j now sv = (let i = j_task j in
     if shuttingDown sv then release_slot i sv
     else (let sv1 = do_startingRuntime P i (transition i Running (Some False) now (reset_turn i sv)) in
       case cached i sv1 of None \<Rightarrow> sv1 | Some t \<Rightarrow>
       (case runner_start P (turn_request j t sv1) sv1 of
          Inr h \<Rightarrow> sv1\<lparr>sup := register i h (sup sv1), done_callbacks := done_callbacks sv1 @ [(i, h)]\<rparr>
        | Inl e \<Rightarrow>
            let sv2 = release_slot i (sv1\<lparr>turnState := (turnState sv1)(i := None)\<rparr>);
                sv3 = emitSynthetic P i ((status_event ''error'')\<lparr>st_message := Some (''failed to start turn: '' @ e)\<rparr>) now sv2
            in do_finish P i True (Some ''Context compaction could not start. Try again.'')
                 (transition i Failed None now sv3))))"

text \<open>The part of \<open>runTurn\<close> after it owns a slot: selected skills are resolved first.\<close>

definition turn_slotted :: "ports \<Rightarrow> turn_job \<Rightarrow> int \<Rightarrow> svc \<Rightarrow> svc" where
  "turn_slotted P j now sv =
     (if (case j_skills j of None \<Rightarrow> False | Some s \<Rightarrow> s \<noteq> [])
      then (let sv1 = transition (j_task j) Queued None now sv in sv1\<lparr>resolving := resolving sv1 @ [j]\<rparr>)
      else startTurnNow P j now sv)"

definition runTurn :: "ports \<Rightarrow> turn_job \<Rightarrow> string option \<Rightarrow> int \<Rightarrow> svc \<Rightarrow> svc" where
  "runTurn P j compact now sv =
     (case do_beginRun P (j_task j) (j_message j) compact sv of (rid, sv1) \<Rightarrow>
      let j' = j\<lparr>j_run := rid\<rparr> in
      if independent P then turn_slotted P j' now sv1
      else (case tryAcquire (sup sv1) of
          (True, sp) \<Rightarrow> turn_slotted P j' now (sv1\<lparr>sup := sp\<rparr>)
        | (False, _) \<Rightarrow>
            let sv2 = transition (j_task j) Queued None now sv1
            in sv2\<lparr>sup := acquire j' (sup sv2)\<rparr>))"

definition run_is :: "turn_job \<Rightarrow> svc \<Rightarrow> bool" where
  "run_is j sv \<longleftrightarrow> runId (mstate (j_task j) sv) = j_run j"

definition status_is :: "string \<Rightarrow> task_status \<Rightarrow> svc \<Rightarrow> bool" where
  "status_is i st sv \<longleftrightarrow> (case cached i sv of None \<Rightarrow> False | Some t \<Rightarrow> status t = st)"

definition closed_task :: "string \<Rightarrow> svc \<Rightarrow> bool" where
  "closed_task i sv \<longleftrightarrow> (case cached i sv of None \<Rightarrow> False | Some t \<Rightarrow> isClosedTaskStatus (status t))"

text \<open>\<open>await this.supervisor.acquire()\<close> returned.\<close>

definition slot_granted :: "ports \<Rightarrow> int \<Rightarrow> svc \<Rightarrow> svc" where
  "slot_granted P now sv = (case take_granted (sup sv) of None \<Rightarrow> sv | Some (j, sp) \<Rightarrow>
     let sv1 = sv\<lparr>sup := sp\<rparr> in
     if shuttingDown sv1 \<or> \<not> status_is (j_task j) Queued sv1 \<or> \<not> run_is j sv1
     then release_slot (j_task j) sv1
     else turn_slotted P j now sv1)"

text \<open>\<open>await this.resolveSkills(...)\<close> returned the skills, or threw with a message.\<close>

definition skills_settled :: "ports \<Rightarrow> turn_job \<Rightarrow> string + skill list option \<Rightarrow> int \<Rightarrow> svc \<Rightarrow> svc" where
  "skills_settled P j r now sv =
     (if j \<notin> set (resolving sv) then sv
      else (let i = j_task j; sv1 = sv\<lparr>resolving := remove1 j (resolving sv)\<rparr> in
        case r of
          Inl msg \<Rightarrow>
            let sv2 = release_slot i sv1 in
            if shuttingDown sv2 \<or> \<not> run_is j sv2 \<or> \<not> status_is i Queued sv2 then sv2
            else do_rejectBeforeStart P i msg (transition i Failed None now
                   (emitSynthetic P i ((status_event ''error'')\<lparr>st_message := Some msg\<rparr>) now sv2))
        | Inr sk \<Rightarrow>
            if shuttingDown sv1 \<or> \<not> run_is j sv1 \<or> closed_task i sv1 then release_slot i sv1
            else startTurnNow P (j\<lparr>j_skills := sk\<rparr>) now sv1))"

definition job :: "string \<Rightarrow> string \<Rightarrow> string option \<Rightarrow> input_attachment list option \<Rightarrow> string option \<Rightarrow> skill list option \<Rightarrow> turn_job" where
  "job i p r imgs m sk = \<lparr>j_task = i, j_prompt = p, j_resume = r, j_images = imgs, j_message = m, j_skills = sk, j_run = None\<rparr>"

text \<open>\<open>reattachTurn\<close>: the turn still runs in the daemon and already holds its slot.\<close>

definition reattachTurn :: "ports \<Rightarrow> string \<Rightarrow> svc \<Rightarrow> bool \<times> svc" where
  "reattachTurn P i sv = (case cached i sv of None \<Rightarrow> (False, sv) | Some t \<Rightarrow>
     let base = getTaskRawSeq i sv;
         sv1 = sv\<lparr>turnState := (turnState sv)(i \<mapsto> fresh_turn), turnBaseline := (turnBaseline sv)(i \<mapsto> base)\<rparr>;
         rq = \<lparr>rq_taskId = i, rq_messageId = initialMessageId (mstate i sv), rq_compact = compacting i sv,
               rq_prompt = [], rq_resumeId = sessionId t, rq_permission = permission t, rq_model = model t,
               rq_effort = effort t, rq_reattach = True, rq_fromSeq = base\<rparr>
     in case runner_start P rq sv1 of
          Inl e \<Rightarrow> (False, sv1)
        | Inr h \<Rightarrow> (True, sv1\<lparr>sup := reclaim i h (sup sv1), done_callbacks := done_callbacks sv1 @ [(i, h)]\<rparr>))"

section \<open>The host callbacks\<close>

definition images_of :: "ports \<Rightarrow> string \<Rightarrow> stored_message \<Rightarrow> svc \<Rightarrow> input_attachment list option result" where
  "images_of P i m sv = bind_result (load_images P i (m_attachments m) sv)
     (\<lambda>imgs. Inr (case imgs of None \<Rightarrow> m_images m | _ \<Rightarrow> imgs))"

definition image_count :: "stored_message \<Rightarrow> nat option" where
  "image_count m = (case m_attachments m of Some a \<Rightarrow> Some (length a) | None \<Rightarrow> map_option length (m_images m))"

definition message_event :: "string \<Rightarrow> stored_message \<Rightarrow> status_payload" where
  "message_event sub m = (status_event sub)\<lparr>st_text := Some (m_text m), st_messageId := Some (m_id m),
     st_images := image_count m, st_attachments := m_attachments m, st_skills := m_skills m\<rparr>"

text \<open>A settings field as the caller of \<open>applySettings\<close> passes it.\<close>

definition setting :: "string option option \<Rightarrow> string option" where
  "setting v = (case v of None \<Rightarrow> None | Some x \<Rightarrow> x)"

text \<open>\<open>sendShared\<close> up to its first await: no connection rejects, otherwise a send is in flight.\<close>

definition sendShared_begin :: "string \<Rightarrow> svc \<Rightarrow> svc" where
  "sendShared_begin i sv = (case cached i sv of None \<Rightarrow> sv | Some t \<Rightarrow>
     if i \<notin> sharedConnections sv \<or> \<not> sharedConnected sv t then sv
     else sv\<lparr>sharedSending := insert i (sharedSending sv)\<rparr>)"

definition start_shared :: "ports \<Rightarrow> string \<Rightarrow> stored_message \<Rightarrow> int \<Rightarrow> svc \<Rightarrow> svc" where
  "start_shared P i m now sv =
     (let sv1 = sv\<lparr>sharedTerminal := (sharedTerminal sv)(i := None), sharedTurns := (sharedTurns sv)(i := None)\<rparr>;
          sv2 = do_startingRuntime P i (snd (do_beginRun P i (Some (m_id m)) None sv1))
      in sendShared_begin i (transition i Running (Some False) now sv2))"

definition start_message :: "ports \<Rightarrow> string \<Rightarrow> int \<Rightarrow> stored_message \<Rightarrow> svc \<Rightarrow> app_error option \<times> svc" where
  "start_message P i now m sv = (case getTask i sv of Inl e \<Rightarrow> (Some e, sv) | Inr t \<Rightarrow>
     (case images_of P i m sv of Inl e \<Rightarrow> (Some e, sv) | Inr imgs \<Rightarrow>
      if owned_by Owner_Shared t then (None, start_shared P i m now sv)
      else (let sv1 = snd (applySettings P i (setting (set_model (m_settings m))) (setting (set_effort (m_settings m)))
                        (setting (set_permission (m_settings m))) now sv);
                sv2 = emitSynthetic P i (message_event ''followup'' m) now sv1
            in (None, runTurn P (job i (m_text m) (sessionId t) imgs (Some (m_id m)) (m_skills m)) None now sv2))))"

text \<open>The \<open>steer\<close> callback up to its first await; its outcome settles later.\<close>

definition steer_message :: "ports \<Rightarrow> string \<Rightarrow> int \<Rightarrow> stored_message \<Rightarrow> svc \<Rightarrow> svc" where
  "steer_message P i now m sv = (case cached i sv of None \<Rightarrow> sv | Some t \<Rightarrow>
     if owned_by Owner_Shared t then sendShared_begin i sv
     else if status t \<noteq> Running \<or> i \<in> stopping sv \<or>
             (case sup_handles (sup sv) i of None \<Rightarrow> True | Some h \<Rightarrow> \<not> handle_send P h) then sv
     else emitSynthetic P i (message_event ''steer'' m) now sv)"

definition task_host :: "ports \<Rightarrow> string \<Rightarrow> int \<Rightarrow> svc host" where
  "task_host P i now = (quiet_host P i)\<lparr>
     hostStart := (\<lambda>m w. case start_message P i now m (enter i w) of (e, sv) \<Rightarrow> (e, leave i sv)),
     hostSteer := (\<lambda>m w. steer_message P i now m (enter i w))\<rparr>"

definition submitMessage :: "ports \<Rightarrow> string \<Rightarrow> int \<Rightarrow> submit_message \<Rightarrow> svc \<Rightarrow> message_queue result \<times> svc" where
  "submitMessage P i now req sv = (case sanitize P (sm_images req) of Inl e \<Rightarrow> (Inl e, sv)
     | Inr imgs \<Rightarrow> with_messages i (submit (task_host P i now) now (req\<lparr>sm_images := imgs\<rparr>)) sv)"

definition messageAction :: "ports \<Rightarrow> string \<Rightarrow> int \<Rightarrow> string \<Rightarrow> message_action \<Rightarrow> svc \<Rightarrow> message_queue result \<times> svc" where
  "messageAction P i now mid a sv =
     (case (case a of Act_Save t v txt sk imgs \<Rightarrow> bind_result (sanitize P imgs) (\<lambda>im. Inr (Act_Save t v txt sk im))
            | _ \<Rightarrow> Inr a) of
        Inl e \<Rightarrow> (Inl e, sv)
      | Inr a' \<Rightarrow> with_messages i (action (task_host P i now) now mid a') sv)"

definition resumeQueue :: "ports \<Rightarrow> string \<Rightarrow> int \<Rightarrow> svc \<Rightarrow> message_queue result \<times> svc" where
  "resumeQueue P i now = with_messages i (resume (task_host P i now) now)"

text \<open>The pump of a task, by the controller's timer or after a turn.\<close>

definition do_pump :: "ports \<Rightarrow> string \<Rightarrow> int \<Rightarrow> svc \<Rightarrow> svc" where
  "do_pump P i now sv = snd (with_messages i (pump (task_host P i now) now) sv)"

text \<open>The promise of a steer settled; the adapter rejected, delivered or lost the message.\<close>

definition steer_done :: "ports \<Rightarrow> string \<Rightarrow> string \<Rightarrow> steer_outcome option \<Rightarrow> svc \<Rightarrow> svc" where
  "steer_done P i mid out sv = do_messages i (case out of
       Some oc \<Rightarrow> steer_settled (quiet_host P i) (shuttingDown sv) mid oc
     | None \<Rightarrow> steer_threw (quiet_host P i) (shuttingDown sv) mid) sv"

text \<open>
  The continuation of \<open>sendShared\<close> in \<open>start\<close>, after the send settled and its
  \<open>finally\<close> block ran.
\<close>

definition shared_sent :: "ports \<Rightarrow> string \<Rightarrow> string \<Rightarrow> steer_outcome \<Rightarrow> int \<Rightarrow> svc \<Rightarrow> svc" where
  "shared_sent P i mid out now sv0 =
     (let sv = sv0\<lparr>sharedSending := sharedSending sv0 - {i}\<rparr> in
      if shuttingDown sv then sv
      else if out = Steer_Delivered \<or>
          (case find_message mid (mstate i sv) of None \<Rightarrow> False | Some m \<Rightarrow> m_status m = Msg_Delivered)
        then do_delivered P i mid sv
      else transition i Idle (Some True) now
             (do_finish P i True None (do_deliveryFailed P i mid (out = Steer_Rejected) sv)))"

section \<open>Requests on a task\<close>

text \<open>Guards that share the \<open>getTask\<close> and ownership checks every request starts with.\<close>

definition owned_task :: "string \<Rightarrow> svc \<Rightarrow> task_state result" where
  "owned_task i sv = bind_result (getTask i sv) (\<lambda>t.
     case assertSessionOwnership sv t of Some e \<Rightarrow> Inl e | None \<Rightarrow> Inr t)"

definition admitted :: "svc \<Rightarrow> 'a result \<Rightarrow> 'a result" where
  "admitted sv r = (case assertTaskAdmission sv of Some e \<Rightarrow> Inl e | None \<Rightarrow> r)"

definition compact_refused :: "string \<Rightarrow> nat \<Rightarrow> svc \<Rightarrow> task_state \<Rightarrow> app_error option" where
  "compact_refused i expected sv t =
     (if revision (mstate i sv) \<noteq> expected
        then Some (conflict ''The session changed. Try context compaction again.'')
      else case compactUnavailableReason (messageQueue i sv) t of
        Some r \<Rightarrow> Some (conflict r)
      | None \<Rightarrow> if has_handle i (sup sv) then Some (conflict ''Available after the response finishes.'') else None)"

definition compact :: "ports \<Rightarrow> string \<Rightarrow> string \<Rightarrow> nat \<Rightarrow> int \<Rightarrow> svc \<Rightarrow> app_error option \<times> svc" where
  "compact P i request expected now sv = (case admitted sv (owned_task i sv) of Inl e \<Rightarrow> (Some e, sv) | Inr t \<Rightarrow>
     if map_option cc_requestId (compaction (mstate i sv)) = Some request then (None, sv)
     else (case compact_refused i expected sv t of Some e \<Rightarrow> (Some e, sv) | None \<Rightarrow>
       (None, runTurn P (job i [] (sessionId t) None None None) (Some request) now
                (emitSynthetic P i (status_event ''compaction_requested'') now sv))))"

definition pin :: "string \<Rightarrow> bool \<Rightarrow> int \<Rightarrow> svc \<Rightarrow> app_error option \<times> svc" where
  "pin i pinned now sv = (case getTask i sv of Inl e \<Rightarrow> (Some e, sv) | Inr t \<Rightarrow>
     if pinned \<and> status t = Archived then (Some (conflict ''Archived tasks cannot be pinned''), sv)
     else if (pinnedAt t \<noteq> None) = pinned then (None, sv)
     else (case setTaskPin i pinned now sv of (p, sv1) \<Rightarrow>
       (None, upd_task i (\<lambda>t. t\<lparr>pinnedAt := p, updatedAt := now\<rparr>) sv1)))"

definition rename :: "string \<Rightarrow> string \<Rightarrow> int \<Rightarrow> svc \<Rightarrow> app_error option \<times> svc" where
  "rename i ti now sv = (case getTask i sv of Inl e \<Rightarrow> (Some e, sv) | Inr t \<Rightarrow>
     if title t = Some ti then (None, sv)
     else (None, upd_task i (\<lambda>t. t\<lparr>title := Some ti, updatedAt := now\<rparr>) (setTaskTitle i ti now sv)))"

definition handoff :: "ports \<Rightarrow> string \<Rightarrow> svc \<Rightarrow> string result \<times> svc" where
  "handoff P i sv = (case getTask i sv of Inl e \<Rightarrow> (Inl e, sv) | Inr t \<Rightarrow>
     if owned_by Owner_Shared t \<or> owned_by Owner_Local t then (Inr (resumeCommand P t), sv)
     else case assertSessionOwnership sv t of Some e \<Rightarrow> (Inl e, sv) | None \<Rightarrow>
     if has_handle i (sup sv) \<or> status t \<notin> {Idle, Failed}
       then (Inl (conflict ''Stop the active turn and wait for it to finish before handing off''), sv)
     else if sessionId t = None then (Inl (conflict ''This task has no native session yet''), sv)
     else case checkpoint P t of
       Inl e \<Rightarrow> (Inl (conflict (error_message e)), sv)
     | Inr c \<Rightarrow> (Inr (resumeCommand P (t\<lparr>sessionControl := Some c\<rparr>)),
         upd_task i (\<lambda>t. t\<lparr>sessionControl := Some c\<rparr>) (setSessionControl i (Some c) (do_pause P i sv))))"

text \<open>The new task of a creation request, and where it runs.\<close>

definition new_task :: "ports \<Rightarrow> create_request \<Rightarrow> repo \<Rightarrow> string \<Rightarrow> (string \<times> string) option \<Rightarrow> int \<Rightarrow> task_state" where
  "new_task P req rp i wt now = \<lparr>taskId = i, pinnedAt = None, contextUsage = None, repoId = rp_id rp,
     agent = cr_agent req, title = cr_title req, t_skills = rebase_skills P req wt, prompt = cr_prompt req,
     status = Queued, interrupted = False, sessionId = None,
     sessionControl = Some \<lparr>sc_owner = Owner_Palmagent, sc_home = session_home P (cr_agent req),
       sc_transcript = [], sc_cursor = 0, sc_prefixHash = emptyTranscriptHash P, sc_waitPid = None,
       sc_waitIdentity = None, sc_error = None, sc_connection = None, sc_sharedHistory = None,
       sc_sharedSocket = None\<rparr>,
     branch = map_option fst wt, worktreePath = Some (case wt of None \<Rightarrow> rp_path rp | Some w \<Rightarrow> snd w),
     prs = None, prUrl = None, pendingInput = None, pendingApproval = None,
     permission = (case cr_permission req of None \<Rightarrow> defaultPermission (cr_agent req) | Some p \<Rightarrow> p),
     model = (case cr_model req of None \<Rightarrow> default_model P (cr_agent req) | m \<Rightarrow> m),
     effort = (case cr_effort req of None \<Rightarrow> default_effort P (cr_agent req) | e \<Rightarrow> e),
     createdAt = now, updatedAt = now, lastActivityAt = now\<rparr>"

definition dispatch_event :: "create_request \<Rightarrow> skill list option \<Rightarrow> attachment list option \<Rightarrow>
    input_attachment list option \<Rightarrow> status_payload" where
  "dispatch_event req sk att imgs = (status_event ''dispatch'')\<lparr>st_text := Some (cr_prompt req), st_skills := sk,
     st_attachments := att, st_images := map_option length imgs, st_messageId := cr_clientRequestId req\<rparr>"

definition requested_id :: "create_request \<Rightarrow> string option" where
  "requested_id req = map_option (\<lambda>c. ''t_'' @ c) (cr_clientRequestId req)"

text \<open>A creation that was accepted before: the request must match, and nothing is started.\<close>

definition recreate :: "create_request \<Rightarrow> task_state \<Rightarrow> svc \<Rightarrow> string result \<times> svc" where
  "recreate req old sv =
     (if repoId old \<noteq> cr_repoId req \<or> agent old \<noteq> cr_agent req \<or> prompt old \<noteq> cr_prompt req
      then (Inl (badRequest ''Creation request ID is already in use.''), sv)
      else (Inr (taskId old),
            if cached (taskId old) sv = None then sv\<lparr>cache := cache sv @ [old]\<rparr> else sv))"

definition createTask :: "ports \<Rightarrow> create_request \<Rightarrow> int \<Rightarrow> svc \<Rightarrow> string result \<times> svc" where
  "createTask P req now sv = (case Option.bind (requested_id req) (\<lambda>i. getRow i sv) of
       Some old \<Rightarrow> recreate req old sv
     | None \<Rightarrow>
      (case assertTaskAdmission sv of Some e \<Rightarrow> (Inl e, sv) | None \<Rightarrow>
       if cr_prompt req = [] then (Inl (badRequest ''prompt is required''), sv)
       else (case sanitize P (cr_images req) of Inl e \<Rightarrow> (Inl e, sv) | Inr imgs \<Rightarrow>
       (case findRepo P (cr_repoId req) of
          None \<Rightarrow> (Inl (badRequest (''no such repo: '' @ cr_repoId req)), sv)
        | Some rp \<Rightarrow>
          let i = (case requested_id req of Some i \<Rightarrow> i | None \<Rightarrow> next_id P sv) in
          (case (if cr_isolate req \<and> rp_git rp then bind_result (create_worktree P rp i) (\<lambda>w. Inr (Some w)) else Inr None) of
             Inl e \<Rightarrow> (Inl e, sv)
           | Inr wt \<Rightarrow>
             let t = new_task P req rp i wt now; sv1 = insertTask t sv in
             (case (if getRow i sv \<noteq> None then Inl (Js_Error ''UNIQUE constraint failed: tasks.id'')
                    else store_images P i imgs sv1) of
                Inl e \<Rightarrow> (Inl e, sv)
              | Inr att \<Rightarrow>
                let sv2 = emitSynthetic P i (dispatch_event req (t_skills t) att imgs) now
                            (sv1\<lparr>cache := cache sv1 @ [t]\<rparr>)
                in (Inr i, runTurn P (job i (cr_prompt req) None imgs None (t_skills t)) None now sv2)))))))"

definition count_images :: "input_attachment list option \<Rightarrow> nat option" where
  "count_images imgs = (case imgs of None \<Rightarrow> None | Some l \<Rightarrow> if l = [] then None else Some (length l))"

text \<open>\<open>model || effort || permission\<close>: a non-empty override.\<close>

definition given :: "string option \<Rightarrow> bool" where
  "given v \<longleftrightarrow> v \<noteq> None \<and> v \<noteq> Some []"

definition followup_event :: "string \<Rightarrow> string \<Rightarrow> attachment list option \<Rightarrow> input_attachment list option \<Rightarrow> status_payload" where
  "followup_event sub txt att imgs = (status_event sub)\<lparr>st_text := Some txt, st_attachments := att,
     st_images := count_images imgs\<rparr>"

definition followup :: "ports \<Rightarrow> string \<Rightarrow> string \<Rightarrow> input_attachment list option \<Rightarrow> string option \<Rightarrow>
    string option \<Rightarrow> string option \<Rightarrow> int \<Rightarrow> svc \<Rightarrow> app_error option \<times> svc" where
  "followup P i txt raw m e p now sv = (case admitted sv (owned_task i sv) of Inl er \<Rightarrow> (Some er, sv) | Inr t \<Rightarrow>
     if owned_by Owner_Shared t then
       (case sanitize P raw of Inl er \<Rightarrow> (Some er, sv) | Inr imgs \<Rightarrow>
        (case submitMessage P i now \<lparr>clientMessageId = uuid P i (revision (mstate i sv)), sm_mode = Mode_Send,
              sm_text = txt, sm_skills = None, sm_images = imgs, expectedRunId = runId (mstate i sv),
              sm_settings = (if given m \<or> given e \<or> given p
                 then Some \<lparr>set_model = Some m, set_effort = Some e, set_permission = Some p\<rparr> else None)\<rparr> sv of
           (Inl er, sv') \<Rightarrow> (Some er, sv') | (Inr _, sv') \<Rightarrow> (None, sv')))
     else if txt = [] then (Some (badRequest ''prompt is required''), sv)
     else (case sanitize P raw of Inl er \<Rightarrow> (Some er, sv) | Inr imgs \<Rightarrow>
       if has_handle i (sup sv) then (Some (conflict ''a turn is already active''), sv)
       else if status t \<noteq> Idle \<and> status t \<noteq> Failed then (Some (conflict (''cannot follow up a '' @ status_text (status t) @ '' task'')), sv)
       else (case store_images P i imgs sv of Inl er \<Rightarrow> (Some er, sv) | Inr att \<Rightarrow>
         let sv1 = snd (applySettings P i m e p now sv);
             sv2 = emitSynthetic P i (followup_event ''followup'' txt att imgs) now sv1
         in (None, runTurn P (job i txt (sessionId t) imgs None None) None now sv2))))"

definition persistControl :: "ports \<Rightarrow> string \<Rightarrow> svc \<Rightarrow> svc" where
  "persistControl P i sv = (if saves_control P then sv\<lparr>saved_control := (saved_control sv)(i \<mapsto>
      (i \<in> stopping sv, i \<in> steerRestart sv, (case pendingSteer sv i of None \<Rightarrow> [] | Some q \<Rightarrow> q)))\<rparr> else sv)"

definition queue_steer :: "ports \<Rightarrow> string \<Rightarrow> string \<Rightarrow> input_attachment list option \<Rightarrow> svc \<Rightarrow> svc" where
  "queue_steer P i txt imgs sv = persistControl P i (sv\<lparr>pendingSteer := (pendingSteer sv)(i \<mapsto>
     (case pendingSteer sv i of None \<Rightarrow> [] | Some q \<Rightarrow> q) @ [(txt, case imgs of None \<Rightarrow> [] | Some l \<Rightarrow> l)])\<rparr>)"

text \<open>The answer of the legacy \<open>steer\<close> route.\<close>

record steer_response =
  injected :: bool
  queued :: bool
  restarted :: "bool option"

definition steer_note :: "bool \<Rightarrow> bool \<Rightarrow> string \<Rightarrow> status_payload" where
  "steer_note into q txt = (status_event ''steer'')\<lparr>st_injected := Some into, st_queued := Some q, st_text := Some txt\<rparr>"

text \<open>\<open>steer\<close> while the handle \<open>h\<close> is live: restart with new settings, inject, or queue.\<close>

definition steer_live :: "ports \<Rightarrow> string \<Rightarrow> nat \<Rightarrow> bool \<Rightarrow> string \<Rightarrow> input_attachment list option \<Rightarrow>
    attachment list option \<Rightarrow> int \<Rightarrow> svc \<Rightarrow> steer_response \<times> svc" where
  "steer_live P i h changed txt imgs att now sv =
     (if changed then
        (let sv1 = queue_steer P i txt imgs sv;
             sv2 = persistControl P i (sv1\<lparr>steerRestart := insert i (steerRestart sv1)\<rparr>);
             r = handle_interrupt P h sv2;
             sv3 = (if r then sv2 else persistControl P i (sv2\<lparr>steerRestart := steerRestart sv2 - {i}\<rparr>))
         in (\<lparr>injected = False, queued = True, restarted = Some r\<rparr>,
             emitSynthetic P i ((steer_note False True txt)\<lparr>st_restarted := Some r, st_attachments := att,
                st_images := count_images imgs\<rparr>) now sv3))
      else if handle_steer P h txt sv
        then (\<lparr>injected = True, queued = False, restarted = None\<rparr>,
              emitSynthetic P i ((steer_note True False txt)\<lparr>st_attachments := att, st_images := count_images imgs\<rparr>) now sv)
      else (\<lparr>injected = False, queued = True, restarted = None\<rparr>,
            emitSynthetic P i ((steer_note False True txt)\<lparr>st_attachments := att, st_images := count_images imgs\<rparr>) now
              (queue_steer P i txt imgs sv)))"

definition steer_refused :: "string \<Rightarrow> string \<Rightarrow> svc \<Rightarrow> task_state result" where
  "steer_refused i txt sv = bind_result
     (if has_handle i (sup sv) then owned_task i sv else admitted sv (owned_task i sv)) (\<lambda>t.
     if owned_by Owner_Shared t then Inl (conflict ''Use the message composer to send input to a shared session.'')
     else if compacting i sv then Inl (conflict ''Wait for context compaction to finish.'')
     else if txt = [] then Inl (badRequest ''text is required'') else Inr t)"

definition steer :: "ports \<Rightarrow> string \<Rightarrow> string \<Rightarrow> input_attachment list option \<Rightarrow> string option \<Rightarrow>
    string option \<Rightarrow> string option \<Rightarrow> int \<Rightarrow> svc \<Rightarrow> steer_response result \<times> svc" where
  "steer P i txt raw m e p now sv = (case steer_refused i txt sv of Inl er \<Rightarrow> (Inl er, sv) | Inr t \<Rightarrow>
     (case sanitize P raw of Inl er \<Rightarrow> (Inl er, sv) | Inr imgs \<Rightarrow>
     (case (if has_handle i (sup sv) \<or> status t \<in> {Idle, Failed} then store_images P i imgs sv else Inr None) of
        Inl er \<Rightarrow> (Inl er, sv)
      | Inr att \<Rightarrow>
        (case applySettings P i m e p now sv of (changed, sv1) \<Rightarrow>
         (case sup_handles (sup sv1) i of
            Some h \<Rightarrow> (case steer_live P i h changed txt imgs att now sv1 of (r, sv2) \<Rightarrow> (Inr r, sv2))
          | None \<Rightarrow> if status t = Idle \<or> status t = Failed
             then (Inr \<lparr>injected = False, queued = False, restarted = None\<rparr>,
                   emitSynthetic P i ((steer_note False False txt)\<lparr>st_attachments := att, st_note := Some ''ran as follow-up'',
                     st_images := count_images imgs\<rparr>) now
                     (runTurn P (job i txt (sessionId t) imgs None None) None now sv1))
             else (Inr \<lparr>injected = False, queued = False, restarted = None\<rparr>,
                   emitSynthetic P i ((steer_note False False txt)\<lparr>st_note := Some (''ignored in '' @ status_text (status t))\<rparr>) now sv1))))))"

section \<open>Approvals and answers\<close>

definition after_approval :: "task_status \<Rightarrow> task_status" where
  "after_approval st = (if st = Awaiting_Approval then Running else st)"

definition after_input :: "task_status \<Rightarrow> task_status" where
  "after_input st = (if st = Awaiting_Input then Running else st)"

definition approval_undelivered :: app_error where
  "approval_undelivered = conflict ''Approval delivery could not be confirmed. The request has been kept; check the conversation before trying again.''"

text \<open>For a shared session the answer is the start of an await; \<open>approveShared_done\<close> continues it.\<close>

definition approve :: "ports \<Rightarrow> string \<Rightarrow> string \<Rightarrow> string option \<Rightarrow> int \<Rightarrow> svc \<Rightarrow> app_error option \<times> svc" where
  "approve P i decision scope now sv = (case owned_task i sv of Inl e \<Rightarrow> (Some e, sv) | Inr t \<Rightarrow>
     if owned_by Owner_Shared t then
       (if pendingApproval t = None \<or> i \<notin> sharedConnections sv
        then (Some (conflict ''Approval delivery could not be confirmed. The request has been kept.''), sv) else (None, sv))
     else if pendingApproval t \<noteq> None \<and>
        \<not> (case sup_handles (sup sv) i of None \<Rightarrow> False | Some h \<Rightarrow> handle_approve P h decision sv)
     then (Some approval_undelivered, sv)
     else (let st = after_approval (status t);
               sv1 = insertApproval i decision sv;
               sv2 = (if pendingApproval t \<noteq> None then setTaskPendingApproval i None now sv1 else sv1);
               sv3 = setTaskStatus i st (interrupted t) now sv2;
               sv4 = upd_task i (\<lambda>t. t\<lparr>pendingApproval := None, status := st, updatedAt := now\<rparr>) sv3
           in (None, emitSynthetic P i ((status_event ''approval'')\<lparr>st_decision := Some decision, st_scope := scope\<rparr>) now sv4)))"

definition approveShared_done :: "string \<Rightarrow> string \<Rightarrow> bool \<Rightarrow> svc \<Rightarrow> app_error option \<times> svc" where
  "approveShared_done i decision ok sv =
     (if \<not> ok then (Some (conflict ''Approval delivery could not be confirmed. The request has been kept.''), sv)
      else (None, insertApproval i decision sv))"

definition resolveInput :: "string \<Rightarrow> string \<Rightarrow> int \<Rightarrow> svc \<Rightarrow> bool \<times> svc" where
  "resolveInput i request now sv = (case cached i sv of None \<Rightarrow> (False, sv) | Some t \<Rightarrow>
     if map_option qr_requestId (pendingInput t) \<noteq> Some request then (False, sv)
     else (let st = after_input (status t) in
       (True, upd_task i (\<lambda>t. t\<lparr>pendingInput := None, status := st, updatedAt := now\<rparr>)
                (setTaskStatus i st (interrupted t) now (setTaskPendingInput i None now sv)))))"

text \<open>The checks of \<open>answer\<close> before the delivery is awaited.\<close>

definition answer_refused :: "string \<Rightarrow> string \<Rightarrow> svc \<Rightarrow> app_error option" where
  "answer_refused i request sv = (case owned_task i sv of Inl e \<Rightarrow> Some e | Inr t \<Rightarrow>
     if status t \<noteq> Awaiting_Input then Some (conflict (''task is not awaiting input ('' @ status_text (status t) @ '')''))
     else if request = [] then Some (badRequest ''requestId is required'')
     else if map_option qr_requestId (pendingInput t) \<noteq> Some request
       then Some (conflict ''no matching pending question to answer'')
     else None)"

definition answer_done :: "ports \<Rightarrow> string \<Rightarrow> string \<Rightarrow> bool \<Rightarrow> int \<Rightarrow> svc \<Rightarrow> app_error option \<times> svc" where
  "answer_done P i request ok now sv = (case cached i sv of None \<Rightarrow> (None, sv) | Some t \<Rightarrow>
     if \<not> ok then (Some (conflict ''Answer delivery could not be confirmed. The question has been kept.''), sv)
     else if owned_by Owner_Shared t \<or> shuttingDown sv then (None, sv)
     else (case resolveInput i request now sv of
         (True, sv1) \<Rightarrow> (None, emitSynthetic P i ((status_event ''answer'')\<lparr>st_requestId := Some request\<rparr>) now sv1)
       | (False, sv1) \<Rightarrow> (None, sv1)))"

section \<open>Stopping and retiring a task\<close>

definition cleanupWorktree :: "ports \<Rightarrow> string \<Rightarrow> svc \<Rightarrow> svc" where
  "cleanupWorktree P i sv = (case cached i sv of None \<Rightarrow> sv | Some t \<Rightarrow>
     (case worktreePath t of None \<Rightarrow> sv | Some p \<Rightarrow>
      if branch t = None \<or> findRepo P (repoId t) = None then sv
      else sv\<lparr>removed_worktrees := removed_worktrees sv @ [p]\<rparr>))"

text \<open>\<open>stopShared\<close> after the interrupt, if one was needed, was confirmed or not.\<close>

definition stopShared_done :: "string \<Rightarrow> bool \<Rightarrow> bool \<Rightarrow> int \<Rightarrow> svc \<Rightarrow> app_error option \<times> svc" where
  "stopShared_done i cancel ok now sv =
     (if \<not> ok then (Some (conflict ''The shared turn could not confirm the interrupt. Its process has been left running.''), sv)
      else if cancel
        then (None, (transition i Cancelled None now sv)\<lparr>sharedConnections := sharedConnections sv - {i}\<rparr>)
      else (None, upd_task i (\<lambda>t. t\<lparr>interrupted := True\<rparr>) sv))"

text \<open>Up to the await of the interrupt; without one the method runs to its end.\<close>

definition stopShared :: "ports \<Rightarrow> string \<Rightarrow> bool \<Rightarrow> task_state \<Rightarrow> int \<Rightarrow> svc \<Rightarrow> app_error option \<times> svc" where
  "stopShared P i cancel t now sv = (let sv1 = do_pause P i sv in
     if \<not> cancel \<and> status t \<in> {Idle, Failed} then (None, sv1)
     else if status t \<notin> {Idle, Failed, Cancelled, Archived} then
       (if i \<notin> sharedConnections sv1 then stopShared_done i cancel False now sv1 else (None, sv1))
     else stopShared_done i cancel True now sv1)"

definition drop_pending_steer :: "ports \<Rightarrow> string \<Rightarrow> svc \<Rightarrow> svc" where
  "drop_pending_steer P i sv = persistControl P i (sv\<lparr>pendingSteer := (pendingSteer sv)(i := None)\<rparr>)"

definition stop :: "ports \<Rightarrow> string \<Rightarrow> int \<Rightarrow> svc \<Rightarrow> app_error option \<times> svc" where
  "stop P i now sv = (case owned_task i sv of Inl e \<Rightarrow> (Some e, sv) | Inr t \<Rightarrow>
     if owned_by Owner_Shared t then stopShared P i False t now sv
     else if isClosedTaskStatus (status t) then (Some (conflict (''cannot stop a '' @ status_text (status t) @ '' task'')), sv)
     else (let sv1 = do_pause P i sv in
       if has_handle i (sup sv1) then
         (let sv2 = drop_pending_steer P i sv1;
              sv3 = persistControl P i (sv2\<lparr>stopping := insert i (stopping sv2)\<rparr>)
          in (None, emitSynthetic P i ((status_event ''stop'')\<lparr>st_note := Some ''turn interrupt requested''\<rparr>) now sv3))
       else if status t = Queued then
         (None, do_stopWaiting P i (emitSynthetic P i ((status_event ''stop'')\<lparr>st_note := Some ''dequeued before start''\<rparr>) now
            (transition i Idle (Some True) now sv1)))
       else (None, sv1)))"

definition cancel :: "ports \<Rightarrow> string \<Rightarrow> int \<Rightarrow> svc \<Rightarrow> app_error option \<times> svc" where
  "cancel P i now sv = (case owned_task i sv of Inl e \<Rightarrow> (Some e, sv) | Inr t \<Rightarrow>
     if owned_by Owner_Shared t then stopShared P i True t now sv
     else if isClosedTaskStatus (status t) then (None, sv)
     else (let sv1 = drop_pending_steer P i (do_pause P i sv);
               sv2 = transition i Cancelled None now sv1
           in if has_handle i (sup sv1) then (None, sv2)
              else (None, cleanupWorktree P i (if compacting i sv2 then do_stopWaiting P i sv2 else sv2))))"

definition archive :: "ports \<Rightarrow> string \<Rightarrow> int \<Rightarrow> svc \<Rightarrow> app_error option \<times> svc" where
  "archive P i now sv = (case owned_task i sv of Inl e \<Rightarrow> (Some e, sv) | Inr t \<Rightarrow>
     if owned_by Owner_Shared t \<and> status t \<notin> {Idle, Failed}
       then (Some (conflict ''Stop the shared turn before archiving.''), sv)
     else (let sv0 = (if owned_by Owner_Shared t then sv\<lparr>sharedConnections := sharedConnections sv - {i}\<rparr> else sv) in
       if status t = Archived then (None, sv0)
       else if compacting i sv0 then (Some (conflict ''Stop context compaction before archiving.''), sv0)
       else if has_handle i (sup sv0) then (Some (conflict ''cancel the active turn before archiving''), sv0)
       else (None, cleanupWorktree P i (transition i Archived None now (do_pause P i sv0)))))"

section \<open>The event stream of a turn\<close>

text \<open>
  A line that names another session than the task's marks the turn as failed and is
  replaced by an error event of the task's own session.
\<close>

definition session_mismatch :: "task_state \<Rightarrow> raw_event \<Rightarrow> bool" where
  "session_mismatch t raw \<longleftrightarrow> given (sessionId t) \<and> given (re_sessionId raw) \<and> sessionId t \<noteq> re_sessionId raw"

definition mismatch_error :: "task_state \<Rightarrow> raw_event" where
  "mismatch_error t = \<lparr>re_sessionId = sessionId t, re_body = Ev_Error (Some
     ''The CLI returned a different session identity. The turn was stopped; the original session is retained.'')\<rparr>"

definition mark_mismatch :: "ports \<Rightarrow> string \<Rightarrow> svc \<Rightarrow> svc" where
  "mark_mismatch P i sv = drop_pending_steer P i (sv\<lparr>sessionMismatch := insert i (sessionMismatch sv),
     turnState := (turnState sv)(i := map_option (\<lambda>ts. ts\<lparr>errored := True, abnormalExit := True\<rparr>) (turnState sv i))\<rparr>)"

text \<open>The in-memory bookkeeping of a turn, done for replayed lines too.\<close>

fun note_event :: "event_body \<Rightarrow> turn_state \<Rightarrow> turn_state" where
  "note_event (Ev_Error m) ts = ts\<lparr>errored := True, failureMessage := (case m of None \<Rightarrow> failureMessage ts | Some _ \<Rightarrow> m)\<rparr>"
| "note_event (Ev_Result e _) ts = ts\<lparr>sawResult := True, lastResultError := e\<rparr>"
| "note_event (Ev_Status p) ts =
     (let ts1 = (if st_subtype p = ''process_exit'' then ts\<lparr>abnormalExit := (st_code p \<noteq> Some 0)\<rparr> else ts)
      in if st_subtype p = ''reattach_failed'' then ts1\<lparr>abnormalExit := True\<rparr> else ts1)"
| "note_event _ ts = ts"

definition note_turn :: "string \<Rightarrow> event_body \<Rightarrow> svc \<Rightarrow> svc" where
  "note_turn i b sv = sv\<lparr>turnState := (turnState sv)(i := map_option (note_event b) (turnState sv i))\<rparr>"

definition capture_session :: "string \<Rightarrow> string option \<Rightarrow> int \<Rightarrow> svc \<Rightarrow> svc" where
  "capture_session i s now sv = (case cached i sv of None \<Rightarrow> sv | Some t \<Rightarrow>
     if \<not> given s \<or> sessionId t = s then sv
     else upd_task i (\<lambda>t. t\<lparr>contextUsage := None, sessionId := s\<rparr>) (setTaskSession i (the s) now sv))"

text \<open>What a line that is not a replay does to its task, by its kind.\<close>

definition status_effects :: "ports \<Rightarrow> string \<Rightarrow> status_payload \<Rightarrow> int \<Rightarrow> svc \<Rightarrow> svc" where
  "status_effects P i p now sv =
     (let sub = st_subtype p;
          sv1 = (if sub = ''message_delivered'' \<and> given (st_messageId p) then do_delivered P i (the (st_messageId p)) sv else sv);
          sv2 = (if (sub = ''answer'' \<or> sub = ''input_resolved'') \<and> given (st_requestId p)
                 then snd (resolveInput i (the (st_requestId p)) now sv1) else sv1)
      in if independent P \<and> \<not> status_is i Cancelled sv2 then
           (if sub = ''execution_queued'' then transition i Queued None now sv2
            else if sub = ''execution_started'' then transition i Running None now sv2 else sv2)
         else sv2)"

fun event_effects :: "ports \<Rightarrow> string \<Rightarrow> event_body \<Rightarrow> int \<Rightarrow> svc \<Rightarrow> svc" where
  "event_effects P i (Ev_Status p) now sv = status_effects P i p now sv"
| "event_effects P i (Ev_Approval q) now sv = (case cached i sv of None \<Rightarrow> sv | Some t \<Rightarrow>
     if status t \<noteq> Running then sv
     else notifyPush i ''needs approval'' (upd_task i (\<lambda>t. t\<lparr>pendingApproval := Some q, status := Awaiting_Approval, updatedAt := now\<rparr>)
            (setTaskStatus i Awaiting_Approval (interrupted t) now (setTaskPendingApproval i (Some q) now sv))))"
| "event_effects P i (Ev_Question q) now sv = (case cached i sv of None \<Rightarrow> sv | Some t \<Rightarrow>
     let st = (if status t = Running then Awaiting_Input else status t);
         sv1 = upd_task i (\<lambda>t. t\<lparr>pendingInput := Some q, status := st, updatedAt := now\<rparr>)
                 (setTaskStatus i st (interrupted t) now (setTaskPendingInput i (Some q) now sv))
     in if status t = Running then notifyPush i ''needs your input'' sv1 else sv1)"
| "event_effects P i _ now sv = sv"

fun is_tool_result :: "event_body \<Rightarrow> bool" where
  "is_tool_result (Ev_Tool_Result _) = True"
| "is_tool_result _ = False"

fun is_status :: "event_body \<Rightarrow> bool" where
  "is_status (Ev_Status _) = True"
| "is_status _ = False"

fun carries_images :: "event_body \<Rightarrow> bool" where
  "carries_images (Ev_Status _) = True"
| "carries_images (Ev_Tool_Call _) = True"
| "carries_images (Ev_Tool_Result _) = True"
| "carries_images _ = False"

definition is_replay :: "string \<Rightarrow> nat option \<Rightarrow> svc \<Rightarrow> bool" where
  "is_replay i rawSeq sv \<longleftrightarrow> (case rawSeq of None \<Rightarrow> False
     | Some n \<Rightarrow> n \<le> (case turnBaseline sv i of None \<Rightarrow> 0 | Some b \<Rightarrow> b))"

text \<open>The events a line commits: itself and one event for each image in it.\<close>

definition line_events :: "string \<Rightarrow> task_state \<Rightarrow> string option \<Rightarrow> event_body \<times> string list \<Rightarrow> int \<Rightarrow> agent_event list" where
  "line_events i t s out now = map (\<lambda>b. \<lparr>ev_taskId = i, ev_agent = agent t, ev_sessionId = s, ev_body = b, ev_ts = now\<rparr>)
     (fst out # map Ev_Output_Image (snd out))"

definition onRaw :: "ports \<Rightarrow> string \<Rightarrow> raw_event \<Rightarrow> nat option \<Rightarrow> int \<Rightarrow> svc \<Rightarrow> svc" where
  "onRaw P i raw0 rawSeq now sv = (case cached i sv of None \<Rightarrow> sv | Some t \<Rightarrow>
     if shuttingDown sv \<or> i \<in> sessionMismatch sv then sv
     else (let bad = session_mismatch t raw0;
               sv1 = (if bad then mark_mismatch P i sv else sv);
               raw = (if bad then mismatch_error t else raw0);
               out = (if carries_images (re_body raw) then extract_images P (re_body raw) else (re_body raw, []));
               sv2 = note_turn i (fst out) (capture_session i (re_sessionId raw) now sv1)
           in if is_replay i rawSeq sv2 then sv2
              else (let sv3 = event_effects P i (fst out) now sv2;
                        sv4 = appendAgentEvents P i (line_events i t (re_sessionId raw) out now) rawSeq now sv3;
                        sv5 = (if is_tool_result (fst out) then refreshPrs i sv4 else sv4);
                        sv6 = (if is_status (fst out) then refreshContextUsage i sv5 else sv5)
                    in upd_task i (\<lambda>t. t\<lparr>lastActivityAt := now\<rparr>) sv6)))"

section \<open>The end of a turn\<close>

text \<open>\<open>failed\<close>: the terminal signal decides, and a compaction needs a result.\<close>

definition turn_failed :: "bool \<Rightarrow> bool \<Rightarrow> turn_state option \<Rightarrow> bool" where
  "turn_failed compact_run restart ts \<longleftrightarrow>
     compact_run \<and> (case ts of None \<Rightarrow> True | Some t \<Rightarrow> \<not> sawResult t) \<or>
     \<not> restart \<and> (case ts of None \<Rightarrow> False
       | Some t \<Rightarrow> abnormalExit t \<or> (if sawResult t then lastResultError t else errored t))"

fun join_lines :: "string list \<Rightarrow> string" where
  "join_lines [] = []"
| "join_lines [x] = x"
| "join_lines (x # y # zs) = x @ CHR 0x0A # join_lines (y # zs)"

text \<open>The bookkeeping at the head of \<open>finishTurn\<close>: the slot and every per-turn field go.\<close>

definition clear_pending :: "string \<Rightarrow> int \<Rightarrow> svc \<Rightarrow> svc" where
  "clear_pending i now sv = (case cached i sv of None \<Rightarrow> sv | Some t \<Rightarrow>
     if pendingInput t = None \<and> pendingApproval t = None then sv
     else upd_task i (\<lambda>t. t\<lparr>pendingInput := None, pendingApproval := None\<rparr>)
            (setTaskPendingApproval i None now (setTaskPendingInput i None now sv)))"

definition end_turn :: "ports \<Rightarrow> string \<Rightarrow> int \<Rightarrow> svc \<Rightarrow> svc" where
  "end_turn P i now sv = persistControl P i ((clear_pending i now (release_slot i sv))
     \<lparr>turnBaseline := (turnBaseline sv)(i := None), turnState := (turnState sv)(i := None),
      stopping := stopping sv - {i}, steerRestart := steerRestart sv - {i}\<rparr>)"

text \<open>A settled turn: its outcome is recorded, queued steers chain, else the queue is pumped.\<close>

definition settle_turn :: "ports \<Rightarrow> string \<Rightarrow> bool \<Rightarrow> string option \<Rightarrow> int \<Rightarrow> svc \<Rightarrow> svc" where
  "settle_turn P i failed msg now sv =
     (let sv1 = transition i (if failed then Failed else Idle) None now sv;
          sv2 = (if compacting i sv \<and> \<not> failed then emitSynthetic P i (status_event ''context_compacted'') now sv1 else sv1);
          sv3 = do_finish P i failed msg sv2;
          pend = (case pendingSteer sv3 i of None \<Rightarrow> [] | Some q \<Rightarrow> q)
      in if \<not> failed \<and> pend \<noteq> [] then
           (let sv4 = drop_pending_steer P i sv3 in
            runTurn P (job i (join_lines (map fst pend)) (Option.bind (cached i sv4) sessionId)
              (Some (concat (map snd pend))) None None) None now sv4)
         else (let sv4 = (if failed then sv3 else do_pump P i now sv3) in
           if runId (mstate i sv4) = None then notifyPush i (if failed then ''failed'' else ''finished'') sv4 else sv4))"

definition finishTurn :: "ports \<Rightarrow> string \<Rightarrow> int \<Rightarrow> svc \<Rightarrow> svc" where
  "finishTurn P i now sv = (if shuttingDown sv then sv else
     let ts = turnState sv i; stopped = i \<in> stopping sv; restart = i \<in> steerRestart sv;
         sv1 = end_turn P i now sv in
     if status_is i Cancelled sv1 then
       cleanupWorktree P i (if compacting i sv1 then do_finish P i True (Some ''Context compaction was cancelled.'') sv1 else sv1)
     else if stopped then
       do_finish P i True (Some ''Context compaction was stopped.'') (transition i Idle (Some True) now sv1)
     else settle_turn P i (turn_failed (compacting i sv1) restart ts) (Option.bind ts failureMessage) now sv1)"

text \<open>The promise \<open>handle.done\<close> of a started process settled.\<close>

definition turn_done :: "ports \<Rightarrow> string \<Rightarrow> nat \<Rightarrow> int \<Rightarrow> svc \<Rightarrow> svc" where
  "turn_done P i h now sv = (if (i, h) \<in> set (done_callbacks sv)
     then finishTurn P i now (sv\<lparr>done_callbacks := remove1 (i, h) (done_callbacks sv)\<rparr>) else sv)"

section \<open>Restart and shutdown\<close>

definition beginShutdown :: "svc \<Rightarrow> svc" where
  "beginShutdown sv = sv\<lparr>shuttingDown := True, sharedConnections := {}\<rparr>"

text \<open>A new process starts with the database and the saved control state, and nothing else.\<close>

definition boot :: "svc \<Rightarrow> svc" where
  "boot sv = (initial_svc (sup_max (sup sv)))\<lparr>db_tasks := db_tasks sv, db_events := db_events sv,
     db_approvals := db_approvals sv, db_messages := db_messages sv, db_rawSeq := db_rawSeq sv,
     saved_control := saved_control sv, notified := notified sv, removed_worktrees := removed_worktrees sv\<rparr>"

text \<open>\<open>init\<close> hydrates the cache and the control fields from the database.\<close>

definition hydrate :: "svc \<Rightarrow> svc" where
  "hydrate sv = (let ids = map taskId (db_tasks sv);
       ctl = (\<lambda>i. saved_control sv i) in
     sv\<lparr>cache := sort_key createdAt (db_tasks sv),
        stopping := {i \<in> set ids. case ctl i of Some (s, _, _) \<Rightarrow> s | None \<Rightarrow> False},
        steerRestart := {i \<in> set ids. case ctl i of Some (_, r, _) \<Rightarrow> r | None \<Rightarrow> False},
        pendingSteer := (\<lambda>i. if i \<in> set ids then (case ctl i of
            Some (_, _, q) \<Rightarrow> if q = [] then None else Some q | None \<Rightarrow> None) else None)\<rparr>)"

definition shared_ids :: "svc \<Rightarrow> string list" where
  "shared_ids sv = map taskId (filter (owned_by Owner_Shared) (cache sv))"

definition mark_reconnecting :: "string \<Rightarrow> svc \<Rightarrow> svc" where
  "mark_reconnecting i sv = (case Option.bind (cached i sv) sessionControl of None \<Rightarrow> sv | Some c \<Rightarrow>
     let c' = c\<lparr>sc_connection := Some Reconnecting\<rparr> in
     setSessionControl i (Some c') (upd_task i (\<lambda>t. t\<lparr>sessionControl := Some c'\<rparr>) sv))"

definition reattachable :: "ports \<Rightarrow> svc \<Rightarrow> string \<Rightarrow> bool" where
  "reattachable P sv i \<longleftrightarrow> (case cached i sv of None \<Rightarrow> False | Some t \<Rightarrow>
     status t \<in> {Running, Awaiting_Approval, Awaiting_Input} \<or> (independent P \<and> status t \<in> {Queued, Cancelled}))"

text \<open>Reattach in order; with an independent backend a failure aborts the start of the server.\<close>

fun reattach_all :: "ports \<Rightarrow> string list \<Rightarrow> svc \<Rightarrow> string list result \<times> svc" where
  "reattach_all P [] sv = (Inr [], sv)"
| "reattach_all P (i # js) sv =
     (if \<not> reattachable P sv i then reattach_all P js sv
      else case reattachTurn P i sv of
        (True, sv1) \<Rightarrow> (case reattach_all P js sv1 of (Inl e, sv2) \<Rightarrow> (Inl e, sv2) | (Inr ks, sv2) \<Rightarrow> (Inr (i # ks), sv2))
      | (False, sv1) \<Rightarrow> if independent P then (Inl (Js_Error ''reattach failed''), sv1) else reattach_all P js sv1)"

text \<open>\<open>recoverTasks\<close> of recover-tasks.ts\<close>

definition recoverTasks :: "int \<Rightarrow> string list \<Rightarrow> svc \<Rightarrow> string list \<times> svc" where
  "recoverTasks now keep sv = (let ids = filter (\<lambda>i. i \<notin> set keep) (inFlightTaskIds sv)
     in (ids, if ids = [] then sv else resetInterruptedTasks ids now sv))"

definition reset_cached :: "string list \<Rightarrow> svc \<Rightarrow> svc" where
  "reset_cached = fold (\<lambda>i. upd_task i (\<lambda>t. t\<lparr>status := Idle, interrupted := True\<rparr>))"

definition do_recover :: "ports \<Rightarrow> bool \<Rightarrow> string \<Rightarrow> svc \<Rightarrow> svc" where
  "do_recover P live i = do_messages i (recover (quiet_host P i) live)"

text \<open>\<open>init\<close> once the live turns are known: reattach them, reset the others, recover the queues.\<close>

definition recoverRuns :: "ports \<Rightarrow> string list \<Rightarrow> string list \<Rightarrow> int \<Rightarrow> svc \<Rightarrow> app_error option \<times> svc" where
  "recoverRuns P live shared now sv2 = (case reattach_all P live sv2 of
       (Inl e, sv3) \<Rightarrow> (Some e, sv3)
     | (Inr reattached, sv3) \<Rightarrow>
         let keep = reattached @ shared in
         (case recoverTasks now keep sv3 of (ids, sv4) \<Rightarrow>
           (None, fold (\<lambda>i. do_recover P (i \<in> set keep) i) (messageTaskIds sv4) (reset_cached ids sv4))))"

text \<open>
  \<open>init\<close>. The answer of \<open>listLive\<close> is an argument, \<open>None\<close> when it threw.
\<close>

definition init :: "ports \<Rightarrow> string list option \<Rightarrow> int \<Rightarrow> svc \<Rightarrow> app_error option \<times> svc" where
  "init P listLive now sv0 =
     (let sv1 = hydrate sv0;
          shared = shared_ids sv1;
          sv2 = fold mark_reconnecting shared sv1;
          inFlight = filter (\<lambda>i. i \<notin> set shared) (inFlightTaskIds sv2);
          asked = (inFlight \<noteq> [] \<or> independent P);
          live = (if \<not> asked then [] else case listLive of None \<Rightarrow> [] | Some l \<Rightarrow>
            filter (\<lambda>i. i \<in> set inFlight \<or> (independent P \<and> status_is i Cancelled sv2)) l)
      in if asked \<and> listLive = None \<and> independent P then (Some (Js_Error ''runner unavailable''), sv2)
         else if independent P \<and> (\<exists>i \<in> set inFlight. i \<notin> set live)
           then (Some (Js_Error ''An in-flight task has no execution identity; refusing automatic recovery''), sv2)
         else recoverRuns P live shared now sv2)"

section \<open>Shared sessions\<close>

text \<open>modules/agents/application/ports/inbound/shared-session.ts\<close>

record shared_snapshot =
  ss_running :: bool
  ss_question :: "question_request option"
  ss_approval :: "permission_request option"
  ss_model :: "string option"
  ss_effort :: "string option"

definition shared_status :: "shared_snapshot \<Rightarrow> task_status" where
  "shared_status ss = (if ss_question ss \<noteq> None then Awaiting_Input
     else if ss_approval ss \<noteq> None then Awaiting_Approval
     else if ss_running ss then Running else Idle)"

text \<open>The transaction that stores a snapshot, and the same fields of the task.\<close>

definition commitSnapshot :: "string \<Rightarrow> shared_snapshot \<Rightarrow> bool \<Rightarrow> int \<Rightarrow> svc \<Rightarrow> svc" where
  "commitSnapshot i ss intr now sv =
     upd_task i (\<lambda>t. t\<lparr>status := shared_status ss, interrupted := intr, updatedAt := now, permission := ''managed'',
         pendingInput := ss_question ss, pendingApproval := ss_approval ss, model := ss_model ss, effort := ss_effort ss\<rparr>)
       (setTaskSettings i (ss_model ss) (ss_effort ss) ''managed'' now
         (setTaskStatus i (shared_status ss) intr now (setTaskPendingApproval i (ss_approval ss) now
           (setTaskPendingInput i (ss_question ss) now sv))))"

text \<open>What a stored snapshot does to the run, the queue and the notifications.\<close>

definition snapshotEffects :: "ports \<Rightarrow> string \<Rightarrow> bool \<Rightarrow> bool option \<Rightarrow> bool \<Rightarrow> bool \<Rightarrow> bool \<Rightarrow> int \<Rightarrow> svc \<Rightarrow> svc" where
  "snapshotEffects P i idle completed wasActive newQuestion newApproval now sv2 =
     (let sv3 = (if \<not> idle \<and> runId (mstate i sv2) = None then snd (do_beginRun P i None None sv2) else sv2);
          sv4 = (if idle \<and> (wasActive \<or> runId (mstate i sv3) \<noteq> None)
                 then do_finish P i (completed \<noteq> Some True) None sv3 else sv3);
          sv5 = (if newQuestion then notifyPush i ''needs your input'' sv4 else sv4);
          sv6 = (if newApproval then notifyPush i ''needs approval'' sv5 else sv5);
          sv7 = (if idle \<and> completed = Some True then do_pump P i now sv6 else sv6);
          sv8 = (if wasActive \<and> idle \<and> completed = Some True \<and> runId (mstate i sv7) = None
                 then notifyPush i ''finished'' sv7 else sv7)
      in if idle then sv8\<lparr>sharedTerminal := (sharedTerminal sv8)(i := None), sharedTurns := (sharedTurns sv8)(i := None)\<rparr>
         else sv8)"

definition applySharedSnapshot :: "ports \<Rightarrow> string \<Rightarrow> shared_snapshot \<Rightarrow> bool option \<Rightarrow> int \<Rightarrow> svc \<Rightarrow> svc" where
  "applySharedSnapshot P i ss completed now sv = (case cached i sv of None \<Rightarrow> sv | Some t \<Rightarrow>
     let idle = \<not> ss_running ss; wasActive = (status t \<notin> {Idle, Failed}) in
     if idle \<and> i \<in> sharedSending sv then sv
     else if idle \<and> wasActive \<and> completed = None then sv
     else snapshotEffects P i idle completed wasActive
       (ss_question ss \<noteq> None \<and> map_option qr_requestId (ss_question ss) \<noteq> map_option qr_requestId (pendingInput t))
       (ss_approval ss \<noteq> None \<and> map_option pq_requestId (ss_approval ss) \<noteq> map_option pq_requestId (pendingApproval t))
       now (commitSnapshot i ss (if ss_running ss \<or> completed = Some True then False
          else completed = Some False \<or> interrupted t) now sv))"

section \<open>Pull requests\<close>

definition tasksWithPrs :: "svc \<Rightarrow> (string \<times> pr_ref list) list" where
  "tasksWithPrs sv = [(taskId t, ps). t \<leftarrow> cache sv, status t \<notin> {Archived, Cancelled},
     ps \<leftarrow> (case prs t of Some (p # q) \<Rightarrow> [p # q] | _ \<Rightarrow> [])]"

text \<open>A patch holds the fields the refresher fetched.\<close>

record pr_patch =
  pp_status :: "pr_lifecycle option"
  pp_checks :: "pr_checks option"
  pp_title :: "string option option"
  pp_branch :: "string option option"
  pp_fetchedAt :: "int option option"

definition patch_pr :: "pr_patch \<Rightarrow> pr_ref \<Rightarrow> pr_ref" where
  "patch_pr pp r = r\<lparr>pr_status := case_option (pr_status r) id (pp_status pp),
     pr_checks := case_option (pr_checks r) id (pp_checks pp), pr_title := case_option (pr_title r) id (pp_title pp),
     pr_branch := case_option (pr_branch r) id (pp_branch pp), pr_fetchedAt := case_option (pr_fetchedAt r) id (pp_fetchedAt pp)\<rparr>"

definition pr_changed :: "pr_ref \<Rightarrow> pr_ref \<Rightarrow> bool" where
  "pr_changed r r' \<longleftrightarrow> pr_status r' \<noteq> pr_status r \<or> pr_checks r' \<noteq> pr_checks r \<or> pr_title r' \<noteq> pr_title r \<or> pr_branch r' \<noteq> pr_branch r"

definition applyPrStatuses :: "string \<Rightarrow> (string \<rightharpoonup> pr_patch) \<Rightarrow> int \<Rightarrow> svc \<Rightarrow> svc" where
  "applyPrStatuses i patches now sv = (case Option.bind (cached i sv) prs of None \<Rightarrow> sv | Some ps \<Rightarrow>
     let ps' = map (\<lambda>r. case patches (pr_url r) of None \<Rightarrow> r | Some pp \<Rightarrow> patch_pr pp r) ps in
     if \<not> (\<exists>(r, r') \<in> set (zip ps ps'). pr_changed r r') then sv
     else upd_task i (\<lambda>t. t\<lparr>prs := Some ps', prUrl := (case ps' of [] \<Rightarrow> None | p # _ \<Rightarrow> Some (pr_url p)), updatedAt := now\<rparr>)
            (setTaskPrs i ps' now sv))"

definition listTasks :: "svc \<Rightarrow> task_status option \<Rightarrow> task_state list" where
  "listTasks sv st = (let all = sort_key createdAt (cache sv) in
     case st of None \<Rightarrow> all | Some s \<Rightarrow> filter (\<lambda>t. status t = s) all)"

end
