(* ===== verification/Task_Laws.thy ===== *)
theory Task_Laws
  imports Tasks
begin

text \<open>
  What every operation of the task service keeps. The live task records mirror their rows
  (\<open>mirrored\<close>), the message queues keep their contract, and the turns in progress own
  their slots. The locale \<open>service_invariant\<close> is the interface between such an
  invariant and the operations: an invariant that survives the primitive updates survives
  every step of the service, restarts included.
\<close>

section \<open>The live mirror of the tasks table\<close>

text \<open>
  The fields a task record and its row share. The interruption flag of a shared session is
  only written at its next snapshot, and a pending request may be dropped from the row
  before it is dropped from memory, never the other way round.
\<close>

definition mirrors :: "task_state \<Rightarrow> task_state \<Rightarrow> bool" where
  "mirrors t r \<longleftrightarrow> taskId r = taskId t \<and> status r = status t \<and> sessionId r = sessionId t \<and>
     sessionControl r = sessionControl t \<and> title r = title t \<and> pinnedAt r = pinnedAt t \<and>
     permission r = permission t \<and> model r = model t \<and> effort r = effort t \<and>
     agent r = agent t \<and> prompt r = prompt t \<and> repoId r = repoId t \<and> branch r = branch t \<and>
     worktreePath r = worktreePath t \<and> createdAt r = createdAt t \<and>
     (status t = Archived \<longrightarrow> pinnedAt t = None) \<and>
     (interrupted r = interrupted t \<or> owned_by Owner_Shared t) \<and>
     (pendingInput r = None \<or> pendingInput r = pendingInput t) \<and>
     (pendingApproval r = None \<or> pendingApproval r = pendingApproval t)"

definition mirrored :: "svc \<Rightarrow> bool" where
  "mirrored sv \<longleftrightarrow> distinct (map taskId (db_tasks sv)) \<and> distinct (map taskId (cache sv)) \<and>
     taskId ` set (db_tasks sv) = taskId ` set (cache sv) \<and>
     (\<forall>i t. cached i sv = Some t \<longrightarrow> (\<exists>r. getRow i sv = Some r \<and> mirrors t r))"

definition core_same :: "svc \<Rightarrow> svc \<Rightarrow> bool" where
  "core_same sv sv' \<longleftrightarrow> (\<forall>i. mstate i sv' = mstate i sv) \<and> sup sv' = sup sv \<and>
     resolving sv' = resolving sv \<and> done_callbacks sv' = done_callbacks sv"

text \<open>The fields of a row that no operation changes.\<close>

definition ident :: "task_state \<Rightarrow> string \<times> string \<times> agent_kind \<times> string" where
  "ident r = (taskId r, repoId r, agent r, prompt r)"

text \<open>
  An update of task records that leaves queues and turns alone, and the identity of every
  row, and keeps the mirror.
\<close>

definition coherent :: "svc \<Rightarrow> svc \<Rightarrow> bool" where
  "coherent sv sv' \<longleftrightarrow> core_same sv sv' \<and> map ident (db_tasks sv') = map ident (db_tasks sv) \<and>
     (mirrored sv \<longrightarrow> mirrored sv')"

lemma ident_taskIds: "map ident xs = map ident ys \<Longrightarrow> map taskId xs = map taskId ys"
  using map_map[of fst ident] by (metis (no_types, lifting) comp_apply fst_conv ident_def map_eq_conv)

lemma core_same_refl [simp]: "core_same sv sv"
  by (simp add: core_same_def)

lemma coherent_refl [simp]: "coherent sv sv"
  by (simp add: coherent_def)

lemma coherent_trans [trans]: "coherent a b \<Longrightarrow> coherent b c \<Longrightarrow> coherent a c"
  by (auto simp: coherent_def core_same_def mstate_def)

lemma coherent_cases: "coherent a b \<Longrightarrow> (coherent a b \<Longrightarrow> coherent b c) \<Longrightarrow> coherent a c"
  by (blast intro: coherent_trans)

lemma find_same_ids:
  assumes "map f xs = map f ys"
  shows "find (\<lambda>x. f x = i) xs = None \<longleftrightarrow> find (\<lambda>x. f x = i) ys = None"
proof -
  have "f ` set xs = f ` set ys" using assms by (metis set_map)
  moreover have "find (\<lambda>x. f x = i) zs = None \<longleftrightarrow> i \<notin> f ` set zs" for zs
    by (auto simp: find_None)
  ultimately show ?thesis by simp
qed

lemma coherentI:
  assumes core: "core_same sv sv'"
    and idents: "map ident (db_tasks sv') = map ident (db_tasks sv)"
    and live: "map taskId (cache sv') = map taskId (cache sv)"
    and keep: "\<And>j t r t'. cached j sv = Some t \<Longrightarrow> getRow j sv = Some r \<Longrightarrow> mirrors t r \<Longrightarrow>
      cached j sv' = Some t' \<Longrightarrow> \<exists>r'. getRow j sv' = Some r' \<and> mirrors t' r'"
  shows "coherent sv sv'"
proof -
  note rows = ident_taskIds[OF idents]
  have "\<exists>r. getRow j sv' = Some r \<and> mirrors t' r" if m: "mirrored sv" and t': "cached j sv' = Some t'" for j t'
  proof -
    obtain t where t: "cached j sv = Some t"
      using find_same_ids[OF live, of j] t' by (auto simp: cached_def)
    with m obtain r where "getRow j sv = Some r" "mirrors t r" unfolding mirrored_def by blast
    with t t' show ?thesis by (blast intro: keep)
  qed
  moreover have "taskId ` set (db_tasks sv') = taskId ` set (db_tasks sv)"
    and "taskId ` set (cache sv') = taskId ` set (cache sv)"
    using rows live by (metis set_map)+
  ultimately show ?thesis using core idents rows live by (simp add: coherent_def mirrored_def)
qed

lemma ident_simps [simp]:
  "ident (r\<lparr>status := a\<rparr>) = ident r" "ident (r\<lparr>interrupted := b\<rparr>) = ident r"
  "ident (r\<lparr>updatedAt := c\<rparr>) = ident r" "ident (r\<lparr>pinnedAt := d\<rparr>) = ident r"
  "ident (r\<lparr>contextUsage := e\<rparr>) = ident r" "ident (r\<lparr>sessionId := f\<rparr>) = ident r"
  "ident (r\<lparr>model := f\<rparr>) = ident r" "ident (r\<lparr>effort := f\<rparr>) = ident r"
  "ident (r\<lparr>permission := g\<rparr>) = ident r" "ident (r\<lparr>lastActivityAt := c\<rparr>) = ident r"
  "ident (r\<lparr>prs := h\<rparr>) = ident r" "ident (r\<lparr>prUrl := f\<rparr>) = ident r"
  "ident (r\<lparr>pendingInput := j\<rparr>) = ident r" "ident (r\<lparr>pendingApproval := k\<rparr>) = ident r"
  "ident (r\<lparr>title := f\<rparr>) = ident r" "ident (r\<lparr>sessionControl := l\<rparr>) = ident r"
  by (simp_all add: ident_def)

lemma ids_upd [simp]:
  "(\<And>t. ident (f t) = ident t) \<Longrightarrow> map ident (db_tasks (upd_row i f sv)) = map ident (db_tasks sv)"
  "(\<And>t. taskId (f t) = taskId t) \<Longrightarrow> map taskId (cache (upd_task i f sv)) = map taskId (cache sv)"
  "map taskId (cache (upd_row i f sv)) = map taskId (cache sv)"
  "map ident (db_tasks (upd_task i f sv)) = map ident (db_tasks sv)"
  by (simp_all add: upd_row_def upd_task_def map_upd_first)

lemma core_upd [simp]:
  "core_same sv (upd_row i f sv') = core_same sv sv'"
  "core_same sv (upd_task i f sv') = core_same sv sv'"
  "core_same sv (insertEvent e sv') = core_same sv sv'"
  "core_same sv (setTaskRawSeq i n sv') = core_same sv sv'"
  by (auto simp: core_same_def mstate_def upd_row_def upd_task_def insertEvent_def setTaskRawSeq_def)

text \<open>Updates outside the task tables and the core.\<close>

lemma coherent_frame:
  assumes "db_tasks sv' = db_tasks sv" and "cache sv' = cache sv" and "core_same sv sv'"
  shows "coherent sv sv'"
  using assms by (auto simp: coherent_def mirrored_def cached_def getRow_def)

text \<open>A write to a task record and its row together, and to either alone.\<close>

lemma coherent_write:
  assumes "\<And>t. taskId (f t) = taskId t" and g: "\<And>r. ident (g r) = ident r"
    and "\<And>t r. cached i sv = Some t \<Longrightarrow> getRow i sv = Some r \<Longrightarrow> mirrors t r \<Longrightarrow> mirrors (f t) (g r)"
  shows "coherent sv (upd_task i f (upd_row i g sv))"
proof -
  have "\<And>r. taskId (g r) = taskId r" using g by (simp add: ident_def)
  then show ?thesis by (intro coherentI) (use assms in \<open>auto split: if_splits\<close>)
qed

lemma coherent_row:
  assumes g: "\<And>r. ident (g r) = ident r"
    and "\<And>t r. cached i sv = Some t \<Longrightarrow> getRow i sv = Some r \<Longrightarrow> mirrors t r \<Longrightarrow> mirrors t (g r)"
  shows "coherent sv (upd_row i g sv)"
proof -
  have "\<And>r. taskId (g r) = taskId r" using g by (simp add: ident_def)
  then show ?thesis by (intro coherentI) (use assms in \<open>auto split: if_splits\<close>)
qed

lemma coherent_task:
  assumes "\<And>t. taskId (f t) = taskId t"
    and "\<And>t r. cached i sv = Some t \<Longrightarrow> getRow i sv = Some r \<Longrightarrow> mirrors t r \<Longrightarrow> mirrors (f t) r"
  shows "coherent sv (upd_task i f sv)"
  by (rule coherentI) (use assms in \<open>auto split: if_splits\<close>)

lemma upd_row_row [simp]:
  "(\<And>t. taskId (g t) = taskId t) \<Longrightarrow> upd_row i f (upd_row i g sv) = upd_row i (\<lambda>r. f (g r)) sv"
proof -
  assume "\<And>t. taskId (g t) = taskId t"
  then have "upd_first (\<lambda>r. taskId r = i) f (upd_first (\<lambda>r. taskId r = i) g xs) =
      upd_first (\<lambda>r. taskId r = i) (\<lambda>r. f (g r)) xs" for xs
    by (induction xs) auto
  then show ?thesis by (simp add: upd_row_def)
qed

section \<open>Each update is coherent\<close>

named_theorems coherent_intros "updates that keep the mirror"

lemmas mirrors_simps = mirrors_def owned_by_def

lemma coherent_transition [coherent_intros]: "coherent sv (transition i st b now sv)"
  by (auto simp: transition_def setTaskStatus_def Let_def mirrors_simps split: option.split intro!: coherent_write)

lemma coherent_usage [coherent_intros]: "coherent sv (refreshContextUsage i sv)"
  by (auto simp: refreshContextUsage_def mirrors_simps intro!: coherent_task)

lemma coherent_prs [coherent_intros]: "coherent sv (refreshPrs i sv)"
  by (auto simp: refreshPrs_def mirrors_simps Let_def intro!: coherent_task)

lemma coherent_insertEvents: "coherent sv (fold insertEvent es sv)"
proof (induction es arbitrary: sv)
  case (Cons e es)
  have "coherent sv (insertEvent e sv)"
    by (rule coherent_frame) (simp_all add: insertEvent_def core_same_def mstate_def)
  then show ?case using Cons[of "insertEvent e sv"] by (auto intro: coherent_trans)
qed simp

lemma coherent_rawSeq [coherent_intros]: "coherent sv (setTaskRawSeq i n sv)"
  by (rule coherent_frame) (simp_all add: setTaskRawSeq_def core_same_def mstate_def)

lemma coherent_project [coherent_intros]: "coherent sv (project_events P i es now sv)"
  by (auto simp: project_events_def mirrors_simps Let_def intro!: coherent_row)

lemma coherent_touch [coherent_intros]: "coherent sv (touchTask i now sv)"
  by (auto simp: touchTask_def mirrors_simps intro!: coherent_row)

lemmas coherent_thens = coherent_transition[THEN [2] coherent_trans] coherent_usage[THEN [2] coherent_trans]
  coherent_prs[THEN [2] coherent_trans] coherent_insertEvents[THEN [2] coherent_trans]
  coherent_rawSeq[THEN [2] coherent_trans] coherent_project[THEN [2] coherent_trans]
  coherent_touch[THEN [2] coherent_trans]

lemma coherent_append [coherent_intros]: "coherent sv (appendAgentEvents P i es n now sv)"
  unfolding appendAgentEvents_def Let_def
  by (cases n) (simp_all, (intro coherent_thens coherent_refl)+)

lemma coherent_emit [coherent_intros]: "coherent sv (emitSynthetic P i p now sv)"
  by (auto simp: emitSynthetic_def split: option.split intro: coherent_thens coherent_append)

lemma coherent_notify [coherent_intros]: "coherent sv (notifyPush i s sv)"
  by (rule coherent_frame) (simp_all add: notifyPush_def core_same_def mstate_def)

lemma coherent_control [coherent_intros]: "coherent sv (persistControl P i sv)"
  by (rule coherent_frame) (simp_all add: persistControl_def core_same_def mstate_def)

lemma coherent_settings [coherent_intros]: "coherent sv (snd (applySettings P i m e p now sv))"
proof -
  have "coherent sv (upd_task i (\<lambda>t. t\<lparr>model := m', effort := e', permission := p', updatedAt := now\<rparr>)
     (setTaskSettings i m' e' p' now sv))" for m' e' p'
    by (auto simp: setTaskSettings_def mirrors_simps intro!: coherent_write)
  then show ?thesis
    by (auto simp: applySettings_def split: option.split prod.split intro: coherent_thens)
qed

lemma coherent_reset [coherent_intros]: "coherent sv (reset_turn i sv)"
  unfolding reset_turn_def
  by (rule coherent_trans[OF coherent_frame coherent_rawSeq]) (simp_all add: core_same_def mstate_def)

lemmas coherent_thens2 = coherent_append[THEN [2] coherent_trans] coherent_emit[THEN [2] coherent_trans]
  coherent_notify[THEN [2] coherent_trans] coherent_control[THEN [2] coherent_trans]
  coherent_settings[THEN [2] coherent_trans] coherent_reset[THEN [2] coherent_trans] coherent_thens

text \<open>Frames: fields outside the task tables and the core change.\<close>

lemma coherent_frames [coherent_intros]:
  "coherent sv (sv\<lparr>sharedTerminal := a\<rparr>)" "coherent sv (sv\<lparr>sharedTurns := b\<rparr>)"
  "coherent sv (sv\<lparr>sharedSending := c\<rparr>)" "coherent sv (sv\<lparr>sharedConnections := c\<rparr>)"
  "coherent sv (sv\<lparr>pendingSteer := d\<rparr>)" "coherent sv (sv\<lparr>stopping := c\<rparr>)"
  "coherent sv (sv\<lparr>steerRestart := c\<rparr>)" "coherent sv (sv\<lparr>turnState := e\<rparr>)"
  "coherent sv (sv\<lparr>turnBaseline := f\<rparr>)" "coherent sv (sv\<lparr>shuttingDown := g\<rparr>)"
  "coherent sv (sv\<lparr>updating := g\<rparr>)" "coherent sv (sv\<lparr>sessionMismatch := c\<rparr>)"
  "coherent sv (sv\<lparr>removed_worktrees := h\<rparr>)"
  by (rule coherent_frame; simp add: core_same_def mstate_def)+

lemma coherent_frame_thens:
  "coherent s0 sv \<Longrightarrow> coherent s0 (sv\<lparr>sharedTerminal := a\<rparr>)" "coherent s0 sv \<Longrightarrow> coherent s0 (sv\<lparr>sharedTurns := b\<rparr>)"
  "coherent s0 sv \<Longrightarrow> coherent s0 (sv\<lparr>sharedSending := c\<rparr>)" "coherent s0 sv \<Longrightarrow> coherent s0 (sv\<lparr>sharedConnections := c\<rparr>)"
  "coherent s0 sv \<Longrightarrow> coherent s0 (sv\<lparr>pendingSteer := d\<rparr>)" "coherent s0 sv \<Longrightarrow> coherent s0 (sv\<lparr>stopping := c\<rparr>)"
  "coherent s0 sv \<Longrightarrow> coherent s0 (sv\<lparr>steerRestart := c\<rparr>)" "coherent s0 sv \<Longrightarrow> coherent s0 (sv\<lparr>turnState := e\<rparr>)"
  "coherent s0 sv \<Longrightarrow> coherent s0 (sv\<lparr>turnBaseline := f\<rparr>)" "coherent s0 sv \<Longrightarrow> coherent s0 (sv\<lparr>shuttingDown := g\<rparr>)"
  "coherent s0 sv \<Longrightarrow> coherent s0 (sv\<lparr>updating := g\<rparr>)" "coherent s0 sv \<Longrightarrow> coherent s0 (sv\<lparr>sessionMismatch := c\<rparr>)"
  "coherent s0 sv \<Longrightarrow> coherent s0 (sv\<lparr>removed_worktrees := h\<rparr>)"
  by (blast intro: coherent_trans coherent_frames)+

lemma coherent_sendShared [coherent_intros]: "coherent sv (sendShared_begin i sv)"
  by (auto simp: sendShared_begin_def split: option.split intro: coherent_frames)

lemma coherent_queue_steer [coherent_intros]: "coherent sv (queue_steer P i txt imgs sv)"
  unfolding queue_steer_def by (intro coherent_thens2 coherent_frame_thens coherent_refl)

lemma coherent_drop_steer [coherent_intros]: "coherent sv (drop_pending_steer P i sv)"
  unfolding drop_pending_steer_def by (intro coherent_thens2 coherent_frame_thens coherent_refl)

lemma coherent_cleanup [coherent_intros]: "coherent sv (cleanupWorktree P i sv)"
  by (auto simp: cleanupWorktree_def split: option.split intro: coherent_frames)

lemma coherent_pin [coherent_intros]: "coherent sv (snd (pin i b now sv))"
  by (auto simp: pin_def getTask_def setTaskPin_def Let_def mirrors_simps
      split: sum.splits prod.split option.splits intro!: coherent_write)

lemma coherent_rename [coherent_intros]: "coherent sv (snd (rename i ti now sv))"
  by (auto simp: rename_def setTaskTitle_def mirrors_simps split: sum.split intro!: coherent_write)

lemma coherent_setControl [coherent_intros]:
  "coherent sv (upd_task i (\<lambda>t. t\<lparr>sessionControl := Some c\<rparr>) (setSessionControl i (Some c) sv))"
  if "\<And>t. cached i sv = Some t \<Longrightarrow> owned_by Owner_Shared t \<Longrightarrow> sc_owner c = Owner_Shared"
  using that by (auto simp: setSessionControl_def mirrors_simps split: option.splits intro!: coherent_write)

lemma coherent_resolveInput [coherent_intros]: "coherent sv (snd (resolveInput i q now sv))"
  by (auto simp: resolveInput_def setTaskStatus_def setTaskPendingInput_def after_input_def mirrors_simps Let_def
      split: option.split intro!: coherent_write)

lemma coherent_capture [coherent_intros]: "coherent sv (capture_session i s now sv)"
  by (auto simp: capture_session_def setTaskSession_def given_def mirrors_simps split: option.split intro!: coherent_write)

lemma coherent_mismatch [coherent_intros]: "coherent sv (mark_mismatch P i sv)"
  unfolding mark_mismatch_def
  by (intro coherent_drop_steer[THEN [2] coherent_trans] coherent_frame_thens coherent_refl)

lemma coherent_note [coherent_intros]: "coherent sv (note_turn i b sv)"
  unfolding note_turn_def by (intro coherent_frames)

lemma coherent_clear_pending [coherent_intros]: "coherent sv (clear_pending i now sv)"
  by (auto simp: clear_pending_def setTaskPendingInput_def setTaskPendingApproval_def mirrors_simps
      split: option.split intro!: coherent_write)

lemma coherent_activity [coherent_intros]: "coherent sv (upd_task i (\<lambda>t. t\<lparr>lastActivityAt := now\<rparr>) sv)"
  by (auto simp: mirrors_simps intro!: coherent_task)

lemma coherent_prStatuses [coherent_intros]: "coherent sv (applyPrStatuses i ps now sv)"
  by (auto simp: applyPrStatuses_def setTaskPrs_def mirrors_simps Let_def split: option.split intro!: coherent_write)

section \<open>The host of the message controller\<close>

text \<open>Operations run with the quiet host leave the service alone and change the queue as permitted.\<close>

lemma save_quiet [simp]: "save (quiet_host P i) s h = (s\<lparr>revision := revision s + 1\<rparr>, h)"
  by (simp add: save_def quiet_host_def Let_def)

lemma quiet_ops [simp]:
  "snd (snd (beginRun (quiet_host P i) a b w)) = snd w"
  "snd (startingRuntime (quiet_host P i) w) = snd w"
  "snd (pause (quiet_host P i) w) = snd w"
  "snd (stopWaiting (quiet_host P i) w) = snd w"
  "snd (rejectBeforeStart (quiet_host P i) e w) = snd w"
  "snd (snd (finish (quiet_host P i) n failed False err w)) = snd w"
  "snd (delivered (quiet_host P i) mid w) = snd w"
  "snd (deliveryFailed (quiet_host P i) cl mid rej w) = snd w"
  "snd (recover (quiet_host P i) live w) = snd w"
  "snd (steer_settled (quiet_host P i) cl mid out w) = snd w"
  "snd (steer_threw (quiet_host P i) cl mid w) = snd w"
  by (cases w; auto simp: beginRun_def startingRuntime_def pause_def stopWaiting_def rejectBeforeStart_def
      finish_def delivered_def deliveryFailed_def recover_def steer_settled_def steer_threw_def Let_def
      split: option.split)+

lemma do_messages_quiet:
  "snd (f (mstate i sv, sv)) = sv \<Longrightarrow> do_messages i f sv = writeMessageState i (fst (f (mstate i sv, sv))) sv"
  by (auto simp: do_messages_def split: prod.split)

lemma with_messages_snd: "snd (with_messages i f sv) = do_messages i (\<lambda>w. snd (f w)) sv"
  by (auto simp: with_messages_def do_messages_def split: prod.split)

text \<open>A change to the queue of task \<open>i\<close> that sends nothing.\<close>

definition tame_at :: "string \<Rightarrow> svc \<Rightarrow> svc \<Rightarrow> bool" where
  "tame_at i sv sv' \<longleftrightarrow> (queue_inv (mstate i sv) \<longrightarrow> tame (mstate i sv) (mstate i sv'))"

lemma tame_at_refl [simp]: "tame_at i sv sv"
  by (simp add: tame_at_def)

lemma tame_at_trans: "tame_at i a b \<Longrightarrow> tame_at i b c \<Longrightarrow> tame_at i a c"
  unfolding tame_at_def by (blast intro: tame_trans tame_inv)

lemma tame_at_coherent: "tame_at i a b \<Longrightarrow> coherent b c \<Longrightarrow> tame_at i a c"
  by (auto simp: tame_at_def coherent_def core_same_def)

lemma tame_at_messages:
  assumes "snd (f (mstate j sv, sv)) = sv"
    and "queue_inv (mstate j sv) \<Longrightarrow> tame (mstate j sv) (fst (f (mstate j sv, sv)))"
  shows "tame_at i sv (do_messages j f sv)"
  using assms by (auto simp: tame_at_def do_messages_quiet)

lemma do_ops_world:
  "\<exists>s. do_finish P i failed err sv = writeMessageState i s sv \<and> (queue_inv (mstate i sv) \<longrightarrow> tame (mstate i sv) s)"
  "\<exists>s. do_startingRuntime P i sv = writeMessageState i s sv \<and> (queue_inv (mstate i sv) \<longrightarrow> tame (mstate i sv) s)"
  "\<exists>s. do_pause P i sv = writeMessageState i s sv \<and> (queue_inv (mstate i sv) \<longrightarrow> tame (mstate i sv) s)"
  "\<exists>s. do_stopWaiting P i sv = writeMessageState i s sv \<and> (queue_inv (mstate i sv) \<longrightarrow> tame (mstate i sv) s)"
  "\<exists>s. do_rejectBeforeStart P i e sv = writeMessageState i s sv \<and> (queue_inv (mstate i sv) \<longrightarrow> tame (mstate i sv) s)"
  "\<exists>s. do_delivered P i mid sv = writeMessageState i s sv \<and> (queue_inv (mstate i sv) \<longrightarrow> tame (mstate i sv) s)"
  "\<exists>s. do_deliveryFailed P i mid rej sv = writeMessageState i s sv \<and> (queue_inv (mstate i sv) \<longrightarrow> tame (mstate i sv) s)"
  "\<exists>s. do_recover P live i sv = writeMessageState i s sv \<and> (queue_inv (mstate i sv) \<longrightarrow> tame (mstate i sv) s)"
  "\<exists>s. steer_done P i mid out sv = writeMessageState i s sv \<and> (queue_inv (mstate i sv) \<longrightarrow> tame (mstate i sv) s)"
  "\<exists>s. snd (do_beginRun P i c d sv) = writeMessageState i s sv \<and> (queue_inv (mstate i sv) \<longrightarrow> tame (mstate i sv) s)"
proof -
  have fin: "tame (mstate i sv) (fst (snd (finish (quiet_host P i) 0 failed False err (mstate i sv, sv))))"
    by (simp add: finish_def Let_def) (rule tame_trans[OF finish_state_tame tame_same]; simp)
  show "\<exists>s. do_finish P i failed err sv = writeMessageState i s sv \<and> (queue_inv (mstate i sv) \<longrightarrow> tame (mstate i sv) s)"
    using fin by (auto simp: do_finish_def do_messages_quiet)
  show "\<exists>s. steer_done P i mid out sv = writeMessageState i s sv \<and> (queue_inv (mstate i sv) \<longrightarrow> tame (mstate i sv) s)"
    using steer_settled_tame[of "(mstate i sv, sv)"] steer_threw_tame[of "(mstate i sv, sv)"]
    by (cases out) (auto simp: steer_done_def do_messages_quiet)
qed (use beginRun_tame[of "(mstate i sv, sv)"] startingRuntime_tame[of "(mstate i sv, sv)"]
       pause_tame[of "(mstate i sv, sv)"] stopWaiting_tame[of "(mstate i sv, sv)"]
       rejectBeforeStart_tame[of "(mstate i sv, sv)"] delivered_tame[of "(mstate i sv, sv)"]
       deliveryFailed_tame[of "(mstate i sv, sv)"] recover_tame[of "(mstate i sv, sv)"]
     in \<open>auto simp: do_startingRuntime_def do_pause_def do_stopWaiting_def do_rejectBeforeStart_def
        do_delivered_def do_deliveryFailed_def do_recover_def do_beginRun_def with_messages_snd do_messages_quiet\<close>)

lemma tame_at_write:
  "\<exists>s. sv' = writeMessageState j s sv \<and> (queue_inv (mstate j sv) \<longrightarrow> tame (mstate j sv) s) \<Longrightarrow> tame_at i sv sv'"
  by (auto simp: tame_at_def)

lemmas tame_at_ops = do_ops_world[THEN tame_at_write]

lemma mstate_frames [simp]:
  "mstate i (sv\<lparr>sup := a\<rparr>) = mstate i sv" "mstate i (sv\<lparr>resolving := b\<rparr>) = mstate i sv"
  "mstate i (sv\<lparr>done_callbacks := c\<rparr>) = mstate i sv" "mstate i (sv\<lparr>turnState := d\<rparr>) = mstate i sv"
  "mstate i (release_slot j sv) = mstate i sv"
  by (simp_all add: mstate_def release_slot_def)

lemma tame_at_frames:
  "tame_at i s0 sv \<Longrightarrow> tame_at i s0 (sv\<lparr>sup := a\<rparr>)"
  "tame_at i s0 sv \<Longrightarrow> tame_at i s0 (sv\<lparr>resolving := b\<rparr>)"
  "tame_at i s0 sv \<Longrightarrow> tame_at i s0 (sv\<lparr>done_callbacks := c\<rparr>)"
  "tame_at i s0 sv \<Longrightarrow> tame_at i s0 (release_slot j sv)"
  "tame_at i s0 sv \<Longrightarrow> tame_at i s0 (sv\<lparr>sup := a, done_callbacks := c\<rparr>)"
  "tame_at i s0 sv \<Longrightarrow> tame_at i s0 (sv\<lparr>turnState := d\<rparr>)"
  by (simp_all add: tame_at_def)

lemmas tame_at_thens = tame_at_frames tame_at_ops[THEN [2] tame_at_trans]
  coherent_intros[THEN [2] tame_at_coherent]

lemma startTurnNow_tame: "tame_at i sv (startTurnNow P j now sv)"
  unfolding startTurnNow_def Let_def
  by (auto split: option.split sum.split intro!: tame_at_thens tame_at_refl)

lemma turn_slotted_tame: "tame_at i sv (turn_slotted P j now sv)"
  unfolding turn_slotted_def Let_def
  by (auto intro!: tame_at_thens tame_at_refl startTurnNow_tame)

lemma runTurn_tame: "tame_at i sv (runTurn P j c now sv)"
proof -
  have "tame_at i sv (snd (do_beginRun P (j_task j) (j_message j) c sv))"
    by (intro tame_at_thens tame_at_refl)
  then show ?thesis
    unfolding runTurn_def Let_def
    by (auto split: prod.split bool.split intro!: tame_at_thens tame_at_refl
        intro: tame_at_trans[OF _ turn_slotted_tame])
qed

lemma start_shared_tame: "tame_at i sv (start_shared P k m now sv)"
  unfolding start_shared_def Let_def by (intro tame_at_thens tame_at_refl)

lemma start_message_tame: "tame_at i sv (snd (start_message P k now m sv))"
  unfolding start_message_def Let_def
  by (auto split: sum.split intro!: start_shared_tame tame_at_trans[OF _ runTurn_tame] tame_at_thens tame_at_refl)

lemma mstate_enter [simp]: "mstate i (enter i w) = fst w"
  by (simp add: enter_def)

lemma enter_leave [simp]: "enter i (leave i sv) = sv"
  by (simp add: enter_def leave_def)

interpretation task_messages: message_host "task_host P i now" for P i now
proof unfold_locales
  fix w :: "message_state \<times> svc" and m
  assume "queue_inv (fst w)"
  then have "tame (fst w) (mstate i (snd (start_message P i now m (enter i w))))"
    using start_message_tame[of i "enter i w" P i now m] by (simp add: tame_at_def)
  then show "tame (fst w) (fst (snd (hostStart (task_host P i now) m w)))"
    by (simp add: task_host_def leave_def case_prod_beta)
qed

section \<open>Invariants of the service\<close>

text \<open>
  \<open>Q\<close> is the invariant between steps, \<open>R\<close> the one while a turn in progress holds a
  slot that is not yet recorded in the table of handles, the resolving turns or the
  granted waiters. The laws are what the primitive updates must keep. \<open>live\<close> tells
  whether the backend can hold turns that survive a restart.
\<close>

locale service_invariant =
  fixes P :: ports and live :: bool and Q :: "svc \<Rightarrow> bool" and R :: "svc \<Rightarrow> bool"
  assumes q_queue: "Q sv \<Longrightarrow> queue_inv (mstate i sv)"
    and q_write: "Q sv \<Longrightarrow> step_ok (mstate i sv) s \<Longrightarrow> Q (writeMessageState i s sv)"
    and q_coherent: "Q sv \<Longrightarrow> coherent sv sv' \<Longrightarrow> Q sv'"
    and r_queue: "R sv \<Longrightarrow> queue_inv (mstate i sv)"
    and r_write: "R sv \<Longrightarrow> step_ok (mstate i sv) s \<Longrightarrow> R (writeMessageState i s sv)"
    and r_coherent: "R sv \<Longrightarrow> coherent sv sv' \<Longrightarrow> R sv'"
    and q_independent: "Q sv \<Longrightarrow> independent P \<Longrightarrow> R sv"
    and q_try: "Q sv \<Longrightarrow> tryAcquire (sup sv) = (True, sp) \<Longrightarrow> R (sv\<lparr>sup := sp\<rparr>)"
    and q_wait: "Q sv \<Longrightarrow> \<not> fst (tryAcquire (sup sv)) \<Longrightarrow> Q (sv\<lparr>sup := acquire j (sup sv)\<rparr>)"
    and r_release: "R sv \<Longrightarrow> Q (release_slot i sv)"
    and r_resolve: "R sv \<Longrightarrow> Q (sv\<lparr>resolving := resolving sv @ [j]\<rparr>)"
    and r_register: "R sv \<Longrightarrow> Q (sv\<lparr>sup := register i h (sup sv), done_callbacks := done_callbacks sv @ [(i, h)]\<rparr>)"
    and q_granted: "Q sv \<Longrightarrow> take_granted (sup sv) = Some (j, sp) \<Longrightarrow> R (sv\<lparr>sup := sp\<rparr>)"
    and q_resolved: "Q sv \<Longrightarrow> j \<in> set (resolving sv) \<Longrightarrow> R (sv\<lparr>resolving := remove1 j (resolving sv)\<rparr>)"
    and q_done: "Q sv \<Longrightarrow> (i, h) \<in> set (done_callbacks sv) \<Longrightarrow>
      R (sv\<lparr>done_callbacks := remove1 (i, h) (done_callbacks sv)\<rparr>)"
    and r_weaken: "R sv \<Longrightarrow> Q sv"
    and q_insert: "Q sv \<Longrightarrow> getRow (taskId t) sv = None \<Longrightarrow> pinnedAt t = None \<Longrightarrow>
      Q ((insertTask t sv)\<lparr>cache := cache sv @ [t]\<rparr>)"
    and q_adopt: "Q sv \<Longrightarrow> getRow (taskId t) sv = Some t \<Longrightarrow> cached (taskId t) sv = None \<Longrightarrow>
      Q (sv\<lparr>cache := cache sv @ [t]\<rparr>)"
    and q_boot: "Q sv \<Longrightarrow> Q (hydrate (boot sv))"
    and q_reclaim: "live \<Longrightarrow> Q sv \<Longrightarrow> Q (sv\<lparr>sup := reclaim i h (sup sv), done_callbacks := done_callbacks sv @ [(i, h)]\<rparr>)"
begin

lemma q_op:
  "\<exists>s. sv' = writeMessageState i s sv \<and> (queue_inv (mstate i sv) \<longrightarrow> tame (mstate i sv) s) \<Longrightarrow> Q sv \<Longrightarrow> Q sv'"
  using q_queue[of sv i] by (auto intro: q_write tame_step_ok)

lemma r_op:
  "\<exists>s. sv' = writeMessageState i s sv \<and> (queue_inv (mstate i sv) \<longrightarrow> tame (mstate i sv) s) \<Longrightarrow> R sv \<Longrightarrow> R sv'"
  using r_queue[of sv i] by (auto intro: r_write tame_step_ok)

lemmas q_ops = do_ops_world[THEN q_op]
lemmas r_ops = do_ops_world[THEN r_op]
lemmas q_thens = q_ops q_coherent[OF _ coherent_transition] q_coherent[OF _ coherent_emit]
  q_coherent[OF _ coherent_notify] q_coherent[OF _ coherent_control] q_coherent[OF _ coherent_settings]
  q_coherent[OF _ coherent_cleanup] q_coherent[OF _ coherent_drop_steer] q_coherent[OF _ coherent_queue_steer]
  q_coherent[OF _ coherent_sendShared] q_coherent[OF _ coherent_reset] coherent_frames[THEN [2] q_coherent]
lemmas r_thens = r_ops r_coherent[OF _ coherent_transition] r_coherent[OF _ coherent_emit]
  r_coherent[OF _ coherent_reset] coherent_frames[THEN [2] r_coherent]

lemma r_start: "R sv \<Longrightarrow> Q (startTurnNow P j now sv)"
  unfolding startTurnNow_def Let_def
  by (auto split: option.split sum.split intro!: q_thens r_release r_register r_thens intro: r_weaken)

lemma r_slotted: "R sv \<Longrightarrow> Q (turn_slotted P j now sv)"
  unfolding turn_slotted_def Let_def by (auto intro!: r_start r_resolve r_thens)

lemma q_run: "Q sv \<Longrightarrow> Q (runTurn P j c now sv)"
proof -
  assume "Q sv"
  then have 1: "Q (snd (do_beginRun P (j_task j) (j_message j) c sv))" by (rule q_thens)
  obtain rid sv1 where b: "do_beginRun P (j_task j) (j_message j) c sv = (rid, sv1)" by fastforce
  with 1 have q: "Q sv1" by simp
  have "Q (sv2\<lparr>sup := acquire j' (sup sv2)\<rparr>)"
    if "sv2 = transition k Queued None now sv1" "fst (tryAcquire (sup sv1)) = False" for sv2 j' k
  proof (rule q_wait)
    have c: "coherent sv1 sv2" using that(1) by (simp add: coherent_transition)
    show "Q sv2" using q c by (rule q_coherent)
    show "\<not> fst (tryAcquire (sup sv2))" using that(2) c by (simp add: coherent_def core_same_def)
  qed
  then show ?thesis
    using b q unfolding runTurn_def Let_def
    by (auto split: prod.split bool.split intro!: r_slotted intro: q_independent q_try)
qed

lemma q_start_message: "Q sv \<Longrightarrow> Q (snd (start_message P i now m sv))"
  unfolding start_message_def start_shared_def Let_def
  by (auto split: sum.split intro!: q_run q_thens)

lemma q_steer_message: "Q sv \<Longrightarrow> Q (steer_message P i now m sv)"
  unfolding steer_message_def by (auto split: option.split intro!: q_thens)

end

section \<open>Further coherent updates\<close>

lemma coherent_approve_commit:
  assumes "cached i sv = Some u" and "b \<longrightarrow> pendingApproval u = None"
  shows "coherent sv (upd_task i (\<lambda>t. t\<lparr>pendingApproval := None, status := after_approval (status u), updatedAt := now\<rparr>)
     (setTaskStatus i (after_approval (status u)) (interrupted u) now
       (if b then sv else setTaskPendingApproval i None now sv)))"
  using assms
  by (auto simp: setTaskStatus_def setTaskPendingApproval_def after_approval_def mirrors_simps
      intro!: coherent_write)

lemma coherent_approval [coherent_intros]: "coherent sv (insertApproval i d sv)"
  by (rule coherent_frame) (simp_all add: insertApproval_def core_same_def mstate_def)

lemma cached_write [simp]: "cached i (writeMessageState j s sv) = cached i sv"
  by (simp add: cached_def writeMessageState_def)

lemma cached_insertApproval [simp]: "cached i (insertApproval j d sv) = cached i sv"
  by (simp add: cached_def insertApproval_def)

lemma cached_quiet_ops [simp]:
  "cached k (do_pause P i sv) = cached k sv"
  "cached k (do_stopWaiting P i sv) = cached k sv"
  "cached k (do_delivered P i mid sv) = cached k sv"
  "cached k (do_finish P i failed err sv) = cached k sv"
  "cached k (snd (do_beginRun P i c d sv)) = cached k sv"
  using do_ops_world(3)[where sv = sv and P = P and i = i] do_ops_world(4)[where sv = sv and P = P and i = i]
    do_ops_world(6)[where sv = sv and P = P and i = i and mid = mid]
    do_ops_world(1)[where sv = sv and P = P and i = i and failed = failed and err = err]
    do_ops_world(10)[where sv = sv and P = P and i = i and c = c and d = d]
  by auto

lemma coherent_event_commit [coherent_intros]:
  "coherent sv (event_effects P i (Ev_Approval q) now sv)" "coherent sv (event_effects P i (Ev_Question r) now sv)"
proof -
  have 1: "coherent sv (upd_task i (\<lambda>t. t\<lparr>pendingApproval := Some q, status := Awaiting_Approval, updatedAt := now\<rparr>)
      (setTaskStatus i Awaiting_Approval (interrupted t) now (setTaskPendingApproval i (Some q) now sv)))"
    if "cached i sv = Some t" for t
    using that by (auto simp: setTaskStatus_def setTaskPendingApproval_def mirrors_simps intro!: coherent_write)
  then show "coherent sv (event_effects P i (Ev_Approval q) now sv)"
    by (auto split: option.split intro: coherent_thens2)
  have "coherent sv (upd_task i (\<lambda>t. t\<lparr>pendingInput := Some r, status := (if status u = Running then Awaiting_Input else status u), updatedAt := now\<rparr>)
      (setTaskStatus i (if status u = Running then Awaiting_Input else status u) (interrupted u) now (setTaskPendingInput i (Some r) now sv)))"
    if "cached i sv = Some u" for u
    using that by (auto simp: setTaskStatus_def setTaskPendingInput_def mirrors_simps intro!: coherent_write)
  then show "coherent sv (event_effects P i (Ev_Question r) now sv)"
    by (auto simp: Let_def split: option.split intro: coherent_thens2)
qed

definition shared_task :: "string \<Rightarrow> svc \<Rightarrow> bool" where
  "shared_task i sv \<longleftrightarrow> (case cached i sv of None \<Rightarrow> False | Some t \<Rightarrow> owned_by Owner_Shared t)"

lemma coherent_shared_interrupt:
  "shared_task i sv \<Longrightarrow> coherent sv (upd_task i (\<lambda>t. t\<lparr>interrupted := True\<rparr>) sv)"
  by (auto simp: shared_task_def mirrors_simps split: option.splits intro!: coherent_task)

lemma row_task_commute: "upd_row i g (upd_task j f sv) = upd_task j f (upd_row i g sv)"
  by (simp add: upd_row_def upd_task_def)

lemma coherent_reconnecting [coherent_intros]: "coherent sv (mark_reconnecting i sv)"
proof (cases "Option.bind (cached i sv) sessionControl")
  case (Some c)
  then have "coherent sv (upd_task i (\<lambda>t. t\<lparr>sessionControl := Some (c\<lparr>sc_connection := Some Reconnecting\<rparr>)\<rparr>)
      (setSessionControl i (Some (c\<lparr>sc_connection := Some Reconnecting\<rparr>)) sv))"
    by (intro coherent_setControl) (auto simp: Option.bind_eq_Some_conv owned_by_def)
  with Some show ?thesis
    by (simp add: mark_reconnecting_def Let_def setSessionControl_def row_task_commute)
qed (simp add: mark_reconnecting_def)

definition reset_row :: "int \<Rightarrow> task_state \<Rightarrow> task_state" where
  "reset_row now r = r\<lparr>status := Idle, interrupted := True, pendingInput := None, pendingApproval := None, updatedAt := now\<rparr>"

lemma reset_tasks_commute:
  "fold (\<lambda>i. upd_task i (\<lambda>t. t\<lparr>status := Idle, interrupted := True\<rparr>)) ids
     (fold (\<lambda>i. upd_row i (reset_row now)) ids sv) =
   fold (\<lambda>i sv. upd_task i (\<lambda>t. t\<lparr>status := Idle, interrupted := True\<rparr>) (upd_row i (reset_row now) sv)) ids sv"
proof (induction ids arbitrary: sv)
  case (Cons i js)
  have "fold (\<lambda>i. upd_row i (reset_row now)) js (upd_task j f sv) =
      upd_task j f (fold (\<lambda>i. upd_row i (reset_row now)) js sv)" for j f sv
    by (induction js arbitrary: sv) (simp_all add: row_task_commute)
  then show ?case by (simp add: Cons.IH[symmetric])
qed simp

lemma coherent_fold: "(\<And>x sv. coherent sv (f x sv)) \<Longrightarrow> coherent sv (fold f xs sv)"
  by (induction xs arbitrary: sv) (auto intro: coherent_trans)

lemma coherent_reset_tasks: "coherent sv (reset_cached ids (resetInterruptedTasks ids now sv))"
proof -
  have "coherent sv (upd_task i (\<lambda>t. t\<lparr>status := Idle, interrupted := True\<rparr>) (upd_row i (reset_row now) sv))" for i sv
    by (auto simp: reset_row_def mirrors_simps intro!: coherent_write)
  then show ?thesis
    unfolding reset_cached_def resetInterruptedTasks_def reset_row_def[symmetric] reset_tasks_commute
    by (rule coherent_fold)
qed

section \<open>Every operation\<close>

lemma write_write: "coherent (writeMessageState i s' (writeMessageState i s sv)) (writeMessageState i s' sv)"
  by (rule coherent_frame) (auto simp: core_same_def writeMessageState_def mstate_def update_conv')

lemma enter_mstate [simp]: "enter i (mstate i sv, sv) = sv"
  by (simp add: enter_def)

lemma steer_message_coherent: "coherent sv (steer_message P i now m sv)"
  unfolding steer_message_def
  by (auto split: option.split intro: coherent_sendShared coherent_emit)

text \<open>The world of one task's controller is the service with its queue written back.\<close>

sublocale service_invariant \<subseteq> world: world_invariant "task_host P i now" "\<lambda>w. Q (enter i w)" for i now
proof unfold_locales
  fix w m
  assume q: "Q (enter i w)"
  show "queue_inv (fst w)" using q_queue[OF q, of i] by simp
  show "Q (enter i (snd (hostStart (task_host P i now) m w)))"
    using q_start_message[OF q, of i now m] by (simp add: task_host_def case_prod_beta)
  have 1: "coherent (enter i w) (steer_message P i now m (enter i w))"
    by (rule steer_message_coherent)
  then have "mstate i (steer_message P i now m (enter i w)) = fst w"
    by (simp add: coherent_def core_same_def)
  then have "enter i (fst w, steer_message P i now m (enter i w)) = steer_message P i now m (enter i w)"
    by (simp add: enter_def writeMessageState_def)
  with q_coherent[OF q 1] show "Q (enter i (fst w, hostSteer (task_host P i now) m w))"
    by (simp add: task_host_def)
next
  fix s h s'
  assume q: "Q (enter i (s, h))" and ok: "step_ok s s'"
  have "step_ok s (s'\<lparr>revision := revision s' + 1\<rparr>)"
    by (rule step_ok_trans[OF ok tame_step_ok[OF tame_same]]) simp_all
  with q have "Q (writeMessageState i (s'\<lparr>revision := revision s' + 1\<rparr>) (writeMessageState i s h))"
    using q_write[of "writeMessageState i s h" i "s'\<lparr>revision := revision s' + 1\<rparr>"] by (simp add: enter_def)
  then have "Q (writeMessageState i (s'\<lparr>revision := revision s' + 1\<rparr>) h)"
    by (rule q_coherent[OF _ write_write])
  then show "Q (enter i (save (task_host P i now) s' h))"
    by (simp add: save_def task_host_def quiet_host_def enter_def Let_def)
qed

lemma quiet_task_host [simp]: "pump_candidate (task_host P i now) = pump_candidate (quiet_host P i)"
  by (intro ext) (simp add: pump_candidate_def task_host_def quiet_host_def)

context service_invariant
begin

lemma q_messages:
  assumes "\<And>w. Q (enter i w) \<Longrightarrow> Q (enter i (snd (f w)))" and "Q sv"
  shows "Q (snd (with_messages i f sv))"
  using assms(1)[of "(mstate i sv, sv)"] assms(2)
  by (simp add: with_messages_snd do_messages_def enter_def case_prod_beta)

lemma q_queue_ops:
  "Q sv \<Longrightarrow> Q (snd (with_messages i (submit (task_host P i now) now req) sv))"
  "Q sv \<Longrightarrow> Q (snd (with_messages i (action (task_host P i now) now mid a) sv))"
  "Q sv \<Longrightarrow> Q (snd (with_messages i (resume (task_host P i now) now) sv))"
  "Q sv \<Longrightarrow> Q (snd (with_messages i (pump (task_host P i now) now) sv))"
  by (intro q_messages; simp add: world.world_submit world.world_action world.world_resume world.world_pump)+

lemma q_submit: "Q sv \<Longrightarrow> Q (snd (submitMessage P i now req sv))"
  unfolding submitMessage_def by (auto split: sum.split intro!: q_queue_ops)

lemma q_action: "Q sv \<Longrightarrow> Q (snd (messageAction P i now mid a sv))"
  unfolding messageAction_def by (auto split: sum.split intro!: q_queue_ops)

lemma q_resume: "Q sv \<Longrightarrow> Q (snd (resumeQueue P i now sv))"
  unfolding resumeQueue_def by (rule q_queue_ops)

lemma q_pump: "Q sv \<Longrightarrow> Q (do_pump P i now sv)"
  unfolding do_pump_def by (rule q_queue_ops)

lemma q_shared_sent: "Q sv \<Longrightarrow> Q (shared_sent P i mid out now sv)"
  unfolding shared_sent_def Let_def by (auto intro!: q_thens)

lemma q_slot_granted: "Q sv \<Longrightarrow> Q (slot_granted P now sv)"
  unfolding slot_granted_def Let_def
  by (auto split: option.split prod.split intro!: r_release r_slotted intro: q_granted)

lemma q_skills: "Q sv \<Longrightarrow> Q (skills_settled P j r now sv)"
  unfolding skills_settled_def Let_def
  by (auto split: sum.split intro!: q_thens r_start intro: q_resolved r_release)

lemma q_compact: "Q sv \<Longrightarrow> Q (snd (compact P i r n now sv))"
  unfolding compact_def by (auto split: sum.split option.split intro!: q_run q_thens)

lemma q_pin: "Q sv \<Longrightarrow> Q (snd (pin i b now sv))"
  by (rule q_coherent[OF _ coherent_pin])

lemma q_rename: "Q sv \<Longrightarrow> Q (snd (rename i ti now sv))"
  by (rule q_coherent[OF _ coherent_rename])

lemma answered_snd:
  "snd (case r of (Inl er, sv') \<Rightarrow> (Some er, sv') | (Inr _, sv') \<Rightarrow> (None, sv')) = snd r"
  by (simp split: prod.split sum.split)

lemma q_followup: "Q sv \<Longrightarrow> Q (snd (followup P i txt raw m e p now sv))"
  unfolding followup_def Let_def
  by (auto simp: answered_snd split: sum.split intro!: q_run q_thens q_submit)

lemma q_steer_live: "Q sv \<Longrightarrow> Q (snd (steer_live P i h b txt imgs att now sv))"
  unfolding steer_live_def Let_def by (auto intro!: q_thens)

lemma q_steer: "Q sv \<Longrightarrow> Q (snd (steer P i txt raw m e p now sv))"
proof -
  assume q: "Q sv"
  obtain b sv1 where s: "applySettings P i m e p now sv = (b, sv1)" by fastforce
  with q have "Q sv1" using q_coherent[OF q coherent_settings, of P i m e p now] by simp
  then show ?thesis
    using q unfolding steer_def Let_def
    by (auto simp: s case_prod_beta split: sum.split option.split intro!: q_thens q_run q_steer_live)
qed

lemma q_answer: "Q sv \<Longrightarrow> Q (snd (answer_done P i r ok now sv))"
proof -
  assume q: "Q sv"
  obtain b sv1 where s: "resolveInput i r now sv = (b, sv1)" by fastforce
  with q have "Q sv1" using q_coherent[OF q coherent_resolveInput, of i r now] by simp
  then show ?thesis
    using q unfolding answer_done_def by (auto simp: s split: option.split bool.split intro!: q_thens)
qed

lemma q_approve: "Q sv \<Longrightarrow> Q (snd (approve P i d sc now sv))"
proof -
  assume q: "Q sv"
  have 1: "Q (insertApproval i d sv)" by (rule q_coherent[OF q coherent_approval])
  show ?thesis
    using q 1 coherent_approve_commit[of i "insertApproval i d sv" _ True now]
      coherent_approve_commit[of i "insertApproval i d sv" _ False now]
    unfolding approve_def Let_def
    by (auto simp: owned_task_def getTask_def bind_result_Inr split: sum.split option.splits intro!: q_thens
        intro: q_coherent)
qed

lemma q_approveShared: "Q sv \<Longrightarrow> Q (snd (approveShared_done i d ok sv))"
  unfolding approveShared_done_def by (auto intro: q_coherent coherent_approval)

lemma q_handoff: "Q sv \<Longrightarrow> Q (snd (handoff P i sv))"
proof -
  assume q: "Q sv"
  have "Q (upd_task i (\<lambda>t. t\<lparr>sessionControl := Some c\<rparr>) (setSessionControl i (Some c) (do_pause P i sv)))"
    if "cached i sv = Some t" "\<not> owned_by Owner_Shared t" for t c
    using that q by (intro q_coherent[OF _ coherent_setControl]) (auto intro: q_thens)
  with q show ?thesis
    unfolding handoff_def by (auto simp: getTask_def split: sum.split option.splits)
qed

lemma q_stopShared_done: "Q sv \<Longrightarrow> shared_task i sv \<Longrightarrow> Q (snd (stopShared_done i b ok now sv))"
  unfolding stopShared_done_def by (auto intro!: q_thens intro: q_coherent coherent_shared_interrupt)

lemma q_stopShared: "Q sv \<Longrightarrow> shared_task i sv \<Longrightarrow> Q (snd (stopShared P i b t now sv))"
proof -
  assume q: "Q sv" and "shared_task i sv"
  then have "Q (do_pause P i sv)" "shared_task i (do_pause P i sv)"
    by (auto intro: q_thens simp: shared_task_def)
  then show ?thesis
    unfolding stopShared_def Let_def by (auto intro: q_stopShared_done)
qed

lemma owned_task_Inr: "owned_task i sv = Inr t \<Longrightarrow> cached i sv = Some t"
  by (auto simp: owned_task_def getTask_def bind_result_Inr split: option.splits)

lemma q_stop: "Q sv \<Longrightarrow> Q (snd (stop P i now sv))"
  unfolding stop_def Let_def
  by (auto simp: shared_task_def dest: owned_task_Inr split: sum.split intro!: q_thens q_stopShared)

lemma q_cancel: "Q sv \<Longrightarrow> Q (snd (cancel P i now sv))"
  unfolding cancel_def Let_def
  by (auto simp: shared_task_def dest: owned_task_Inr split: sum.split intro!: q_thens q_stopShared)

lemma q_archive: "Q sv \<Longrightarrow> Q (snd (archive P i now sv))"
  unfolding archive_def Let_def by (auto split: sum.split intro!: q_thens)

lemma q_recreate: "Q sv \<Longrightarrow> getRow i sv = Some old \<Longrightarrow> Q (snd (recreate req old sv))"
  using find_Some_in[of "\<lambda>r. taskId r = i" "db_tasks sv" old]
  by (auto simp: recreate_def getRow_def intro!: q_adopt)

lemma q_inserted:
  "Q sv \<Longrightarrow> getRow i sv = None \<Longrightarrow> Q ((insertTask (new_task P req rp i wt now) sv)
     \<lparr>cache := cache (insertTask (new_task P req rp i wt now) sv) @ [new_task P req rp i wt now]\<rparr>)"
  using q_insert[of sv "new_task P req rp i wt now"] by (simp add: insertTask_def new_task_def)

lemma q_create: "Q sv \<Longrightarrow> Q (snd (createTask P req now sv))"
proof (cases "Option.bind (requested_id req) (\<lambda>i. getRow i sv)")
  case (Some old)
  then show "Q sv \<Longrightarrow> ?thesis"
    by (auto simp: createTask_def Option.bind_eq_Some_conv intro: q_recreate)
next
  case None
  assume q: "Q sv"
  from None q show ?thesis
    unfolding createTask_def Let_def
    by (simp split: option.split sum.split) (auto intro!: q_run q_thens q_inserted)
qed

lemma q_status_effects: "Q sv \<Longrightarrow> Q (status_effects P i p now sv)"
proof -
  assume q: "Q sv"
  let ?sv1 = "if st_subtype p = ''message_delivered'' \<and> given (st_messageId p)
    then do_delivered P i (the (st_messageId p)) sv else sv"
  let ?sv2 = "if (st_subtype p = ''answer'' \<or> st_subtype p = ''input_resolved'') \<and> given (st_requestId p)
    then snd (resolveInput i (the (st_requestId p)) now ?sv1) else ?sv1"
  have 1: "Q ?sv1" using q by (auto intro: q_thens)
  have "Q ?sv2" using 1 q_coherent[OF 1 coherent_resolveInput] by simp
  then show ?thesis
    unfolding status_effects_def Let_def by (auto intro: q_thens)
qed

lemma q_event_effects: "Q sv \<Longrightarrow> Q (event_effects P i b now sv)"
proof (cases b)
  case (Ev_Approval q)
  then show "Q sv \<Longrightarrow> ?thesis" using q_coherent coherent_event_commit(1) by blast
next
  case (Ev_Question q)
  then show "Q sv \<Longrightarrow> ?thesis" using q_coherent coherent_event_commit(2) by blast
qed (simp_all add: q_status_effects)

lemma q_raw: "Q sv \<Longrightarrow> Q (onRaw P i raw n now sv)"
proof -
  assume q: "Q sv"
  have step: "Q (let sv3 = event_effects P i b now sv2; sv4 = appendAgentEvents P i es n now sv3;
      sv5 = (if c then refreshPrs i sv4 else sv4); sv6 = (if d then refreshContextUsage i sv5 else sv5)
      in upd_task i (\<lambda>t. t\<lparr>lastActivityAt := now\<rparr>) sv6)" if q2: "Q sv2" for sv2 b es c d
  proof -
    have "coherent (event_effects P i b now sv2) (let sv4 = appendAgentEvents P i es n now (event_effects P i b now sv2);
        sv5 = (if c then refreshPrs i sv4 else sv4); sv6 = (if d then refreshContextUsage i sv5 else sv5)
        in upd_task i (\<lambda>t. t\<lparr>lastActivityAt := now\<rparr>) sv6)"
      unfolding Let_def
      by (cases c; cases d; simp; intro coherent_activity[THEN [2] coherent_trans] coherent_thens2 coherent_refl)
    with q_event_effects[OF q2] show ?thesis unfolding Let_def by (rule q_coherent)
  qed
  have 2: "Q (note_turn i b (capture_session i s now (if bad then mark_mismatch P i sv else sv)))" for b s bad
    using q by (cases bad; simp; intro q_coherent[OF _ coherent_note] q_coherent[OF _ coherent_capture]
        q_coherent[OF _ coherent_mismatch])
  show ?thesis
    unfolding onRaw_def using q step[OF 2] 2 by (simp add: Let_def split: option.split)
qed

lemma q_end_turn: "R sv \<Longrightarrow> Q (end_turn P i now sv)"
proof -
  assume "R sv"
  then have 1: "Q (clear_pending i now (release_slot i sv))"
    by (intro q_coherent[OF _ coherent_clear_pending] r_release)
  show ?thesis
    unfolding end_turn_def
    by (rule q_coherent[OF 1]) (intro coherent_thens2 coherent_frame; simp add: core_same_def mstate_def)
qed

lemma q_settle: "Q sv \<Longrightarrow> Q (settle_turn P i f msg now sv)"
  unfolding settle_turn_def Let_def by (auto intro!: q_run q_thens q_pump)

lemma q_finishTurn: "R sv \<Longrightarrow> Q (finishTurn P i now sv)"
  using q_end_turn[of sv i now] r_weaken[of sv]
  unfolding finishTurn_def Let_def by (auto intro!: q_settle q_thens)

lemma q_turn_done: "Q sv \<Longrightarrow> Q (turn_done P i h now sv)"
  unfolding turn_done_def by (auto intro: q_finishTurn q_done)

lemma coherent_snapshot: "coherent sv (commitSnapshot i ss intr now sv)"
  by (auto simp: commitSnapshot_def setTaskSettings_def setTaskStatus_def setTaskPendingApproval_def
      setTaskPendingInput_def shared_status_def mirrors_simps intro!: coherent_write)

lemma q_let: "Q x \<Longrightarrow> (\<And>y. Q y \<Longrightarrow> Q (f y)) \<Longrightarrow> Q (Let x f)"
  by (simp add: Let_def)

lemma q_if: "Q x \<Longrightarrow> (Q x \<Longrightarrow> Q y) \<Longrightarrow> Q (if c then y else x)"
  by simp

lemma q_snapshotEffects: "Q sv \<Longrightarrow> Q (snapshotEffects P i b c d e f now sv)"
  unfolding snapshotEffects_def by (intro q_let q_if q_thens q_pump) assumption+

lemma q_snapshot: "Q sv \<Longrightarrow> Q (applySharedSnapshot P i ss c now sv)"
  unfolding applySharedSnapshot_def Let_def
  by (auto split: option.split intro!: q_snapshotEffects q_coherent[OF _ coherent_snapshot])

lemma q_reattach: "live \<Longrightarrow> Q sv \<Longrightarrow> Q (snd (reattachTurn P i sv))"
proof -
  assume l: live and q: "Q sv"
  have "Q (sv\<lparr>turnState := a, turnBaseline := b\<rparr>)" for a b
    by (rule q_coherent[OF q coherent_frame]) (simp_all add: core_same_def mstate_def)
  from q_reclaim[OF l this] this q show ?thesis
    unfolding reattachTurn_def Let_def by (auto split: option.split sum.split)
qed

lemma q_reattach_all: "live \<or> js = [] \<Longrightarrow> Q sv \<Longrightarrow> Q (snd (reattach_all P js sv))"
proof (induction js arbitrary: sv)
  case (Cons i js)
  then have l: live by simp
  obtain b sv1 where r: "reattachTurn P i sv = (b, sv1)" by fastforce
  with q_reattach[OF l Cons.prems(2), of i] have q1: "Q sv1" by simp
  obtain x sv2 where a: "reattach_all P js sv1 = (x, sv2)" by fastforce
  have "Q sv2" using Cons.IH[OF _ q1] l a by simp
  with q1 show ?case
    using Cons.IH[OF _ Cons.prems(2)] l by (cases x) (auto simp: r a split: bool.split)
qed simp

lemma q_fold: "(\<And>x sv. Q sv \<Longrightarrow> Q (f x sv)) \<Longrightarrow> Q sv \<Longrightarrow> Q (fold f xs sv)"
  by (induction xs arbitrary: sv) auto

lemma q_init: "live \<or> ll = None \<or> ll = Some [] \<Longrightarrow> Q sv \<Longrightarrow> Q (snd (init P ll now (boot sv)))"
proof -
  assume l: "live \<or> ll = None \<or> ll = Some []" and "Q sv"
  then have 1: "Q (fold mark_reconnecting ks (hydrate (boot sv)))" for ks
    by (intro q_fold q_boot) (auto intro: q_coherent coherent_reconnecting)
  have 2: "Q (reset_cached ids sv4)" if "recoverTasks now keep sv3 = (ids, sv4)" "Q sv3" for ids sv3 sv4 keep
    using that coherent_reset_tasks[of sv3 ids now]
    by (auto simp: recoverTasks_def Let_def reset_cached_def split: if_splits intro: q_coherent)
  have 3: "Q (snd (recoverRuns P lv shared now sv2))" if "Q sv2" "live \<or> lv = []" for lv sv2 shared
  proof -
    obtain x sv3 where r: "reattach_all P lv sv2 = (x, sv3)" by fastforce
    with q_reattach_all[OF that(2,1)] have "Q sv3" by simp
    then show ?thesis
      unfolding recoverRuns_def r by (auto simp: Let_def split: sum.split prod.split intro!: q_fold q_ops dest: 2)
  qed
  show ?thesis
    unfolding init_def Let_def using 1 3[OF 1] l by (auto split: option.split)
qed

end

section \<open>The step relation\<close>

text \<open>
  Every public operation of the service, every continuation and callback it leaves behind,
  maintenance switching on and off, and a restart. The settlement of a shared stop needs
  its task to be shared, as its caller found it. Without \<open>live\<close> a restart finds no
  surviving turn.
\<close>

inductive task_step :: "ports \<Rightarrow> bool \<Rightarrow> svc \<Rightarrow> svc \<Rightarrow> bool" for P live where
  T_Create: "task_step P live sv (snd (createTask P req now sv))"
| T_Followup: "task_step P live sv (snd (followup P i txt raw m e p now sv))"
| T_Steer: "task_step P live sv (snd (steer P i txt raw m e p now sv))"
| T_Compact: "task_step P live sv (snd (compact P i r n now sv))"
| T_Pin: "task_step P live sv (snd (pin i b now sv))"
| T_Rename: "task_step P live sv (snd (rename i ti now sv))"
| T_Handoff: "task_step P live sv (snd (handoff P i sv))"
| T_Submit: "task_step P live sv (snd (submitMessage P i now sm sv))"
| T_Action: "task_step P live sv (snd (messageAction P i now mid a sv))"
| T_ResumeQueue: "task_step P live sv (snd (resumeQueue P i now sv))"
| T_Pump: "task_step P live sv (do_pump P i now sv)"
| T_SteerDone: "task_step P live sv (steer_done P i mid out sv)"
| T_SharedSent: "task_step P live sv (shared_sent P i mid oc now sv)"
| T_SlotGranted: "task_step P live sv (slot_granted P now sv)"
| T_Skills: "task_step P live sv (skills_settled P j sk now sv)"
| T_Approve: "task_step P live sv (snd (approve P i d sc now sv))"
| T_ApproveShared: "task_step P live sv (snd (approveShared_done i d b sv))"
| T_Answer: "task_step P live sv (snd (answer_done P i r b now sv))"
| T_Stop: "task_step P live sv (snd (stop P i now sv))"
| T_Cancel: "task_step P live sv (snd (cancel P i now sv))"
| T_StopShared: "shared_task i sv \<Longrightarrow> task_step P live sv (snd (stopShared_done i b ok now sv))"
| T_Archive: "task_step P live sv (snd (archive P i now sv))"
| T_Raw: "task_step P live sv (onRaw P i raw seq now sv)"
| T_TurnDone: "task_step P live sv (turn_done P i h now sv)"
| T_Snapshot: "task_step P live sv (applySharedSnapshot P i ss c now sv)"
| T_Connected: "task_step P live sv (sv\<lparr>sharedConnections := cs\<rparr>)"
| T_PrStatuses: "task_step P live sv (applyPrStatuses i ps now sv)"
| T_Delivered: "task_step P live sv (do_delivered P i mid sv)"
| T_Maintenance: "task_step P live sv (sv\<lparr>updating := b\<rparr>)"
| T_Shutdown: "task_step P live sv (beginShutdown sv)"
| T_Restart: "live \<or> ll = None \<or> ll = Some [] \<Longrightarrow> task_step P live sv (snd (init P ll now (boot sv)))"

context service_invariant
begin

lemma q_shutdown: "Q sv \<Longrightarrow> Q (beginShutdown sv)"
  by (erule q_coherent, rule coherent_frame) (simp_all add: beginShutdown_def core_same_def mstate_def)

lemmas q_step_rules = q_create q_followup q_steer q_compact q_pin q_rename q_handoff q_submit q_action
  q_resume q_pump q_ops(7,9) q_ops(6) q_shared_sent q_slot_granted q_skills q_approve q_approveShared
  q_answer q_stop q_cancel q_stopShared_done q_archive q_raw q_turn_done q_snapshot q_shutdown q_init
  q_coherent[OF _ coherent_prStatuses] coherent_frames[THEN [2] q_coherent]

lemma q_step: "task_step P live sv sv' \<Longrightarrow> Q sv \<Longrightarrow> Q sv'"
  by (induction rule: task_step.induct) (intro q_step_rules; assumption)+

lemma q_steps: "(task_step P live)\<^sup>*\<^sup>* sv sv' \<Longrightarrow> Q sv \<Longrightarrow> Q sv'"
  by (induction rule: rtranclp_induct) (auto intro: q_step)

end

end
