(* ===== verification/Task_Invariants.thy ===== *)
theory Task_Invariants
  imports Task_Laws
begin

text \<open>
  The invariants of the task service, each an instance of \<open>service_invariant\<close>: the
  records of the live service mirror their rows while every queue keeps its contract, and
  the turns in progress hold the slots they occupy.
\<close>

section \<open>Records and queues\<close>

text \<open>\<open>S0\<close> is the state of the queues at some earlier moment, \<open>I0\<close> the tasks known then.\<close>

definition service_ok :: "(string \<Rightarrow> message_state) \<Rightarrow> (string \<times> string \<times> agent_kind \<times> string) set \<Rightarrow> svc \<Rightarrow> bool" where
  "service_ok S0 I0 sv \<longleftrightarrow> mirrored sv \<and> I0 \<subseteq> ident ` set (db_tasks sv) \<and> (\<forall>i. queue_inv (mstate i sv) \<and> evolves (S0 i) (mstate i sv))"

lemma mirrored_frame:
  "db_tasks sv' = db_tasks sv \<Longrightarrow> cache sv' = cache sv \<Longrightarrow> mirrored sv' = mirrored sv"
  by (simp add: mirrored_def cached_def getRow_def)

lemma mirrors_archived: "mirrors t r \<Longrightarrow> mirrors r r"
  by (auto simp: mirrors_def owned_by_def)

lemma mirrored_rows:
  assumes m: "mirrored sv" and r: "r \<in> set (db_tasks sv)"
  shows "mirrors r r" and "getRow (taskId r) sv = Some r"
proof -
  have "taskId r \<in> taskId ` set (cache sv)" using m r by (auto simp: mirrored_def)
  then obtain t where t: "t \<in> set (cache sv)" "taskId t = taskId r" by auto
  have u: "distinct (map taskId (cache sv))" "distinct (map taskId (db_tasks sv))"
    using m by (auto simp: mirrored_def)
  show row: "getRow (taskId r) sv = Some r"
    using find_key_unique[OF u(2) r] by (simp add: getRow_def)
  have "cached (taskId r) sv = Some t"
    using find_key_unique[OF u(1) t(1)] t(2) by (simp add: cached_def)
  then obtain r' where "getRow (taskId r) sv = Some r'" "mirrors t r'"
    using m unfolding mirrored_def by blast
  with row show "mirrors r r" by (auto dest: mirrors_archived)
qed

lemma hydrate_fields [simp]:
  "db_tasks (hydrate sv) = db_tasks sv" "cache (hydrate sv) = sort_key createdAt (db_tasks sv)"
  "mstate i (hydrate sv) = mstate i sv" "sup (hydrate sv) = sup sv"
  "resolving (hydrate sv) = resolving sv" "done_callbacks (hydrate sv) = done_callbacks sv"
  by (simp_all add: hydrate_def Let_def mstate_def)

lemma boot_fields [simp]:
  "db_tasks (boot sv) = db_tasks sv" "mstate i (boot sv) = mstate i sv"
  "sup (boot sv) = new_supervisor (sup_max (sup sv))" "resolving (boot sv) = []" "done_callbacks (boot sv) = []"
  by (simp_all add: boot_def initial_svc_def mstate_def)

lemma mirrored_hydrate:
  assumes m: "mirrored sv"
  shows "mirrored (hydrate (boot sv))"
proof -
  have ids: "distinct (map taskId (sort_key createdAt (db_tasks sv)))"
    using m by (simp add: mirrored_def distinct_map)
  have "\<exists>r. getRow i (hydrate (boot sv)) = Some r \<and> mirrors t r"
    if "cached i (hydrate (boot sv)) = Some t" for i t
  proof -
    have t: "t \<in> set (db_tasks sv)" "taskId t = i"
      using that find_Some_in[of "\<lambda>t. taskId t = i" "sort_key createdAt (db_tasks sv)" t] by (auto simp: cached_def)
    with mirrored_rows[OF m t(1)] show ?thesis by (auto simp: getRow_def)
  qed
  with ids m show ?thesis by (simp add: mirrored_def)
qed

lemma mirrored_insert:
  assumes m: "mirrored sv" and new: "getRow (taskId t) sv = None" and p: "pinnedAt t = None"
  shows "mirrored ((insertTask t sv)\<lparr>cache := cache sv @ [t]\<rparr>)"
proof -
  let ?r = "t\<lparr>t_skills := (if t_skills t = Some [] then None else t_skills t)\<rparr>"
  have nr: "taskId t \<notin> taskId ` set (db_tasks sv)"
    using new by (auto simp: getRow_def find_None)
  then have nc: "taskId t \<notin> taskId ` set (cache sv)"
    using m by (auto simp: mirrored_def)
  then have cn: "cached (taskId t) sv = None" unfolding cached_def find_None by (metis imageI)
  have g: "getRow i ((insertTask t sv)\<lparr>cache := cache sv @ [t]\<rparr>) =
      (if i = taskId t then Some ?r else getRow i sv)" for i
    using new by (auto simp: getRow_def insertTask_def find_append split: option.split)
  have c: "cached i ((insertTask t sv)\<lparr>cache := cache sv @ [t]\<rparr>) =
      (if i = taskId t then Some t else cached i sv)" for i
    using cn by (auto simp: cached_def find_append split: option.split)
  have "mirrors t (t\<lparr>t_skills := None\<rparr>)" "mirrors t t" using p by (simp_all add: mirrors_def)
  then show ?thesis
    using m nr nc unfolding mirrored_def g c by (simp add: insertTask_def)
qed

lemma insert_fields [simp]:
  "mstate i (insertTask t sv) = mstate i sv" "mstate i (sv\<lparr>cache := c\<rparr>) = mstate i sv"
  "sup (insertTask t sv) = sup sv" "resolving (insertTask t sv) = resolving sv"
  "done_callbacks (insertTask t sv) = done_callbacks sv"
  by (simp_all add: insertTask_def mstate_def)

lemma write_tables [simp]:
  "db_tasks (writeMessageState i s sv) = db_tasks sv" "cache (writeMessageState i s sv) = cache sv"
  "sup (writeMessageState i s sv) = sup sv" "resolving (writeMessageState i s sv) = resolving sv"
  "done_callbacks (writeMessageState i s sv) = done_callbacks sv"
  by (simp_all add: writeMessageState_def)

lemma mirrored_frames [simp]:
  "mirrored (sv\<lparr>sup := a\<rparr>) = mirrored sv" "mirrored (sv\<lparr>resolving := b\<rparr>) = mirrored sv"
  "mirrored (sv\<lparr>done_callbacks := c\<rparr>) = mirrored sv"
  "mirrored (sv\<lparr>sup := a, done_callbacks := c\<rparr>) = mirrored sv"
  "mirrored (release_slot i sv) = mirrored sv" "mirrored (writeMessageState i s sv) = mirrored sv"
  by (rule mirrored_frame; simp add: release_slot_def)+

lemma service_ok_sup [simp]:
  "service_ok S0 I0 (sv\<lparr>sup := a\<rparr>) = service_ok S0 I0 sv"
  "service_ok S0 I0 (sv\<lparr>resolving := b\<rparr>) = service_ok S0 I0 sv"
  "service_ok S0 I0 (sv\<lparr>done_callbacks := c\<rparr>) = service_ok S0 I0 sv"
  "service_ok S0 I0 (release_slot i sv) = service_ok S0 I0 sv"
  by (simp_all add: service_ok_def release_slot_def mstate_def mirrored_frame[of "sv\<lparr>sup := release i (sup sv)\<rparr>" sv])

lemma service_ok_started [simp]: "service_ok S0 I0 (sv\<lparr>sup := a, done_callbacks := c\<rparr>) = service_ok S0 I0 sv"
  by (simp add: service_ok_def mstate_def)

interpretation record_laws: service_invariant P live "service_ok S0 I0" "service_ok S0 I0" for P live S0 I0
proof unfold_locales
  fix sv sv' t i s
  show "service_ok S0 I0 sv \<Longrightarrow> queue_inv (mstate i sv)" by (simp add: service_ok_def)
  show "service_ok S0 I0 sv \<Longrightarrow> step_ok (mstate i sv) s \<Longrightarrow> service_ok S0 I0 (writeMessageState i s sv)"
    by (auto simp: service_ok_def step_ok_def intro: evolves_trans)
  show "service_ok S0 I0 sv \<Longrightarrow> coherent sv sv' \<Longrightarrow> service_ok S0 I0 sv'"
    unfolding service_ok_def coherent_def core_same_def by (metis set_map)
  show "service_ok S0 I0 sv \<Longrightarrow> getRow (taskId t) sv = None \<Longrightarrow> pinnedAt t = None \<Longrightarrow>
      service_ok S0 I0 ((insertTask t sv)\<lparr>cache := cache sv @ [t]\<rparr>)"
    by (simp add: service_ok_def mirrored_insert) (auto simp: insertTask_def)
  show "service_ok S0 I0 (sv\<lparr>cache := cache sv @ [t]\<rparr>)"
    if "service_ok S0 I0 sv" "getRow (taskId t) sv = Some t" "cached (taskId t) sv = None"
  proof -
    have "taskId t \<in> taskId ` set (db_tasks sv)"
      using that(2) find_Some_in[of "\<lambda>r. taskId r = taskId t" "db_tasks sv" t] by (auto simp: getRow_def)
    moreover have "taskId t \<notin> taskId ` set (cache sv)"
      using that(3) by (auto simp: cached_def find_None)
    ultimately show ?thesis using that(1) by (auto simp: service_ok_def mirrored_def)
  qed
  show "service_ok S0 I0 sv \<Longrightarrow> service_ok S0 I0 (hydrate (boot sv))"
    by (simp add: service_ok_def mirrored_hydrate)
qed simp_all

lemma mirrored_initial: "mirrored (initial_svc n)"
  by (simp add: mirrored_def initial_svc_def cached_def)

lemma mstate_initial [simp]: "mstate i (initial_svc n) = empty_message_state"
  by (simp add: mstate_def initial_svc_def)

definition reachable :: "ports \<Rightarrow> bool \<Rightarrow> nat \<Rightarrow> svc \<Rightarrow> bool" where
  "reachable P live cap sv \<longleftrightarrow> (task_step P live)\<^sup>*\<^sup>* (initial_svc cap) sv"

lemma reachable_ok: "reachable P live cap sv \<Longrightarrow> service_ok (\<lambda>_. empty_message_state) {} sv"
  unfolding reachable_def
  by (erule record_laws.q_steps) (simp add: service_ok_def mirrored_initial)

lemma steps_ok:
  "reachable P live cap sv \<Longrightarrow> (task_step P live)\<^sup>*\<^sup>* sv sv' \<Longrightarrow> service_ok (\<lambda>i. mstate i sv) (ident ` set (db_tasks sv)) sv'"
  using reachable_ok[of P live cap sv] by (elim record_laws.q_steps) (simp add: service_ok_def)

section \<open>Slots\<close>

text \<open>The turns that occupy a slot: started processes, turns resolving skills, granted waiters.\<close>

definition held :: "svc \<Rightarrow> nat" where
  "held sv = length (done_callbacks sv) + length (resolving sv) + length (sup_granted (sup sv))"

text \<open>\<open>n\<close> more slots are held by the step in progress.\<close>

definition slots_ok :: "ports \<Rightarrow> bool \<Rightarrow> nat \<Rightarrow> nat \<Rightarrow> svc \<Rightarrow> bool" where
  "slots_ok P live cap n sv \<longleftrightarrow> (\<forall>i. queue_inv (mstate i sv)) \<and> sup_max (sup sv) = cap \<and>
     (\<not> independent P \<longrightarrow> held sv + n \<le> sup_active (sup sv) \<and> (\<not> live \<longrightarrow> sup_active (sup sv) \<le> cap))"

lemma slots_frames:
  "held (writeMessageState i s sv) = held sv" "coherent sv sv' \<Longrightarrow> held sv' = held sv"
  "coherent sv sv' \<Longrightarrow> sup sv' = sup sv" "coherent sv sv' \<Longrightarrow> mstate i sv' = mstate i sv"
  by (auto simp: held_def coherent_def core_same_def)

lemma slots_release: "slots_ok P live cap (Suc n) sv \<Longrightarrow> slots_ok P live cap n (release_slot i sv)"
  by (auto simp: slots_ok_def release_slot_def release_def held_def Let_def split: list.splits)

interpretation slot_laws: service_invariant P live "slots_ok P live cap 0" "slots_ok P live cap 1" for P live cap
proof unfold_locales
  fix sv sv' t i s j sp h
  show "slots_ok P live cap 0 sv \<Longrightarrow> queue_inv (mstate i sv)" "slots_ok P live cap 1 sv \<Longrightarrow> queue_inv (mstate i sv)"
    by (simp_all add: slots_ok_def)
  show "slots_ok P live cap 0 sv \<Longrightarrow> step_ok (mstate i sv) s \<Longrightarrow> slots_ok P live cap 0 (writeMessageState i s sv)"
    "slots_ok P live cap 1 sv \<Longrightarrow> step_ok (mstate i sv) s \<Longrightarrow> slots_ok P live cap 1 (writeMessageState i s sv)"
    by (auto simp: slots_ok_def step_ok_def slots_frames)
  show "slots_ok P live cap 0 sv \<Longrightarrow> coherent sv sv' \<Longrightarrow> slots_ok P live cap 0 sv'"
    "slots_ok P live cap 1 sv \<Longrightarrow> coherent sv sv' \<Longrightarrow> slots_ok P live cap 1 sv'"
    by (auto simp: slots_ok_def slots_frames)
  show "slots_ok P live cap 0 sv \<Longrightarrow> independent P \<Longrightarrow> slots_ok P live cap 1 sv"
    by (simp add: slots_ok_def)
  show "slots_ok P live cap 0 sv \<Longrightarrow> tryAcquire (sup sv) = (True, sp) \<Longrightarrow> slots_ok P live cap 1 (sv\<lparr>sup := sp\<rparr>)"
    by (auto simp: slots_ok_def tryAcquire_def held_def split: if_splits)
  show "slots_ok P live cap 0 sv \<Longrightarrow> \<not> fst (tryAcquire (sup sv)) \<Longrightarrow> slots_ok P live cap 0 (sv\<lparr>sup := acquire j (sup sv)\<rparr>)"
    by (auto simp: slots_ok_def tryAcquire_def acquire_def held_def split: if_splits)
  show "slots_ok P live cap 1 sv \<Longrightarrow> slots_ok P live cap 0 (release_slot i sv)"
    by (simp add: slots_release)
  show "slots_ok P live cap 1 sv \<Longrightarrow> slots_ok P live cap 0 (sv\<lparr>resolving := resolving sv @ [j]\<rparr>)"
    by (auto simp: slots_ok_def held_def)
  show "slots_ok P live cap 1 sv \<Longrightarrow>
      slots_ok P live cap 0 (sv\<lparr>sup := register i h (sup sv), done_callbacks := done_callbacks sv @ [(i, h)]\<rparr>)"
    by (auto simp: slots_ok_def held_def register_def mstate_def)
  show "slots_ok P live cap 0 sv \<Longrightarrow> take_granted (sup sv) = Some (j, sp) \<Longrightarrow> slots_ok P live cap 1 (sv\<lparr>sup := sp\<rparr>)"
    by (auto simp: slots_ok_def held_def take_granted_def split: list.splits)
  show "slots_ok P live cap 0 sv \<Longrightarrow> j \<in> set (resolving sv) \<Longrightarrow>
      slots_ok P live cap 1 (sv\<lparr>resolving := remove1 j (resolving sv)\<rparr>)"
    using Suc_pred[OF length_pos_if_in_set[of j "resolving sv"]] by (auto simp: slots_ok_def held_def length_remove1)
  show "slots_ok P live cap 0 sv \<Longrightarrow> (i, h) \<in> set (done_callbacks sv) \<Longrightarrow>
      slots_ok P live cap 1 (sv\<lparr>done_callbacks := remove1 (i, h) (done_callbacks sv)\<rparr>)"
    using Suc_pred[OF length_pos_if_in_set[of "(i, h)" "done_callbacks sv"]] by (auto simp: slots_ok_def held_def length_remove1)
  show "slots_ok P live cap 1 sv \<Longrightarrow> slots_ok P live cap 0 sv"
    by (auto simp: slots_ok_def)
  show "slots_ok P live cap 0 sv \<Longrightarrow> slots_ok P live cap 0 ((insertTask t sv)\<lparr>cache := cache sv @ [t]\<rparr>)"
    by (simp add: slots_ok_def held_def)
  show "slots_ok P live cap 0 sv \<Longrightarrow> slots_ok P live cap 0 (sv\<lparr>cache := cache sv @ [t]\<rparr>)"
    by (simp add: slots_ok_def held_def)
  show "slots_ok P live cap 0 sv \<Longrightarrow> slots_ok P live cap 0 (hydrate (boot sv))"
    by (simp add: slots_ok_def held_def new_supervisor_def)
  show "live \<Longrightarrow> slots_ok P live cap 0 sv \<Longrightarrow>
      slots_ok P live cap 0 (sv\<lparr>sup := reclaim i h (sup sv), done_callbacks := done_callbacks sv @ [(i, h)]\<rparr>)"
    by (auto simp: slots_ok_def held_def reclaim_def mstate_def)
qed

lemma reachable_slots: "reachable P live cap sv \<Longrightarrow> slots_ok P live cap 0 sv"
  unfolding reachable_def
  by (erule slot_laws.q_steps) (simp add: slots_ok_def held_def initial_svc_def[of cap] new_supervisor_def mstate_def)

end
