(* ===== verification/Demo.thy ===== *)
theory Demo
  imports Task_Invariants
begin

text \<open>
  A small concrete service on which the witnesses of the properties run: a backend that
  starts every turn, one repository, no attachments. \<open>demo\<close> runs a task in process and
  \<open>demo_remote\<close> is the same with a backend whose turns survive the server.
\<close>

definition demo_ports :: ports where
  "demo_ports = \<lparr>independent = False, saves_control = True, default_model = (\<lambda>_. None), default_effort = (\<lambda>_. None),
     runner_start = (\<lambda>rq sv. Inr (length (db_events sv))), handle_steer = (\<lambda>h t sv. False),
     handle_interrupt = (\<lambda>h sv. True), handle_approve = (\<lambda>h d sv. True), handle_send = (\<lambda>h. True),
     extract_images = (\<lambda>b. (b, [])), sanitize = (\<lambda>x. Inr x), store_images = (\<lambda>i x sv. Inr None),
     load_images = (\<lambda>i x sv. Inr None), project_prs = (\<lambda>es ps. ps), project_usage = (\<lambda>es u. u),
     digest_request = (\<lambda>r. sm_text r), uuid = (\<lambda>i n. i @ replicate n CHR 0x2E),
     findRepo = (\<lambda>r. Some \<lparr>rp_id = r, rp_path = ''/w'', rp_git = False\<rparr>),
     create_worktree = (\<lambda>r i. Inl (Js_Error ''no git'')), rebase_skills = (\<lambda>r w. cr_skills r),
     session_home = (\<lambda>a. ''/h''), emptyTranscriptHash = [], next_id = (\<lambda>sv. ''t''),
     checkpoint = (\<lambda>t. Inl (Js_Error ''none'')), resumeCommand = (\<lambda>t. ''resume'')\<rparr>"

definition demo_remote :: ports where
  "demo_remote = demo_ports\<lparr>independent := True\<rparr>"

definition demo_request :: "string \<Rightarrow> create_request" where
  "demo_request c = \<lparr>cr_clientRequestId = Some c, cr_repoId = ''r'', cr_agent = Claude, cr_prompt = ''go'',
     cr_title = None, cr_isolate = False, cr_images = None, cr_skills = None, cr_permission = None,
     cr_model = None, cr_effort = None\<rparr>"

definition demo_message :: "msg_mode \<Rightarrow> string \<Rightarrow> string option \<Rightarrow> submit_message" where
  "demo_message mo mid run = \<lparr>clientMessageId = mid, sm_mode = mo, sm_text = mid, sm_skills = None, sm_images = None,
     expectedRunId = run, sm_settings = None\<rparr>"

text \<open>One task, running its first turn, with a message waiting behind it.\<close>

definition demo0 :: svc where "demo0 = snd (createTask demo_ports (demo_request ''a'') 1 (initial_svc 1))"
definition demo1 :: svc where "demo1 = snd (submitMessage demo_ports ''t_a'' 2 (demo_message Mode_Queue ''m1'' None) demo0)"

text \<open>The first turn ends well and the waiting message is sent.\<close>

definition demo2 :: svc where
  "demo2 = turn_done demo_ports ''t_a'' (snd (hd (done_callbacks demo1))) 3
     (onRaw demo_ports ''t_a'' \<lparr>re_sessionId = Some ''s'', re_body = Ev_Result False ''ok''\<rparr> (Some 1) 3 demo1)"

lemma demo_reachable:
  "reachable demo_ports live 1 demo0" "reachable demo_ports live 1 demo1" "reachable demo_ports live 1 demo2"
proof -
  show 0: "reachable demo_ports live 1 demo0"
    unfolding reachable_def demo0_def by (rule r_into_rtranclp, rule T_Create)
  show 1: "reachable demo_ports live 1 demo1"
    using 0 unfolding reachable_def demo1_def by (rule rtranclp.rtrancl_into_rtrancl) (rule T_Submit)
  show "reachable demo_ports live 1 demo2"
    using 1 unfolding reachable_def demo2_def
    by (blast intro: rtranclp.rtrancl_into_rtrancl T_Raw T_TurnDone)
qed

end
