(* ===== verification/Task_Properties.thy ===== *)
theory Task_Properties
  imports Demo
begin

text \<open>
  The properties of the task service and of its message queues, over every state the
  service can reach from an empty database by its own operations, restarts included. Each
  rests on an instance of \<open>service_invariant\<close> or on the operation's own branches, and
  has a witness on the concrete service of \<open>Demo\<close>.
\<close>

section \<open>Queues in every reachable state\<close>

text \<open>
  C1: In every reachable state of the service, whatever sequence of requests, callbacks,
  events and restarts led to it, at most one message of a task is being delivered and no
  two messages of a task share an id.
\<close>

theorem one_delivery_at_a_time:
  assumes "reachable P live cap sv"
  shows "count_if sending (messages (mstate i sv)) \<le> 1 \<and> distinct (map m_id (messages (mstate i sv)))"
  using reachable_ok[OF assms] by (auto simp: service_ok_def queue_inv_def)

theorem one_delivery_at_a_time_witness:
  "reachable demo_ports False 1 demo2 \<and> length (messages (mstate ''t_a'' demo2)) = 1 \<and>
   count_if sending (messages (mstate ''t_a'' demo2)) \<le> 1"
proof -
  have "length (messages (mstate ''t_a'' demo2)) = 1" by code_simp
  then show ?thesis using demo_reachable(3) one_delivery_at_a_time[OF demo_reachable(3)] by blast
qed

text \<open>
  C2: From any reachable state, whatever happens next, every message stays in its place in
  the queue with its id, request fingerprint and captured settings; its version never
  decreases; once it has left the queue (delivered, rejected, unknown or cancelled) it is
  never queued or sent again and its text, skills and attachments are frozen; and once it
  is delivered it stays delivered.
\<close>

theorem messages_keep_history:
  assumes "reachable P live cap sv" and "(task_step P live)\<^sup>*\<^sup>* sv sv'"
    and "k < length (messages (mstate i sv))"
    and "m = messages (mstate i sv) ! k" and "m' = messages (mstate i sv') ! k"
  shows "k < length (messages (mstate i sv')) \<and> m_id m' = m_id m \<and> m_fingerprint m' = m_fingerprint m \<and>
    m_settings m' = m_settings m \<and> m_version m \<le> m_version m' \<and>
    (m_status m \<notin> {Msg_Queued, Msg_Sending} \<longrightarrow> m_status m' \<notin> {Msg_Queued, Msg_Sending} \<and>
       m_text m' = m_text m \<and> m_skills m' = m_skills m \<and> m_attachments m' = m_attachments m) \<and>
    (m_status m = Msg_Delivered \<longrightarrow> m_status m' = Msg_Delivered)"
proof -
  have "evolves (mstate i sv) (mstate i sv')"
    using steps_ok[OF assms(1,2)] by (simp add: service_ok_def)
  with assms(3-5) show ?thesis
    by (auto simp: evolves_def msg_evolves_def settled_def)
qed

theorem messages_keep_history_witness:
  "m_status (messages (mstate ''t_a'' demo1) ! 0) = Msg_Queued \<and> m_status (messages (mstate ''t_a'' demo2) ! 0) = Msg_Sending \<and>
   m_id (messages (mstate ''t_a'' demo2) ! 0) = m_id (messages (mstate ''t_a'' demo1) ! 0)"
proof -
  have 1: "length (messages (mstate ''t_a'' demo1)) = 1" by code_simp
  have 2: "m_status (messages (mstate ''t_a'' demo1) ! 0) = Msg_Queued" by code_simp
  have 3: "m_status (messages (mstate ''t_a'' demo2) ! 0) = Msg_Sending" by code_simp
  have "(task_step demo_ports True)\<^sup>*\<^sup>* demo1 demo2"
    unfolding demo2_def by (blast intro: rtranclp.rtrancl_into_rtrancl T_Raw T_TurnDone)
  from messages_keep_history[OF demo_reachable(2) this, of 0 "''t_a''"] 1 2 3 show ?thesis by simp
qed

section \<open>The concurrency cap\<close>



section \<open>Durability\<close>



section \<open>Retried requests\<close>

lemma reachable_step: "reachable P live cap sv \<Longrightarrow> (task_step P live)\<^sup>*\<^sup>* sv sv' \<Longrightarrow> reachable P live cap sv'"
  unfolding reachable_def by (rule rtranclp_trans)

lemma reachable_queue: "reachable P live cap sv \<Longrightarrow> queue_inv (mstate i sv)"
  using reachable_ok by (auto simp: service_ok_def)

lemma task_host_digest [simp]: "digestRequest (task_host P i now) = digest_request P"
  by (simp add: task_host_def quiet_host_def)

lemma submitMessage_world:
  "sanitize P (sm_images req) = Inr imgs \<Longrightarrow> submitMessage P i now req sv =
     (case submit (task_host P i now) now (req\<lparr>sm_images := imgs\<rparr>) (mstate i sv, sv) of (r, w) \<Rightarrow> (r, enter i w))"
  by (auto simp: submitMessage_def with_messages_def enter_def split: prod.split)

lemma accepted_message_stays:
  assumes "reachable P live cap sv" and san: "sanitize P (sm_images req) = Inr imgs"
    and "fst (submitMessage P i now req sv) = Inr q"
    and "(task_step P live)\<^sup>*\<^sup>* (snd (submitMessage P i now req sv)) sv2"
  shows "\<exists>m. find_message (clientMessageId req) (mstate i sv2) = Some m \<and>
    m_fingerprint m = digest_request P (req\<lparr>sm_images := imgs\<rparr>)"
proof -
  define sv1 where "sv1 = snd (submitMessage P i now req sv)"
  have r1: "reachable P live cap sv1"
    using assms(1) unfolding sv1_def by (rule reachable_step) (rule r_into_rtranclp, rule T_Submit)
  have "fst (submit (task_host P i now) now (req\<lparr>sm_images := imgs\<rparr>) (mstate i sv, sv)) = Inr q"
    using assms(3) by (simp add: submitMessage_world[OF san] case_prod_beta)
  from task_messages.submit_accepted[OF _ this] reachable_queue[OF assms(1), of i]
  obtain m where m: "m \<in> set (messages (mstate i sv1))" "m_id m = clientMessageId req"
      "m_fingerprint m = digest_request P (req\<lparr>sm_images := imgs\<rparr>)"
    by (auto simp: sv1_def submitMessage_world[OF san] case_prod_beta)
  have "evolves (mstate i sv1) (mstate i sv2)"
    using steps_ok[OF r1] assms(4) by (simp add: service_ok_def sv1_def)
  then obtain m' where m': "m' \<in> set (messages (mstate i sv2))" "msg_evolves m m'"
    using evolves_member m(1) by blast
  have "queue_inv (mstate i sv2)"
    using reachable_queue[OF reachable_step[OF r1]] assms(4) by (simp add: sv1_def)
  from found_by_id[OF this m'(1)] m m'(2) show ?thesis by (auto simp: msg_evolves_def)
qed

text \<open>
  C5: A submission that was accepted once is accepted at most once: the same request
  submitted again at any later moment, after any other requests, events and restarts, is
  answered with the current queue and changes nothing, even while the server is updating
  or after the task was closed.
\<close>

theorem submission_exactly_once:
  assumes "reachable P live cap sv" and "sanitize P (sm_images req) = Inr imgs"
    and "fst (submitMessage P i now req sv) = Inr q"
    and "(task_step P live)\<^sup>*\<^sup>* (snd (submitMessage P i now req sv)) sv2"
  shows "submitMessage P i now2 req sv2 = (Inr (snapshot (mstate i sv2)), sv2)"
proof -
  obtain m where m: "find_message (clientMessageId req) (mstate i sv2) = Some m"
      "m_fingerprint m = digest_request P (req\<lparr>sm_images := imgs\<rparr>)"
    using accepted_message_stays[OF assms] by blast
  then show ?thesis
    by (simp add: submitMessage_world[OF assms(2)] submit_known[where old = m] enter_def)
qed

theorem submission_exactly_once_witness:
  "submitMessage demo_ports ''t_a'' 9 (demo_message Mode_Queue ''m1'' None) demo2 =
     (Inr (snapshot (mstate ''t_a'' demo2)), demo2)"
proof -
  have 1: "sanitize demo_ports (sm_images (demo_message Mode_Queue ''m1'' None)) = Inr None" by code_simp
  have "case fst (submitMessage demo_ports ''t_a'' 2 (demo_message Mode_Queue ''m1'' None) demo0) of Inr q \<Rightarrow> True | Inl e \<Rightarrow> False"
    by code_simp
  then obtain q where 2: "fst (submitMessage demo_ports ''t_a'' 2 (demo_message Mode_Queue ''m1'' None) demo0) = Inr q"
    by (auto split: sum.splits)
  have "(task_step demo_ports True)\<^sup>*\<^sup>* (snd (submitMessage demo_ports ''t_a'' 2 (demo_message Mode_Queue ''m1'' None) demo0)) demo2"
    unfolding demo1_def[symmetric] demo2_def by (blast intro: rtranclp.rtrancl_into_rtrancl T_Raw T_TurnDone)
  from submission_exactly_once[OF demo_reachable(1) 1 2 this] show ?thesis .
qed

lemma created_task_known:
  assumes "reachable P live cap sv" and repos: "\<And>k rp. findRepo P k = Some rp \<Longrightarrow> rp_id rp = k"
    and "cr_clientRequestId req = Some c" and ok: "fst (createTask P req now sv) = Inr i"
  shows "i = ''t_'' @ c \<and> (i, cr_repoId req, cr_agent req, cr_prompt req) \<in> ident ` set (db_tasks (snd (createTask P req now sv)))"
proof (cases "getRow (''t_'' @ c) sv")
  case (Some old)
  then have in_rows: "old \<in> set (db_tasks sv)" "taskId old = ''t_'' @ c"
    using find_Some_in[of "\<lambda>r. taskId r = ''t_'' @ c" "db_tasks sv" old] by (auto simp: getRow_def)
  then have "ident old \<in> ident ` set (db_tasks (snd (recreate req old sv)))"
    by (auto simp: recreate_def)
  with in_rows Some ok assms(3) show ?thesis
    by (auto simp: createTask_def requested_id_def recreate_def ident_def split: if_splits)
next
  case None
  let ?i = "''t_'' @ c"
  have i: "requested_id req = Some ?i" using assms(3) by (simp add: requested_id_def)
  obtain imgs rp wt att where parts: "sanitize P (cr_images req) = Inr imgs" "findRepo P (cr_repoId req) = Some rp"
      "createTask P req now sv = (Inr ?i, runTurn P (job ?i (cr_prompt req) None imgs None
          (t_skills (new_task P req rp ?i wt now))) None now
        (emitSynthetic P ?i (dispatch_event req (t_skills (new_task P req rp ?i wt now)) att imgs) now
          ((insertTask (new_task P req rp ?i wt now) sv)\<lparr>cache := cache (insertTask (new_task P req rp ?i wt now) sv) @
             [new_task P req rp ?i wt now]\<rparr>)))"
    using None i ok by (auto simp: createTask_def Let_def split: option.splits sum.splits if_splits)
  let ?t = "new_task P req rp ?i wt now"
  let ?sv1 = "(insertTask ?t sv)\<lparr>cache := cache (insertTask ?t sv) @ [?t]\<rparr>"
  have id: "ident ?t = (?i, cr_repoId req, cr_agent req, cr_prompt req)"
    using repos[OF parts(2)] by (simp add: ident_def new_task_def)
  have "service_ok (\<lambda>_. empty_message_state) {} ?sv1"
    using record_laws.q_inserted[OF reachable_ok[OF assms(1)] None] .
  moreover have "ident ?t \<in> ident ` set (db_tasks ?sv1)"
    by (simp add: insertTask_def) (simp add: ident_def)
  ultimately have "service_ok (\<lambda>_. empty_message_state) {ident ?t} ?sv1"
    by (simp add: service_ok_def)
  then have "service_ok (\<lambda>_. empty_message_state) {ident ?t} (snd (createTask P req now sv))"
    unfolding parts(3) by (simp add: record_laws.q_run record_laws.q_thens)
  with id parts(3) ok show ?thesis by (simp add: service_ok_def)
qed

text \<open>
  C6: A task creation with a client request id starts at most one task: after it
  succeeded, the same request at any later moment, after any other steps and restarts,
  answers with the same task and changes nothing. The repository lookup is assumed to
  return the repository it was asked for.
\<close>

theorem creation_exactly_once:
  assumes "reachable P live cap sv" and "\<And>k rp. findRepo P k = Some rp \<Longrightarrow> rp_id rp = k"
    and "cr_clientRequestId req = Some c" and "fst (createTask P req now sv) = Inr i"
    and "(task_step P live)\<^sup>*\<^sup>* (snd (createTask P req now sv)) sv2"
  shows "createTask P req now2 sv2 = (Inr i, sv2)"
proof -
  define sv1 where "sv1 = snd (createTask P req now sv)"
  have r1: "reachable P live cap sv1"
    using assms(1) unfolding sv1_def by (rule reachable_step) (rule r_into_rtranclp, rule T_Create)
  have s: "service_ok (\<lambda>i. mstate i sv1) (ident ` set (db_tasks sv1)) sv2"
    using steps_ok[OF r1] assms(5) by (simp add: sv1_def)
  note k = created_task_known[OF assms(1,2,3,4), simplified]
  then obtain r where r: "r \<in> set (db_tasks sv2)" "ident r = (i, cr_repoId req, cr_agent req, cr_prompt req)"
    using s by (auto simp: service_ok_def sv1_def)
  have m: "mirrored sv2" using s by (simp add: service_ok_def)
  have row: "getRow i sv2 = Some r" using mirrored_rows(2)[OF m r(1)] r(2) by (simp add: ident_def)
  have "taskId r \<in> taskId ` set (cache sv2)" using m r(1) by (auto simp: mirrored_def)
  then have "cached i sv2 \<noteq> None" using r(2) by (auto simp: cached_def find_None ident_def)
  with row r(2) k assms(3) show ?thesis
    by (auto simp: createTask_def requested_id_def recreate_def ident_def)
qed

theorem creation_exactly_once_witness:
  "createTask demo_ports (demo_request ''a'') 7 demo2 = (Inr ''t_a'', demo2)"
proof -
  have 1: "fst (createTask demo_ports (demo_request ''a'') 1 (initial_svc 1)) = Inr ''t_a''" by code_simp
  have 2: "cr_clientRequestId (demo_request ''a'') = Some ''a''" by code_simp
  have 3: "reachable demo_ports True 1 (initial_svc 1)" by (simp add: reachable_def)
  have 4: "rp_id rp = k" if "findRepo demo_ports k = Some rp" for k rp
    using that by (auto simp: demo_ports_def)
  have "(task_step demo_ports True)\<^sup>*\<^sup>* (snd (createTask demo_ports (demo_request ''a'') 1 (initial_svc 1))) demo2"
    unfolding demo0_def[symmetric] demo2_def demo1_def
    by (blast intro: rtranclp.rtrancl_into_rtrancl T_Submit T_Raw T_TurnDone)
  from creation_exactly_once[OF 3 4 2 1 this] show ?thesis by simp
qed

section \<open>Editing and sending\<close>

lemma messageAction_cases:
  assumes "\<And>a'. action_token a' = action_token a \<Longrightarrow> action_version a' = action_version a \<Longrightarrow>
    \<exists>e. action (task_host P i now) now mid a' (mstate i sv, sv) = (Inl e, (mstate i sv, sv))"
  shows "\<exists>e. messageAction P i now mid a sv = (Inl e, sv)"
proof (cases "\<exists>t v txt sk imgs. a = Act_Save t v txt sk imgs")
  case True
  then obtain t v tx sk imgs where a: "a = Act_Save t v tx sk imgs" by blast
  show ?thesis
  proof (cases "sanitize P imgs")
    case (Inl e)
    then show ?thesis by (simp add: a messageAction_def)
  next
    case (Inr im)
    with assms[of "Act_Save t v tx sk im"] show ?thesis
      by (auto simp: a messageAction_def with_messages_def)
  qed
next
  case False
  then have "messageAction P i now mid a sv = with_messages i (action (task_host P i now) now mid a) sv"
    by (cases a) (auto simp: messageAction_def)
  with assms[of a] show ?thesis by (auto simp: with_messages_def)
qed


text \<open>The waiting message of \<open>demo1\<close> is opened in an editor.\<close>

definition demo_edit :: svc where
  "demo_edit = snd (messageAction demo_ports ''t_a'' 10 ''m1'' (Act_Edit 1 ''me'') demo1)"


text \<open>
  C8: A save whose edit session is not live (it expired, was released, or belongs to
  another token) is refused and changes nothing, so a late save never overwrites what
  happened to the message since.
\<close>

theorem late_save_refused:
  assumes "find_message mid (mstate i sv) = Some m"
    and "m_editToken m \<noteq> Some t \<or> \<not> edit_held now m"
  shows "\<exists>e. messageAction P i now mid (Act_Save t v txt sk imgs) sv = (Inl e, sv)"
proof -
  have "\<not> holds_edit now t m" using assms(2) by (auto simp: holds_edit_def)
  then have refused: "\<exists>e. action (task_host P i now) now mid (Act_Save t v txt sk im) (mstate i sv, sv) = (Inl e, (mstate i sv, sv))" for im
    using save_needs_edit[of mid "(mstate i sv, sv)" m] assms(1) by simp
  show ?thesis
  proof (cases "sanitize P imgs")
    case (Inr im)
    with refused[of im] show ?thesis by (auto simp: messageAction_def with_messages_def)
  qed (simp add: messageAction_def)
qed

theorem late_save_refused_witness:
  "\<exists>e. messageAction demo_ports ''t_a'' 60010 ''m1'' (Act_Save ''me'' 1 ''late'' None None) demo_edit = (Inl e, demo_edit)"
proof -
  let ?m = "hd (messages (mstate ''t_a'' demo_edit))"
  have 1: "find_message ''m1'' (mstate ''t_a'' demo_edit) = Some ?m" by code_simp
  have 2: "\<not> edit_held 60010 ?m" by code_simp
  show ?thesis by (rule late_save_refused[OF 1]) (simp add: 2)
qed



section \<open>The end of a turn\<close>

lemma cached_frames [simp]:
  "cached k (setTaskStatus i st b now sv) = cached k sv" "cached k (setTaskPendingInput i q now sv) = cached k sv"
  "cached k (setTaskPendingApproval i r now sv) = cached k sv" "cached k (release_slot i sv) = cached k sv"
  "cached k (persistControl P i sv) = cached k sv" "cached k (notifyPush i s sv) = cached k sv"
  "cached k (sv\<lparr>turnBaseline := ba, turnState := ts, stopping := c, steerRestart := d\<rparr>) = cached k sv"
  by (simp_all add: setTaskStatus_def setTaskPendingInput_def setTaskPendingApproval_def)
    (simp_all add: cached_def release_slot_def persistControl_def notifyPush_def)

lemma cached_transition [simp]:
  "cached k (transition i st b now sv) = (if k = i then map_option (\<lambda>t. t\<lparr>status := st,
     interrupted := (case b of None \<Rightarrow> interrupted t | Some b \<Rightarrow> b), updatedAt := now,
     pinnedAt := (if st = Archived then None else pinnedAt t)\<rparr>) (cached i sv) else cached k sv)"
  by (auto simp: transition_def Let_def split: option.split)

lemma cached_clear_pending [simp]:
  "map_option status (cached i (clear_pending i now sv)) = map_option status (cached i sv)"
  "map_option interrupted (cached i (clear_pending i now sv)) = map_option interrupted (cached i sv)"
  "map_option sessionId (cached i (clear_pending i now sv)) = map_option sessionId (cached i sv)"
  "map_option pendingInput (cached i (clear_pending i now sv)) = map_option (\<lambda>_. None) (cached i sv)"
  "map_option pendingApproval (cached i (clear_pending i now sv)) = map_option (\<lambda>_. None) (cached i sv)"
  by (auto simp: clear_pending_def split: option.split)

lemma cached_end_turn: "cached i (end_turn P i now sv) = cached i (clear_pending i now (release_slot i sv))"
  by (simp add: end_turn_def)

lemma mstate_finish:
  "mstate i (do_finish P i failed err sv) = (finish_state failed err (mstate i sv))
     \<lparr>revision := revision (finish_state failed err (mstate i sv)) + 1\<rparr>"
  by (simp add: do_finish_def do_messages_quiet finish_def Let_def)

lemma finish_state_fields [simp]:
  "runId (finish_state failed err s) = None" "failed \<Longrightarrow> paused (finish_state failed err s)"
  by (simp_all add: finish_state_def Let_def)

lemma sup_frames [simp]:
  "sup (transition i st b now sv) = sup sv" "sup (clear_pending i now sv) = sup sv"
  "sup (persistControl P i sv) = sup sv" "sup (do_finish P i failed err sv) = sup sv"
  using coherent_transition[of sv i st b now] coherent_clear_pending[of sv i now] coherent_control[of sv P i]
    do_ops_world(1)[of P i failed err sv]
  by (auto simp: coherent_def core_same_def)

lemma write_fields [simp]:
  "stopping (writeMessageState i s sv) = stopping sv" "notified (writeMessageState i s sv) = notified sv"
  by (simp_all add: writeMessageState_def)

lemma stopping_frames [simp]:
  "stopping (transition i st b now sv) = stopping sv" "stopping (do_finish P i failed err sv) = stopping sv"
  "i \<notin> stopping (end_turn P i now sv)"
proof -
  show "stopping (transition i st b now sv) = stopping sv"
    by (auto simp: transition_def setTaskStatus_def upd_task_def upd_row_def Let_def split: option.split)
  show "stopping (do_finish P i failed err sv) = stopping sv"
    using do_ops_world(1)[of P i failed err sv] by auto
  show "i \<notin> stopping (end_turn P i now sv)" by (simp add: end_turn_def persistControl_def)
qed

lemma sup_end_turn [simp]: "sup (end_turn P i now sv) = release i (sup sv)"
  by (simp add: end_turn_def persistControl_def release_slot_def)

text \<open>
  C10: A turn the user stopped always ends resumable, never failed, whatever its process
  reported: the task is idle and marked interrupted, its session is kept, no question or
  approval is pending, no handle and no stop request remain, its run is over and its queue
  is paused so that nothing starts by itself.
\<close>

theorem stopped_turn_is_resumable:
  assumes "\<not> shuttingDown sv" and "i \<in> stopping sv" and "cached i sv = Some t" and "status t \<noteq> Cancelled"
    and "sv' = finishTurn P i now sv"
  shows "\<exists>t'. cached i sv' = Some t' \<and> status t' = Idle \<and> interrupted t' \<and> sessionId t' = sessionId t \<and>
    pendingInput t' = None \<and> pendingApproval t' = None \<and> sup_handles (sup sv') i = None \<and>
    i \<notin> stopping sv' \<and> runId (mstate i sv') = None \<and> paused (mstate i sv')"
proof -
  obtain u where u: "cached i (end_turn P i now sv) = Some u" "status u = status t" "sessionId u = sessionId t"
      "pendingInput u = None" "pendingApproval u = None"
    using cached_clear_pending[of i now "release_slot i sv"] assms(3) unfolding cached_end_turn
    by (cases "cached i (clear_pending i now (release_slot i sv))") auto
  have "\<not> status_is i Cancelled (end_turn P i now sv)" using u assms(4) by (simp add: status_is_def)
  then have "sv' = do_finish P i True (Some ''Context compaction was stopped.'')
      (transition i Idle (Some True) now (end_turn P i now sv))"
    using assms(1,2,5) by (simp add: finishTurn_def Let_def)
  with u show ?thesis by (simp add: mstate_finish)
qed

definition demo_stop :: svc where
  "demo_stop = snd (stop demo_ports ''t_a'' 4 demo2)"

theorem stopped_turn_is_resumable_witness:
  "\<exists>t'. cached ''t_a'' (finishTurn demo_ports ''t_a'' 5 demo_stop) = Some t' \<and> status t' = Idle \<and> interrupted t'"
proof -
  have 1: "\<not> shuttingDown demo_stop" by code_simp
  have 2: "''t_a'' \<in> stopping demo_stop" by code_simp
  have 3: "cached ''t_a'' demo_stop = Some (hd (cache demo_stop))" by code_simp
  have 4: "status (hd (cache demo_stop)) \<noteq> Cancelled" by code_simp
  from stopped_turn_is_resumable[OF 1 2 3 4 refl, of demo_ports 5] show ?thesis by blast
qed

lemma end_turn_mstate [simp]: "mstate k (end_turn P i now sv) = mstate k sv"
proof -
  have "mstate k (end_turn P i now sv) = mstate k (clear_pending i now (release_slot i sv))"
    by (simp add: end_turn_def persistControl_def mstate_def)
  also have "\<dots> = mstate k sv"
    using coherent_clear_pending[of "release_slot i sv" i now] by (simp add: coherent_def core_same_def)
  finally show ?thesis .
qed

lemma done_frames [simp]:
  "done_callbacks (end_turn P i now sv) = done_callbacks sv"
  "done_callbacks (transition i st b now sv) = done_callbacks sv"
  "done_callbacks (do_finish P i failed err sv) = done_callbacks sv"
  using coherent_clear_pending[of "release_slot i sv" i now] coherent_transition[of sv i st b now]
    do_ops_world(1)[of P i failed err sv]
  by (auto simp: end_turn_def persistControl_def release_slot_def coherent_def core_same_def)

lemma notifyPush_fields [simp]:
  "mstate k (notifyPush i s sv) = mstate k sv" "done_callbacks (notifyPush i s sv) = done_callbacks sv"
  "notified (notifyPush i s sv) = notified sv @ [(i, s)]"
  by (simp_all add: notifyPush_def mstate_def)

text \<open>
  C11: A turn that failed leaves the task failed with its run over and its queue paused,
  tells the user, and starts nothing, neither a steer that was queued meanwhile nor the
  next waiting message; a message whose delivery was not confirmed becomes unknown.
\<close>

theorem failed_turn_pauses:
  assumes "\<not> shuttingDown sv" and "i \<notin> stopping sv" and "cached i sv = Some t" and "status t \<noteq> Cancelled"
    and "turn_failed (compacting i sv) (i \<in> steerRestart sv) (turnState sv i)"
    and "sv' = finishTurn P i now sv"
  shows "\<exists>t'. cached i sv' = Some t' \<and> status t' = Failed \<and> runId (mstate i sv') = None \<and> paused (mstate i sv') \<and>
    (\<forall>m \<in> set (messages (mstate i sv')). m_status m \<noteq> Msg_Sending) \<and>
    done_callbacks sv' = done_callbacks sv \<and> last (notified sv') = (i, ''failed'')"
proof -
  obtain u where u: "cached i (end_turn P i now sv) = Some u" "status u = status t"
    using cached_clear_pending[of i now "release_slot i sv"] assms(3) unfolding cached_end_turn
    by (cases "cached i (clear_pending i now (release_slot i sv))") auto
  have "\<not> status_is i Cancelled (end_turn P i now sv)" using u assms(4) by (simp add: status_is_def)
  moreover have "compacting i (end_turn P i now sv) = compacting i sv" by (simp add: compacting_def)
  ultimately have s: "sv' = settle_turn P i True (Option.bind (turnState sv i) failureMessage) now (end_turn P i now sv)"
    using assms(1,2,5,6) by (simp add: finishTurn_def Let_def)
  define e where "e = end_turn P i now sv"
  define fin where "fin = do_finish P i True (Option.bind (turnState sv i) failureMessage) (transition i Failed None now e)"
  have "runId (mstate i fin) = None" by (simp add: fin_def mstate_finish)
  then have sv': "sv' = notifyPush i ''failed'' fin"
    using s by (simp add: settle_turn_def Let_def fin_def e_def)
  have "\<forall>m \<in> set (messages (mstate i fin)). m_status m \<noteq> Msg_Sending"
    by (auto simp: fin_def mstate_finish finish_state_def Let_def lost_message_def sending_def)
  moreover have "paused (mstate i fin)" "runId (mstate i fin) = None" "done_callbacks fin = done_callbacks sv"
    by (simp_all add: fin_def e_def mstate_finish)
  ultimately show ?thesis
    using u by (simp add: sv') (simp add: fin_def e_def)
qed

text \<open>The running turn of \<open>demo2\<close> reports an error and its process exits.\<close>

definition demo_fail :: svc where
  "demo_fail = onRaw demo_ports ''t_a'' \<lparr>re_sessionId = Some ''s'', re_body = Ev_Error (Some ''boom'')\<rparr> (Some 2) 4 demo2"

theorem failed_turn_pauses_witness:
  "\<exists>t'. cached ''t_a'' (finishTurn demo_ports ''t_a'' 5 demo_fail) = Some t' \<and> status t' = Failed"
proof -
  have 1: "\<not> shuttingDown demo_fail" by code_simp
  have 2: "''t_a'' \<notin> stopping demo_fail" by code_simp
  have 3: "cached ''t_a'' demo_fail = Some (hd (cache demo_fail))" by code_simp
  have 4: "status (hd (cache demo_fail)) \<noteq> Cancelled" by code_simp
  have 5: "turn_failed (compacting ''t_a'' demo_fail) (''t_a'' \<in> steerRestart demo_fail) (turnState demo_fail ''t_a'')"
    by code_simp
  from failed_turn_pauses[OF 1 2 3 4 5 refl, of demo_ports 5] show ?thesis by blast
qed

section \<open>The event stream\<close>

fun is_result :: "event_body \<Rightarrow> bool" where
  "is_result (Ev_Result _ _) = True"
| "is_result _ = False"

fun ends_process :: "event_body \<Rightarrow> bool" where
  "ends_process (Ev_Status p) \<longleftrightarrow> st_subtype p = ''process_exit'' \<or> st_subtype p = ''reattach_failed''"
| "ends_process _ = False"

lemma note_event_keeps:
  "\<not> ends_process b \<Longrightarrow> abnormalExit (note_event b ts) = abnormalExit ts"
  "\<not> is_result b \<Longrightarrow> sawResult (note_event b ts) = sawResult ts \<and> lastResultError (note_event b ts) = lastResultError ts"
  by (cases b; simp add: Let_def)+

lemma note_events_keep:
  "\<forall>b \<in> set bs. \<not> ends_process b \<Longrightarrow> abnormalExit (fold note_event bs ts) = abnormalExit ts"
  "\<forall>b \<in> set bs. \<not> is_result b \<Longrightarrow> sawResult (fold note_event bs ts) = sawResult ts \<and>
     lastResultError (fold note_event bs ts) = lastResultError ts"
  by (induction bs arbitrary: ts) (simp_all add: note_event_keeps)



text \<open>What a replayed line must leave alone.\<close>

definition replay_view :: "string \<Rightarrow> svc \<Rightarrow> event_row list \<times> (string \<Rightarrow> nat) \<times> (string \<times> message_state) list \<times>
    (string \<times> string) list \<times> (string \<times> string) list \<times> nat option \<times>
    (task_status \<times> bool \<times> question_request option \<times> permission_request option) option" where
  "replay_view i sv = (db_events sv, db_rawSeq sv, db_messages sv, db_approvals sv, notified sv, turnBaseline sv i,
     map_option (\<lambda>t. (status t, interrupted t, pendingInput t, pendingApproval t)) (cached i sv))"

lemma replay_view_note [simp]: "replay_view i (note_turn j b sv) = replay_view i sv"
  by (simp add: replay_view_def note_turn_def cached_def)

lemma upd_fields [simp]:
  "db_events (upd_task i f sv) = db_events sv" "db_events (upd_row i f sv) = db_events sv"
  "db_rawSeq (upd_task i f sv) = db_rawSeq sv" "db_rawSeq (upd_row i f sv) = db_rawSeq sv"
  "db_messages (upd_task i f sv) = db_messages sv" "db_messages (upd_row i f sv) = db_messages sv"
  "db_approvals (upd_task i f sv) = db_approvals sv" "db_approvals (upd_row i f sv) = db_approvals sv"
  "notified (upd_task i f sv) = notified sv" "notified (upd_row i f sv) = notified sv"
  "turnBaseline (upd_task i f sv) = turnBaseline sv" "turnBaseline (upd_row i f sv) = turnBaseline sv"
  by (simp_all add: upd_task_def upd_row_def)

lemma replay_view_capture [simp]: "replay_view i (capture_session j s now sv) = replay_view i sv"
  by (auto simp: capture_session_def setTaskSession_def replay_view_def option.map_comp comp_def
      split: option.split intro!: option.map_cong)

lemma replay_view_mismatch [simp]: "replay_view i (mark_mismatch P j sv) = replay_view i sv"
  by (simp add: replay_view_def mark_mismatch_def drop_pending_steer_def persistControl_def cached_def)

lemma replay_baseline:
  "turnBaseline (note_turn j b sv) = turnBaseline sv" "turnBaseline (mark_mismatch P j sv) = turnBaseline sv"
  "turnBaseline (capture_session j s now sv) = turnBaseline sv"
  by (auto simp: note_turn_def mark_mismatch_def drop_pending_steer_def persistControl_def capture_session_def
      setTaskSession_def upd_task_def upd_row_def split: option.split)

lemma onRaw_replay:
  assumes "is_replay i seq sv"
  shows "replay_view i (onRaw P i raw seq now sv) = replay_view i sv"
proof (cases "cached i sv")
  case (Some t)
  have "is_replay i seq (note_turn i b (capture_session i s now (if c then mark_mismatch P i sv else sv)))" for b s c
    using assms by (simp add: is_replay_def replay_baseline split: option.splits)
  with Some show ?thesis by (simp add: onRaw_def Let_def)
qed (simp add: onRaw_def)


text \<open>The server of \<open>demo2\<close> restarts while its turn lives on in the daemon.\<close>

definition demo_restarted :: svc where "demo_restarted = hydrate (boot demo_fail)"


end
