(* ===== verification/Js_Text.thy ===== *)
theory Js_Text
  imports Prelude
begin

text \<open>
  The string operations of JavaScript that the modelled code uses: white space,
  \<open>trim\<close>, \<open>split\<close>, the digit classes of its regular expressions and the decimal
  notation of naturals in template strings. Strings are lists of code units below 256.
\<close>

section \<open>White space and splitting\<close>

definition js_space :: "char \<Rightarrow> bool" where
  "js_space c \<longleftrightarrow> (of_char c :: nat) \<in> {9, 10, 11, 12, 13, 32, 160}"

definition trim :: "string \<Rightarrow> string" where
  "trim s = rev (dropWhile js_space (rev (dropWhile js_space s)))"

text \<open>\<open>s.split(/\s+/)\<close>: a run of white space separates two pieces.\<close>

function split_spaces :: "string \<Rightarrow> string list" where
  "split_spaces s = (case dropWhile (\<lambda>c. \<not> js_space c) s of
      [] \<Rightarrow> [s]
    | c # rest \<Rightarrow> takeWhile (\<lambda>c. \<not> js_space c) s # split_spaces (dropWhile js_space rest))"
  by pat_completeness auto
termination
proof (relation "measure length")
  fix s rest :: string and c
  assume "dropWhile (\<lambda>c. \<not> js_space c) s = c # rest"
  then have "length rest < length s"
    using length_dropWhile_le[of "\<lambda>c. \<not> js_space c" s] by simp
  then show "(dropWhile js_space rest, s) \<in> measure length"
    using length_dropWhile_le[of js_space rest] by (simp add: le_less_trans)
qed simp

declare split_spaces.simps [simp del]

text \<open>\<open>s.split(c)\<close> for one separator character.\<close>

fun split_on :: "char \<Rightarrow> string \<Rightarrow> string list" where
  "split_on c [] = [[]]"
| "split_on c (x # xs) = (if x = c then [] # split_on c xs
    else (case split_on c xs of [] \<Rightarrow> [[x]] | p # ps \<Rightarrow> (x # p) # ps))"

lemma split_on_not_Nil [simp]: "split_on c s \<noteq> []"
  by (cases s) (auto split: list.split)

lemma split_on_none: "c \<notin> set s \<Longrightarrow> split_on c s = [s]"
  by (induction s) auto

lemma split_spaces_word: "\<forall>c \<in> set s. \<not> js_space c \<Longrightarrow> split_spaces s = [s]"
proof -
  assume "\<forall>c \<in> set s. \<not> js_space c"
  then have "dropWhile (\<lambda>c. \<not> js_space c) s = []" by simp
  then show ?thesis by (subst split_spaces.simps) (simp del: dropWhile_eq_Nil_conv)
qed

lemma split_spaces_cons:
  assumes "\<forall>c \<in> set w. \<not> js_space c" and "r \<noteq> []" and "\<not> js_space (hd r)"
  shows "split_spaces (w @ '' '' @ r) = w # split_spaces r"
proof -
  have sp: "js_space (CHR '' '')" by (simp add: js_space_def)
  have "dropWhile (\<lambda>c. \<not> js_space c) (w @ '' '' @ r) = CHR '' '' # r"
    "takeWhile (\<lambda>c. \<not> js_space c) (w @ '' '' @ r) = w"
    using assms(1) sp by (simp_all add: dropWhile_append2 takeWhile_append2)
  moreover have "dropWhile js_space r = r" using assms(2,3) by (cases r) auto
  ultimately show ?thesis by (subst split_spaces.simps) simp
qed

section \<open>Decimal numbers\<close>

definition is_digit :: "char \<Rightarrow> bool" where
  "is_digit c \<longleftrightarrow> 48 \<le> (of_char c :: nat) \<and> (of_char c :: nat) \<le> 57"

definition read_nat :: "string \<Rightarrow> nat" where
  "read_nat s = foldl (\<lambda>n c. n * 10 + (of_char c - 48)) 0 s"

fun show_nat :: "nat \<Rightarrow> string" where
  "show_nat n = (if n < 10 then [char_of (48 + n)] else show_nat (n div 10) @ [char_of (48 + n mod 10)])"

declare show_nat.simps [simp del]

text \<open>\<open>\d+\<close> at the front of a string: its number and what follows.\<close>

definition number :: "string \<Rightarrow> (nat \<times> string) option" where
  "number s = (let d = takeWhile is_digit s in if d = [] then None else Some (read_nat d, dropWhile is_digit s))"

lemma digit_of_char: "n < 10 \<Longrightarrow> (of_char (char_of (48 + n) :: char) :: nat) = 48 + n"
  by (simp add: of_char_of)

lemma is_digit_show: "c \<in> set (show_nat n) \<Longrightarrow> is_digit c"
proof (induction n rule: show_nat.induct)
  case (1 n)
  show ?case
  proof (cases "n < 10")
    case True
    then show ?thesis using 1(2) by (subst (asm) show_nat.simps) (simp add: is_digit_def digit_of_char)
  next
    case False
    have "is_digit (char_of (48 + n mod 10))" by (simp add: is_digit_def digit_of_char)
    then show ?thesis using 1 False by (subst (asm) (2) show_nat.simps) auto
  qed
qed

lemma read_show [simp]: "read_nat (show_nat n) = n"
proof (induction n rule: show_nat.induct)
  case (1 n)
  show ?case
  proof (cases "n < 10")
    case True
    then show ?thesis by (subst show_nat.simps) (simp add: read_nat_def digit_of_char)
  next
    case False
    then have "read_nat (show_nat n) = n div 10 * 10 + n mod 10"
      using 1 by (subst show_nat.simps) (simp add: read_nat_def digit_of_char)
    then show ?thesis by simp
  qed
qed

lemma show_nat_not_Nil [simp]: "show_nat n \<noteq> []"
  by (subst show_nat.simps) simp

lemma digit_no_space: "is_digit c \<Longrightarrow> \<not> js_space c"
  by (auto simp: is_digit_def js_space_def)

lemma number_show:
  "rest = [] \<or> \<not> is_digit (hd rest) \<Longrightarrow> number (show_nat n @ rest) = Some (n, rest)"
proof -
  assume r: "rest = [] \<or> \<not> is_digit (hd rest)"
  have "takeWhile is_digit (show_nat n @ rest) = show_nat n @ takeWhile is_digit rest"
    "dropWhile is_digit (show_nat n @ rest) = dropWhile is_digit rest"
    by (simp_all add: is_digit_show takeWhile_append2 dropWhile_append2)
  moreover have "takeWhile is_digit rest = [] \<and> dropWhile is_digit rest = rest"
    using r by (cases rest) auto
  ultimately show ?thesis by (simp add: number_def)
qed

section \<open>A fallible function over a list\<close>

fun map_result :: "('a \<Rightarrow> 'b result) \<Rightarrow> 'a list \<Rightarrow> 'b list result" where
  "map_result f [] = Inr []"
| "map_result f (x # xs) = bind_result (f x) (\<lambda>y. bind_result (map_result f xs) (\<lambda>ys. Inr (y # ys)))"

lemma map_result_Inr: "map_result f xs = Inr ys \<longleftrightarrow> list_all2 (\<lambda>x y. f x = Inr y) xs ys"
  by (induction xs arbitrary: ys) (auto simp: bind_result_Inr list_all2_Cons1)

end
