(* ===== verification/Schedule.thy ===== *)
theory Schedule
  imports Js_Text
begin

text \<open>
  The cron scheduler of routines (modules/routines/domain/schedule.ts): compiling a cadence
  preset, parsing a five-field cron expression and finding its next fire time. Instants are
  milliseconds of the epoch; the server's time zone is a parameter.
\<close>

section \<open>Cadence presets\<close>

datatype routine_preset = Hourly | Daily | Weekly | Weekdays | Manual | Custom

definition defaultHour :: int where "defaultHour = 9"
definition defaultDayOfWeek :: int where "defaultDayOfWeek = 1"

definition clampInt :: "int option \<Rightarrow> int \<Rightarrow> int \<Rightarrow> int \<Rightarrow> int" where
  "clampInt n lo hi dflt = (let v = (case n of Some i \<Rightarrow> i | None \<Rightarrow> dflt) in min hi (max lo v))"

definition show_int :: "int \<Rightarrow> string" where
  "show_int i = (if i < 0 then CHR ''-'' # show_nat (nat (- i)) else show_nat (nat i))"

text \<open>A missing hour or day, or one that is no integer, is \<open>None\<close>.\<close>

definition presetToCron :: "routine_preset \<Rightarrow> int option \<Rightarrow> int option \<Rightarrow> string option" where
  "presetToCron preset hour dayOfWeek = (
    let h = clampInt hour 0 23 defaultHour; d = clampInt dayOfWeek 0 6 defaultDayOfWeek in
    case preset of
      Hourly \<Rightarrow> Some ''0 * * * *''
    | Daily \<Rightarrow> Some (''0 '' @ show_int h @ '' * * *'')
    | Weekly \<Rightarrow> Some (''0 '' @ show_int h @ '' * * '' @ show_int d)
    | Weekdays \<Rightarrow> Some (''0 '' @ show_int h @ '' * * 1-5'')
    | Manual \<Rightarrow> None
    | Custom \<Rightarrow> None)"

section \<open>Parsing a cron expression\<close>

record cron_spec =
  cs_minute :: "nat set"
  cs_hour :: "nat set"
  cs_dom :: "nat set"
  cs_month :: "nat set"
  cs_dow :: "nat set"
  domRestricted :: bool
  dowRestricted :: bool

record cron_field =
  f_name :: string
  f_min :: nat
  f_max :: nat

definition FIELDS :: "cron_field list" where
  "FIELDS = [\<lparr>f_name = ''minute'', f_min = 0, f_max = 59\<rparr>, \<lparr>f_name = ''hour'', f_min = 0, f_max = 23\<rparr>,
    \<lparr>f_name = ''dom'', f_min = 1, f_max = 31\<rparr>, \<lparr>f_name = ''month'', f_min = 1, f_max = 12\<rparr>,
    \<lparr>f_name = ''dow'', f_min = 0, f_max = 7\<rparr>]"

text \<open>The groups of \<open>/^(\*|\d+(?:-\d+)?)(?:\/(\d+))?$/\<close>.\<close>

datatype cron_base = Star | Numbers nat "nat option"

fun match_step :: "cron_base \<Rightarrow> string \<Rightarrow> (cron_base \<times> nat option) option" where
  "match_step b [] = Some (b, None)"
| "match_step b (c # r) = (if c = CHR ''/''
    then (case number r of Some (n, []) \<Rightarrow> Some (b, Some n) | _ \<Rightarrow> None) else None)"

definition range_end :: "string \<Rightarrow> (nat \<times> string) option" where
  "range_end s = (case s of [] \<Rightarrow> None | c # r \<Rightarrow> if c = CHR ''-'' then number r else None)"

definition match_piece :: "string \<Rightarrow> (cron_base \<times> nat option) option" where
  "match_piece s = (case s of
      [] \<Rightarrow> None
    | c # rest \<Rightarrow> if c = CHR ''*'' then match_step Star rest else
        (case number s of None \<Rightarrow> None | Some (a, r) \<Rightarrow>
          (case range_end r of Some (b, r') \<Rightarrow> match_step (Numbers a (Some b)) r'
           | None \<Rightarrow> match_step (Numbers a None) r)))"

text \<open>\<open>for (let v = lo; v <= hi; v += step)\<close>, for the positive steps that reach it.\<close>

function stepped :: "nat \<Rightarrow> nat \<Rightarrow> nat \<Rightarrow> nat list" where
  "stepped lo hi step = (if step = 0 \<or> hi < lo then [] else lo # stepped (lo + step) hi step)"
  by pat_completeness auto
termination by (relation "measure (\<lambda>(lo, hi, step). Suc hi - lo)") auto

declare stepped.simps [simp del]

definition piece_values :: "cron_field \<Rightarrow> string \<Rightarrow> nat list result" where
  "piece_values f piece = (case match_piece piece of
      None \<Rightarrow> Inl (Js_Error (''bad cron '' @ f_name f @ '' field: '' @ [CHR 0x22] @ piece @ [CHR 0x22]))
    | Some (base, st) \<Rightarrow>
        let step = (case st of Some n \<Rightarrow> n | None \<Rightarrow> 1);
            (lo, hi) = (case base of
                Star \<Rightarrow> (f_min f, f_max f)
              | Numbers a (Some b) \<Rightarrow> (a, b)
              | Numbers a None \<Rightarrow> (a, if st \<noteq> None then f_max f else a))
        in if step < 1 then Inl (Js_Error (''bad cron step in '' @ [CHR 0x22] @ piece @ [CHR 0x22]))
        else if lo < f_min f \<or> f_max f < hi \<or> hi < lo
        then Inl (Js_Error (''cron '' @ f_name f @ '' out of range '' @ show_nat (f_min f) @ ''-'' @ show_nat (f_max f) @
            '': '' @ [CHR 0x22] @ piece @ [CHR 0x22]))
        else Inr (stepped lo hi step))"

definition parseField :: "string \<Rightarrow> cron_field \<Rightarrow> nat set result" where
  "parseField part f = bind_result (map_result (piece_values f) (split_on (CHR '','') part)) (\<lambda>vs. Inr (set (concat vs)))"

text \<open>7 is Sunday, which is 0.\<close>

definition sunday_zero :: "nat set \<Rightarrow> nat set" where
  "sunday_zero dow = (if 7 \<in> dow then insert 0 (dow - {7}) else dow)"

definition parseCron :: "string \<Rightarrow> cron_spec result" where
  "parseCron expr = (
    let parts = split_spaces (trim expr) in
    case parts of
      [m, h, d, mon, w] \<Rightarrow>
        bind_result (map_result (\<lambda>(part, f). parseField part f) (zip parts FIELDS)) (\<lambda>sets.
          Inr \<lparr>cs_minute = sets ! 0, cs_hour = sets ! 1, cs_dom = sets ! 2, cs_month = sets ! 3,
            cs_dow = sunday_zero (sets ! 4), domRestricted = d \<noteq> ''*'', dowRestricted = w \<noteq> ''*''\<rparr>)
    | _ \<Rightarrow> Inl (Js_Error (''cron must have 5 fields ('' @ [CHR 0x22] @ ''m h dom mon dow'' @ [CHR 0x22] @ ''), got '' @
        show_nat (length parts))))"

section \<open>Calendar fields of an instant\<close>

text \<open>
  \<open>Date\<close> in a time zone: the getters read the local time of an instant, and the setters
  turn a local time back into an instant.
\<close>

record zone =
  to_local :: "int \<Rightarrow> int"
  to_utc :: "int \<Rightarrow> int"

abbreviation "ms_minute \<equiv> (60000::int)"
abbreviation "ms_hour \<equiv> (3600000::int)"
abbreviation "ms_day \<equiv> (86400000::int)"

definition local_day :: "zone \<Rightarrow> int \<Rightarrow> int" where "local_day z t = to_local z t div ms_day"
definition getHours :: "zone \<Rightarrow> int \<Rightarrow> nat" where "getHours z t = nat (to_local z t div ms_hour mod 24)"
definition getMinutes :: "zone \<Rightarrow> int \<Rightarrow> nat" where "getMinutes z t = nat (to_local z t div ms_minute mod 60)"
definition getDay :: "zone \<Rightarrow> int \<Rightarrow> nat" where "getDay z t = nat ((local_day z t + 4) mod 7)"

text \<open>Month (1 to 12) and day of the month of a day number of the Gregorian calendar.\<close>

definition month_date :: "int \<Rightarrow> nat \<times> nat" where
  "month_date day = (
    let doe = (day + 719468) mod 146097;
        yoe = (doe - doe div 1460 + doe div 36524 - doe div 146096) div 365;
        doy = doe - (365 * yoe + yoe div 4 - yoe div 100);
        mp = (5 * doy + 2) div 153;
        d = doy - (153 * mp + 2) div 5 + 1
    in (nat (if mp < 10 then mp + 3 else mp - 9), nat d))"

definition dayMatches :: "zone \<Rightarrow> cron_spec \<Rightarrow> int \<Rightarrow> bool" where
  "dayMatches z spec t = (
    let (month, date) = month_date (local_day z t) in
    if month \<notin> cs_month spec then False
    else let domOk = date \<in> cs_dom spec; dowOk = getDay z t \<in> cs_dow spec in
      if domRestricted spec \<and> dowRestricted spec then domOk \<or> dowOk else domOk \<and> dowOk)"

section \<open>The next fire time\<close>

text \<open>The date the loop starts from, and its three ways to move on.\<close>

definition first_minute :: "zone \<Rightarrow> int \<Rightarrow> int" where
  "first_minute z from_ms = (
    let d = to_utc z (to_local z from_ms - to_local z from_ms mod ms_minute)
    in to_utc z (to_local z d + ms_minute))"

definition next_day :: "zone \<Rightarrow> int \<Rightarrow> int" where
  "next_day z t = (let d = to_utc z (to_local z t + ms_day) in to_utc z (to_local z d - to_local z d mod ms_day))"

definition next_hour :: "zone \<Rightarrow> int \<Rightarrow> int" where
  "next_hour z t = to_utc z (to_local z t - to_local z t mod ms_hour + ms_hour)"

definition next_minute :: "zone \<Rightarrow> int \<Rightarrow> int" where
  "next_minute z t = to_utc z (to_local z t - to_local z t mod ms_minute + ms_minute)"

text \<open>The loop; \<open>None\<close> is a loop that never ends, \<open>Some None\<close> its giving up.\<close>

partial_function (option) next_loop :: "zone \<Rightarrow> cron_spec \<Rightarrow> int \<Rightarrow> int \<Rightarrow> int option option" where
  "next_loop z spec limit t = (
    if t < limit then
      if \<not> dayMatches z spec t then next_loop z spec limit (next_day z t)
      else if getHours z t \<notin> cs_hour spec then next_loop z spec limit (next_hour z t)
      else if getMinutes z t \<notin> cs_minute spec then next_loop z spec limit (next_minute z t)
      else Some (Some t)
    else Some None)"

declare next_loop.simps [code]

definition search_span :: int where "search_span = 400 * 24 * 60 * 60 * 1000"

definition next_run :: "zone \<Rightarrow> cron_spec \<Rightarrow> int \<Rightarrow> int option option" where
  "next_run z spec from_ms = next_loop z spec (from_ms + search_span) (first_minute z from_ms)"

definition nextRun :: "zone \<Rightarrow> string \<Rightarrow> int \<Rightarrow> int option result option" where
  "nextRun z expr from_ms = (case parseCron expr of
      Inl e \<Rightarrow> Some (Inl e)
    | Inr spec \<Rightarrow> map_option Inr (next_run z spec from_ms))"


section \<open>What a parsed expression holds\<close>

definition within :: "cron_field \<Rightarrow> nat set \<Rightarrow> bool" where
  "within f s \<longleftrightarrow> s \<noteq> {} \<and> finite s \<and> (\<forall>v \<in> s. f_min f \<le> v \<and> v \<le> f_max f)"

lemma set_stepped: "0 < step \<Longrightarrow> set (stepped lo hi step) = {v. v \<le> hi \<and> (\<exists>k. v = lo + k * step)}"
proof (induction lo hi step rule: stepped.induct)
  case (1 lo hi step)
  show ?case
  proof (cases "hi < lo")
    case True
    then show ?thesis by (subst stepped.simps) auto
  next
    case False
    have "(\<exists>k. v = lo + k * step) \<longleftrightarrow> v = lo \<or> (\<exists>k. v = lo + step + k * step)" for v
    proof
      assume "\<exists>k. v = lo + k * step"
      then obtain k where "v = lo + k * step" by blast
      then show "v = lo \<or> (\<exists>k. v = lo + step + k * step)" by (cases k) auto
    next
      assume "v = lo \<or> (\<exists>k. v = lo + step + k * step)"
      then show "\<exists>k. v = lo + k * step"
        by (auto intro: exI[of _ 0] exI[of _ "Suc k" for k])
    qed
    then show ?thesis using 1 False by (subst stepped.simps) auto
  qed
qed

lemma stepped_not_Nil: "0 < step \<Longrightarrow> lo \<le> hi \<Longrightarrow> stepped lo hi step \<noteq> []"
  by (subst stepped.simps) simp

lemma piece_values_within: "piece_values f piece = Inr vs \<Longrightarrow> within f (set vs)"
  unfolding piece_values_def Let_def
  by (auto simp: within_def set_stepped stepped_not_Nil not_less split: option.splits cron_base.splits prod.splits if_splits)

lemma parseField_within:
  assumes "parseField part f = Inr s"
  shows "within f s"
proof -
  obtain vss where v: "map_result (piece_values f) (split_on (CHR '','') part) = Inr vss" "s = set (concat vss)"
    using assms by (auto simp: parseField_def bind_result_Inr)
  have "within f (set (vss ! i))" if "i < length vss" for i
    using v(1) that piece_values_within[of f "split_on (CHR '','') part ! i"]
    by (simp add: map_result_Inr list_all2_conv_all_nth)
  then have all: "\<forall>vs \<in> set vss. within f (set vs)" by (auto simp: in_set_conv_nth)
  have "vss \<noteq> []" using v(1) by (auto simp: map_result_Inr)
  with all v(2) show ?thesis by (cases vss) (auto simp: within_def)
qed

lemma sunday_zero_range: "within (FIELDS ! 4) s \<Longrightarrow> sunday_zero s \<noteq> {} \<and> (\<forall>v \<in> sunday_zero s. v \<le> 6)"
proof -
  assume w: "within (FIELDS ! 4) s"
  have "v \<le> 6" if "v \<in> s" "v \<noteq> 7" for v
    using w that by (fastforce simp: within_def FIELDS_def)
  moreover have "s \<noteq> {}" using w by (simp add: within_def)
  ultimately show ?thesis by (auto simp: sunday_zero_def)
qed

lemma parseCron_fields:
  assumes "parseCron expr = Inr spec"
  shows "within (FIELDS ! 0) (cs_minute spec) \<and> within (FIELDS ! 1) (cs_hour spec) \<and>
    within (FIELDS ! 2) (cs_dom spec) \<and> within (FIELDS ! 3) (cs_month spec) \<and>
    (\<exists>s. cs_dow spec = sunday_zero s \<and> within (FIELDS ! 4) s)"
  using assms
  by (auto simp: parseCron_def Let_def FIELDS_def bind_result_Inr dest!: parseField_within split: list.splits)


section \<open>The compiled presets\<close>

definition set_hour :: "int option \<Rightarrow> nat" where "set_hour hour = nat (clampInt hour 0 23 defaultHour)"
definition set_weekday :: "int option \<Rightarrow> nat" where "set_weekday day = nat (clampInt day 0 6 defaultDayOfWeek)"

definition preset_spec :: "routine_preset \<Rightarrow> int option \<Rightarrow> int option \<Rightarrow> cron_spec" where
  "preset_spec preset hour day = \<lparr>cs_minute = {0}, cs_hour = (if preset = Hourly then {0..23} else {set_hour hour}),
    cs_dom = {1..31}, cs_month = {1..12},
    cs_dow = (case preset of Weekly \<Rightarrow> {set_weekday day} | Weekdays \<Rightarrow> {1..5} | _ \<Rightarrow> {0..6}),
    domRestricted = False, dowRestricted = preset \<in> {Weekly, Weekdays}\<rparr>"

lemma clampInt_range: "lo \<le> hi \<Longrightarrow> lo \<le> clampInt n lo hi dflt \<and> clampInt n lo hi dflt \<le> hi"
  by (auto simp: clampInt_def Let_def)

lemma show_hour: "show_int (clampInt hour 0 23 defaultHour) = show_nat (set_hour hour)"
  "show_int (clampInt day 0 6 defaultDayOfWeek) = show_nat (set_weekday day)" "set_hour hour \<le> 23" "set_weekday day \<le> 6"
  using clampInt_range[of 0 23 hour defaultHour] clampInt_range[of 0 6 day defaultDayOfWeek]
  by (auto simp: show_int_def set_hour_def set_weekday_def)

lemma show_nat_starts: "\<exists>c r. show_nat n = c # r \<and> is_digit c"
  by (metis is_digit_show list.exhaust list.set_intros(1) show_nat_not_Nil)

lemma digit_plain: "is_digit c \<Longrightarrow> c \<noteq> CHR ''*'' \<and> c \<noteq> CHR '',''"
  by (auto simp: is_digit_def)

lemma parseField_number:
  assumes "f_min f \<le> n" "n \<le> f_max f"
  shows "parseField (show_nat n) f = Inr {n}"
proof -
  obtain c r where c: "show_nat n = c # r" "is_digit c" using show_nat_starts by blast
  have "number (show_nat n) = Some (n, [])" using number_show[of "[]" n] by simp
  with c have "match_piece (show_nat n) = Some (Numbers n None, None)"
    using digit_plain[OF c(2)] by (simp add: match_piece_def range_end_def)
  moreover have "stepped n n 1 = [n]"
    by (subst stepped.simps, subst stepped.simps) simp
  ultimately have "piece_values f (show_nat n) = Inr [n]"
    using assms by (simp add: piece_values_def)
  moreover have "split_on (CHR '','') (show_nat n) = [show_nat n]"
    using digit_plain is_digit_show by (intro split_on_none) blast
  ultimately show ?thesis by (simp add: parseField_def)
qed

lemma fixed_fields:
  "parseField ''*'' (FIELDS ! 1) = Inr {0..23}" "parseField ''*'' (FIELDS ! 2) = Inr {1..31}"
  "parseField ''*'' (FIELDS ! 3) = Inr {1..12}" "parseField ''*'' (FIELDS ! 4) = Inr {0..7}"
  "parseField ''1-5'' (FIELDS ! 4) = Inr {1..5}" "parseField ''0'' (FIELDS ! 0) = Inr {0}"
  by code_simp+

lemma trim_plain: "s \<noteq> [] \<Longrightarrow> \<not> js_space (hd s) \<Longrightarrow> \<not> js_space (last s) \<Longrightarrow> trim s = s"
  by (simp add: trim_def dropWhile_eq_self_iff[THEN iffD2] hd_rev)

lemma parseCron_words:
  assumes "\<forall>w \<in> {a, b, c, d, e}. w \<noteq> [] \<and> (\<forall>x \<in> set w. \<not> js_space x)"
  shows "parseCron (a @ '' '' @ b @ '' '' @ c @ '' '' @ d @ '' '' @ e) =
    bind_result (map_result (\<lambda>(part, f). parseField part f) (zip [a, b, c, d, e] FIELDS)) (\<lambda>sets.
          Inr \<lparr>cs_minute = sets ! 0, cs_hour = sets ! 1, cs_dom = sets ! 2, cs_month = sets ! 3,
            cs_dow = sunday_zero (sets ! 4), domRestricted = c \<noteq> ''*'', dowRestricted = e \<noteq> ''*''\<rparr>)"
proof -
  have hds: "\<not> js_space (hd (w @ r))" if "w \<in> {a, b, c, d, e}" for w r using assms that by (cases w) auto
  have "trim (a @ '' '' @ b @ '' '' @ c @ '' '' @ d @ '' '' @ e) = a @ '' '' @ b @ '' '' @ c @ '' '' @ d @ '' '' @ e"
    using assms hds[of a] by (intro trim_plain) auto
  moreover have "split_spaces (a @ '' '' @ b @ '' '' @ c @ '' '' @ d @ '' '' @ e) = [a, b, c, d, e]"
    using assms hds[of b] hds[of c] hds[of d] hds[of e "[]"]
    by (simp add: split_spaces_cons[simplified] split_spaces_word)
  ultimately show ?thesis by (simp add: parseCron_def)
qed

lemma show_nat_word: "show_nat n \<noteq> [] \<and> (\<forall>x \<in> set (show_nat n). \<not> js_space x)"
  using digit_no_space is_digit_show by auto

lemma show_nat_no_star: "show_nat n \<noteq> ''*''"
  using show_nat_starts[of n] digit_plain[of "CHR ''*''"] by auto

lemma preset_parts:
  assumes "b = ''*'' \<and> B = {0..23} \<or> (\<exists>h\<le>23. b = show_nat h \<and> B = {h})"
    and "e = ''*'' \<and> E = {0..7} \<or> e = ''1-5'' \<and> E = {1..5} \<or> (\<exists>d\<le>6. e = show_nat d \<and> E = {d})"
  shows "parseCron (''0 '' @ b @ '' * * '' @ e) = Inr \<lparr>cs_minute = {0}, cs_hour = B, cs_dom = {1..31}, cs_month = {1..12},
    cs_dow = sunday_zero E, domRestricted = False, dowRestricted = e \<noteq> ''*''\<rparr>"
proof -
  have "parseField b (FIELDS ! 1) = Inr B" "parseField e (FIELDS ! 4) = Inr E"
    using assms fixed_fields parseField_number[of "FIELDS ! 1"] parseField_number[of "FIELDS ! 4"]
    by (auto simp: FIELDS_def)
  moreover have "\<forall>w \<in> {''0'', b, ''*'', ''*'', e}. w \<noteq> [] \<and> (\<forall>x \<in> set w. \<not> js_space x)"
    using assms show_nat_word by (auto simp: js_space_def)
  ultimately show ?thesis
    using parseCron_words[of "''0''" b "''*''" "''*''" e] fixed_fields by (simp add: FIELDS_def)
qed

lemma sunday_zero_plain: "sunday_zero {0..7} = {0..6}" "d \<le> 6 \<Longrightarrow> sunday_zero {d} = {d}" "sunday_zero {Suc 0..5} = {Suc 0..5}"
  by (auto simp: sunday_zero_def)

lemma compiled_preset:
  assumes "presetToCron preset hour day = Some c"
  shows "parseCron c = Inr (preset_spec preset hour day)"
proof -
  note parts = preset_parts[of "''*''" "{0..23}" "''*''" "{0..7}"]
    preset_parts[of "show_nat (set_hour hour)" "{set_hour hour}" "''*''" "{0..7}"]
    preset_parts[of "show_nat (set_hour hour)" "{set_hour hour}" "''1-5''" "{1..5}"]
    preset_parts[of "show_nat (set_hour hour)" "{set_hour hour}" "show_nat (set_weekday day)" "{set_weekday day}"]
  show ?thesis
    using assms parts show_hour(3)[of hour] show_hour(4)[of day] show_nat_no_star
    by (cases preset) (auto simp: presetToCron_def Let_def show_hour preset_spec_def sunday_zero_plain)
qed

section \<open>The clock of a server\<close>

text \<open>
  What the search for the next fire time relies on: the setters move time forward, and the
  instants a jump passes over belong to the same local day, hour or minute. A zone without
  daylight saving changes has these laws.
\<close>

definition whole_minute :: "zone \<Rightarrow> int \<Rightarrow> bool" where "whole_minute z t \<longleftrightarrow> to_local z t mod ms_minute = 0"

definition fires :: "zone \<Rightarrow> cron_spec \<Rightarrow> int \<Rightarrow> bool" where
  "fires z spec t \<longleftrightarrow> whole_minute z t \<and> dayMatches z spec t \<and> getHours z t \<in> cs_hour spec \<and> getMinutes z t \<in> cs_minute spec"

locale regular_clock =
  fixes z :: zone
  assumes first: "from_ms < first_minute z from_ms" "whole_minute z (first_minute z from_ms)"
      "from_ms < u \<Longrightarrow> u < first_minute z from_ms \<Longrightarrow> \<not> whole_minute z u"
    and day: "t < next_day z t" "whole_minute z (next_day z t)"
      "t \<le> u \<Longrightarrow> u < next_day z t \<Longrightarrow> local_day z u = local_day z t"
    and hour: "t < next_hour z t" "whole_minute z (next_hour z t)"
      "t \<le> u \<Longrightarrow> u < next_hour z t \<Longrightarrow> getHours z u = getHours z t"
    and minute: "t < next_minute z t" "whole_minute z (next_minute z t)"
      "t < u \<Longrightarrow> u < next_minute z t \<Longrightarrow> \<not> whole_minute z u"
begin

lemma same_day: "t \<le> u \<Longrightarrow> u < next_day z t \<Longrightarrow> dayMatches z spec u = dayMatches z spec t"
  using day(3)[of t u] by (simp add: dayMatches_def getDay_def)

lemma search:
  assumes "whole_minute z t" and "\<forall>u. from_ms < u \<and> u < t \<longrightarrow> \<not> fires z spec u" and "from_ms < t"
  shows "\<exists>r. next_loop z spec limit t = Some r \<and>
    (case r of Some v \<Rightarrow> from_ms < v \<and> v < limit \<and> fires z spec v \<and> (\<forall>u. from_ms < u \<and> u < v \<longrightarrow> \<not> fires z spec u)
     | None \<Rightarrow> \<forall>u. from_ms < u \<and> u < limit \<longrightarrow> \<not> fires z spec u)"
  using assms
proof (induction "nat (limit - t)" arbitrary: t rule: less_induct)
  case less
  let ?goal = "\<lambda>t. \<exists>r. next_loop z spec limit t = Some r \<and>
    (case r of Some v \<Rightarrow> from_ms < v \<and> v < limit \<and> fires z spec v \<and> (\<forall>u. from_ms < u \<and> u < v \<longrightarrow> \<not> fires z spec u)
     | None \<Rightarrow> \<forall>u. from_ms < u \<and> u < limit \<longrightarrow> \<not> fires z spec u)"
  have jump: "?goal t" if "t < limit" "t < t'" "next_loop z spec limit t = next_loop z spec limit t'" "whole_minute z t'"
      "\<And>u. t \<le> u \<Longrightarrow> u < t' \<Longrightarrow> \<not> fires z spec u" for t'
  proof -
    have "\<forall>u. from_ms < u \<and> u < t' \<longrightarrow> \<not> fires z spec u"
      using less.prems(2) that(5) by (meson not_le)
    with less.hyps[of t'] less.prems(3) that show ?thesis by simp
  qed
  show ?case
  proof (cases "t < limit")
    case False
    then show ?thesis using less.prems(2) by (subst next_loop.simps) auto
  next
    case lim: True
    consider "\<not> dayMatches z spec t" | "dayMatches z spec t" "getHours z t \<notin> cs_hour spec"
      | "dayMatches z spec t" "getHours z t \<in> cs_hour spec" "getMinutes z t \<notin> cs_minute spec" | "fires z spec t"
      using less.prems(1) by (auto simp: fires_def)
    then show ?thesis
    proof cases
      case 1
      then have "next_loop z spec limit t = next_loop z spec limit (next_day z t)"
        using lim by (subst next_loop.simps) simp
      moreover have "\<not> fires z spec u" if "t \<le> u" "u < next_day z t" for u
        using same_day[OF that] 1 by (simp add: fires_def)
      ultimately show ?thesis using lim day(1,2)[of t] by (intro jump)
    next
      case 2
      then have "next_loop z spec limit t = next_loop z spec limit (next_hour z t)"
        using lim by (subst next_loop.simps) simp
      moreover have "\<not> fires z spec u" if "t \<le> u" "u < next_hour z t" for u
        using hour(3)[OF that] 2 by (simp add: fires_def)
      ultimately show ?thesis using lim hour(1,2)[of t] by (intro jump)
    next
      case 3
      then have "next_loop z spec limit t = next_loop z spec limit (next_minute z t)"
        using lim by (subst next_loop.simps) simp
      moreover have "\<not> fires z spec u" if "t \<le> u" "u < next_minute z t" for u
        using that minute(3)[of t u] 3 by (cases "u = t") (auto simp: fires_def)
      ultimately show ?thesis using lim minute(1,2)[of t] by (intro jump)
    next
      case 4
      then show ?thesis using lim less.prems by (subst next_loop.simps) (auto simp: fires_def)
    qed
  qed
qed

lemma earliest:
  "\<exists>r. next_run z spec from_ms = Some r \<and>
    (case r of Some v \<Rightarrow> from_ms < v \<and> v < from_ms + search_span \<and> fires z spec v \<and>
        (\<forall>u. from_ms < u \<and> u < v \<longrightarrow> \<not> fires z spec u)
     | None \<Rightarrow> \<forall>u. from_ms < u \<and> u < from_ms + search_span \<longrightarrow> \<not> fires z spec u)"
  unfolding next_run_def by (rule search) (use first in \<open>auto simp: fires_def\<close>)

end

definition fixed_zone :: "int \<Rightarrow> zone" where
  "fixed_zone offset = \<lparr>to_local = (\<lambda>t. t + offset), to_utc = (\<lambda>t. t - offset)\<rparr>"

lemma same_block: "0 < m \<Longrightarrow> x \<le> y \<Longrightarrow> y < m * (x div m) + m \<Longrightarrow> y div m = x div (m::int)"
proof -
  assume m: "0 < m" "x \<le> y" "y < m * (x div m) + m"
  have "m * (y div m) < m * (x div m + 1)"
    using m(3) mult_div_mod_eq[of m y] pos_mod_sign[OF m(1), of y] unfolding distrib_left by linarith
  then have "y div m \<le> x div m" using m(1) by (simp add: mult_less_cancel_left_pos)
  with zdiv_mono1[OF m(2,1)] show ?thesis by simp
qed

lemma block_ends: "0 < m \<Longrightarrow> x < m * (x div m) + (m::int)"
  using mult_div_mod_eq[of m x] pos_mod_bound[of m x] by linarith

lemma no_multiple_inside: "0 < m \<Longrightarrow> x < y \<Longrightarrow> y < m * (x div m) + m \<Longrightarrow> y mod m \<noteq> (0::int)"
  using same_block[of m x y] mult_div_mod_eq[of m y] mult_div_mod_eq[of m x] pos_mod_sign[of m x] by fastforce

lemma fixed_jumps:
  "first_minute (fixed_zone o_s) t = ms_minute * ((t + o_s) div ms_minute) + ms_minute - o_s"
  "next_day (fixed_zone o_s) t = ms_day * ((t + o_s) div ms_day) + ms_day - o_s"
  "next_hour (fixed_zone o_s) t = ms_hour * ((t + o_s) div ms_hour) + ms_hour - o_s"
  "next_minute (fixed_zone o_s) t = ms_minute * ((t + o_s) div ms_minute) + ms_minute - o_s"
proof -
  have "t + ms_day + o_s = (t + o_s) + ms_day" by simp
  then have "(t + ms_day + o_s) div ms_day = (t + o_s) div ms_day + 1"
    using div_add_self2[of ms_day "t + o_s"] by simp
  then show "next_day (fixed_zone o_s) t = ms_day * ((t + o_s) div ms_day) + ms_day - o_s"
    by (simp add: fixed_zone_def next_day_def Let_def minus_mod_eq_mult_div)
qed (simp_all add: fixed_zone_def first_minute_def next_hour_def next_minute_def Let_def minus_mod_eq_mult_div)

lemma fixed_fields_of_instant:
  "whole_minute (fixed_zone o_s) t \<longleftrightarrow> (t + o_s) mod ms_minute = 0"
  "local_day (fixed_zone o_s) t = (t + o_s) div ms_day"
  "getHours (fixed_zone o_s) t = nat ((t + o_s) div ms_hour mod 24)"
  by (simp_all add: fixed_zone_def whole_minute_def local_day_def getHours_def)

interpretation fixed: regular_clock "fixed_zone offset"
proof
  fix from_ms t u :: int
  let ?z = "fixed_zone offset"
  note jumps = fixed_jumps fixed_fields_of_instant
  show "from_ms < first_minute ?z from_ms" "t < next_minute ?z t" "t < next_hour ?z t" "t < next_day ?z t"
    using block_ends[of ms_minute "from_ms + offset"] block_ends[of ms_minute "t + offset"]
      block_ends[of ms_hour "t + offset"] block_ends[of ms_day "t + offset"] by (simp_all add: jumps)
  show "whole_minute ?z (first_minute ?z from_ms)" "whole_minute ?z (next_minute ?z t)"
    by (simp_all add: jumps)
  have "ms_hour * q + ms_hour = ms_minute * (60 * q + 60)" "ms_day * q + ms_day = ms_minute * (1440 * q + 1440)" for q
    by simp_all
  then show "whole_minute ?z (next_hour ?z t)" "whole_minute ?z (next_day ?z t)" by (simp_all add: jumps)
  show "\<not> whole_minute ?z u" if "from_ms < u" "u < first_minute ?z from_ms"
    using no_multiple_inside[of ms_minute "from_ms + offset" "u + offset"] that by (simp add: jumps)
  show "\<not> whole_minute ?z u" if "t < u" "u < next_minute ?z t"
    using no_multiple_inside[of ms_minute "t + offset" "u + offset"] that by (simp add: jumps)
  show "local_day ?z u = local_day ?z t" if "t \<le> u" "u < next_day ?z t"
    using same_block[of ms_day "t + offset" "u + offset"] that by (simp add: jumps)
  show "getHours ?z u = getHours ?z t" if "t \<le> u" "u < next_hour ?z t"
    using same_block[of ms_hour "t + offset" "u + offset"] that by (simp add: jumps)
qed

end
