(* ===== verification/Routines.thy ===== *)
theory Routines
  imports Schedule Permissions
begin

text \<open>
  Routines: recurring agent tasks and scripts (modules/routines: the use cases of
  routine-service.ts, the facade independent-routines.ts and the statements of
  sqlite-routines.ts they run). An operation is a function of the service; a promise that
  settles later is an operation of its own, so that every interleaving is a sequence of
  operations. The tables hold the decoded rows.
\<close>

section \<open>Data\<close>

record routine_script =
  command :: string
  timeoutSeconds :: nat

datatype routine_kind = Agent_Routine | Script_Routine

record routine =
  rt_id :: string
  rt_repoId :: string
  rt_kind :: routine_kind
  rt_script :: "routine_script option"
  rt_agent :: agent_kind
  rt_title :: "string option"
  rt_prompt :: string
  rt_permission :: string
  rt_model :: "string option"
  rt_effort :: "string option"
  rt_preset :: routine_preset
  rt_schedule :: string
  rt_enabled :: bool
  rt_lastRunAt :: "int option"
  rt_nextRunAt :: "int option"
  rt_createdAt :: int
  rt_updatedAt :: int

datatype run_status = Run_Fired | Run_Manual | Run_Skipped | Run_Running | Run_Succeeded | Run_Failed | Run_Interrupted

record script_result =
  sr_status :: run_status
  sr_note :: "string option"
  sr_finishedAt :: "int option"
  sr_exitCode :: "int option"
  sr_output :: "string option"
  sr_worktreePath :: "string option"

text \<open>A run: its own columns, and the result and reason of its \<open>result_json\<close>.\<close>

record routine_run =
  rr_id :: nat
  rr_routineId :: string
  rr_firedAt :: int
  rr_status :: run_status
  rr_taskId :: "string option"
  rr_missed :: bool
  rr_note :: "string option"
  rr_finishedAt :: "int option"
  rr_exitCode :: "int option"
  rr_output :: "string option"
  rr_worktreePath :: "string option"

text \<open>The task a fire creates.\<close>

record routine_task =
  rq_repoId :: string
  rq_agent :: agent_kind
  rq_prompt :: string
  rq_permission :: string
  rq_model :: "string option"
  rq_effort :: "string option"
  rq_isolate :: bool
  rq_title :: string

text \<open>One live execution; its serial number is the identity of the object.\<close>

record script_entry =
  se_run :: nat
  se_routineId :: string
  se_serial :: nat

record rsvc =
  rv_routines :: "routine list"
  rv_runs :: "routine_run list"
  rv_lastRun :: nat
  rv_scripts :: "script_entry list"
  rv_results :: "(nat \<times> string \<times> script_result) list"
  rv_stopping :: bool
  rv_timer :: bool
  rv_serial :: nat
  rv_created :: "routine_task list"
  rv_started :: "nat list"
  rv_stops :: "(nat \<times> string) list"
  rv_changes :: nat

text \<open>
  What the service is given: repositories, the task service, identifiers, the script
  runner, and whether the database accepts the write of a result. \<open>cron\<close> is
  \<open>nextRun\<close> in the time zone of the server.
\<close>

record rports =
  rp_repo :: "string \<Rightarrow> bool"
  rp_updating :: bool
  rp_createTask :: "routine_task \<Rightarrow> string result"
  rp_newId :: string
  cron :: "string \<Rightarrow> int \<Rightarrow> int option result"
  independentScripts :: bool
  persistent :: bool
  recovers :: bool
  prepare :: "nat \<Rightarrow> string option result"
  launch :: "nat \<Rightarrow> unit result"
  write_ok :: "nat \<Rightarrow> bool"
  ack_ok :: "nat \<Rightarrow> bool"
  zod_message :: string

definition scriptConcurrency :: nat where "scriptConcurrency = 4"
definition defaultTimeoutSeconds :: nat where "defaultTimeoutSeconds = 300"
definition maxTimeoutSeconds :: nat where "maxTimeoutSeconds = 3600"
definition maxCommandLength :: nat where "maxCommandLength = 16000"

section \<open>The tables\<close>

definition insertRoutine :: "routine \<Rightarrow> rsvc \<Rightarrow> rsvc" where
  "insertRoutine r sv = sv\<lparr>rv_routines := rv_routines sv @ [r]\<rparr>"

text \<open>An update keeps the id and the creation time of its row.\<close>

definition updateRoutine :: "routine \<Rightarrow> rsvc \<Rightarrow> rsvc" where
  "updateRoutine r sv = sv\<lparr>rv_routines :=
    map (\<lambda>x. if rt_id x = rt_id r then r\<lparr>rt_createdAt := rt_createdAt x\<rparr> else x) (rv_routines sv)\<rparr>"

definition deleteRoutine :: "string \<Rightarrow> rsvc \<Rightarrow> rsvc" where
  "deleteRoutine i sv = sv\<lparr>rv_runs := filter (\<lambda>r. rr_routineId r \<noteq> i) (rv_runs sv),
    rv_routines := filter (\<lambda>r. rt_id r \<noteq> i) (rv_routines sv)\<rparr>"

definition getRoutine :: "string \<Rightarrow> rsvc \<Rightarrow> routine option" where
  "getRoutine i sv = find (\<lambda>r. rt_id r = i) (rv_routines sv)"

definition listRoutines :: "rsvc \<Rightarrow> routine list" where
  "listRoutines sv = sort_key rt_createdAt (rv_routines sv)"

definition new_run :: "string \<Rightarrow> int \<Rightarrow> run_status \<Rightarrow> string option \<Rightarrow> bool \<Rightarrow> string option \<Rightarrow> nat \<Rightarrow> routine_run" where
  "new_run i now st task missed note n = \<lparr>rr_id = n, rr_routineId = i, rr_firedAt = now, rr_status = st, rr_taskId = task,
    rr_missed = missed, rr_note = note, rr_finishedAt = None, rr_exitCode = None, rr_output = None, rr_worktreePath = None\<rparr>"

text \<open>The id of a run is never used again, not even after its deletion.\<close>

definition insertRoutineRun :: "(nat \<Rightarrow> routine_run) \<Rightarrow> rsvc \<Rightarrow> nat \<times> rsvc" where
  "insertRoutineRun mk sv = (let n = Suc (rv_lastRun sv) in (n, sv\<lparr>rv_runs := rv_runs sv @ [mk n], rv_lastRun := n\<rparr>))"

definition finish_row :: "script_result \<Rightarrow> routine_run \<Rightarrow> routine_run" where
  "finish_row res r = r\<lparr>rr_status := sr_status res, rr_note := sr_note res, rr_missed := False,
    rr_finishedAt := sr_finishedAt res, rr_exitCode := sr_exitCode res, rr_output := sr_output res,
    rr_worktreePath := sr_worktreePath res\<rparr>"

definition finishRoutineRun :: "nat \<Rightarrow> script_result \<Rightarrow> rsvc \<Rightarrow> rsvc" where
  "finishRoutineRun n res sv = sv\<lparr>rv_runs := map (\<lambda>r. if rr_id r = n then finish_row res r else r) (rv_runs sv)\<rparr>"

definition runningRoutineRuns :: "rsvc \<Rightarrow> routine_run list" where
  "runningRoutineRuns sv = sort_key rr_id (filter (\<lambda>r. rr_status r = Run_Running) (rv_runs sv))"

definition interruptRoutineRuns :: "rsvc \<Rightarrow> rsvc" where
  "interruptRoutineRuns sv = sv\<lparr>rv_runs := map (\<lambda>r. if rr_status r = Run_Running
     then r\<lparr>rr_status := Run_Interrupted, rr_note := Some ''server stopped before completion was recorded''\<rparr> else r) (rv_runs sv)\<rparr>"

definition hasRunningRoutine :: "string \<Rightarrow> rsvc \<Rightarrow> bool" where
  "hasRunningRoutine repo sv \<longleftrightarrow>
     (\<exists>r \<in> set (rv_runs sv). rr_status r = Run_Running \<and> (\<exists>x \<in> set (rv_routines sv). rt_id x = rr_routineId r \<and> rt_repoId x = repo))"

text \<open>Newest first: by fire time, then by id.\<close>

definition listRoutineRuns :: "string \<Rightarrow> nat \<Rightarrow> rsvc \<Rightarrow> routine_run list" where
  "listRoutineRuns i limit sv = take limit (sort_key (\<lambda>r. - rr_firedAt r) (sort_key (\<lambda>r. - int (rr_id r))
     (filter (\<lambda>r. rr_routineId r = i) (rv_runs sv))))"

section \<open>Scripts and their results\<close>

definition activeScriptCount :: "rsvc \<Rightarrow> nat" where
  "activeScriptCount sv = length (rv_scripts sv) + length (rv_results sv)"

definition updateBlockingScriptCount :: "rports \<Rightarrow> rsvc \<Rightarrow> nat" where
  "updateBlockingScriptCount P sv = (if persistent P then 0 else activeScriptCount sv)"

definition emitReadChange :: "rsvc \<Rightarrow> rsvc" where
  "emitReadChange sv = sv\<lparr>rv_changes := Suc (rv_changes sv)\<rparr>"

definition hasPendingScript :: "string \<Rightarrow> rsvc \<Rightarrow> bool" where
  "hasPendingScript i sv \<longleftrightarrow> (\<exists>e \<in> set (rv_scripts sv). se_routineId e = i) \<or> (\<exists>x \<in> set (rv_results sv). fst (snd x) = i)"

definition delete_script :: "nat \<Rightarrow> rsvc \<Rightarrow> rsvc" where
  "delete_script n sv = sv\<lparr>rv_scripts := filter (\<lambda>e. se_run e \<noteq> n) (rv_scripts sv)\<rparr>"

text \<open>\<open>Map.set\<close>: an existing key keeps its place, a new one is the last.\<close>

definition track :: "nat \<Rightarrow> string \<Rightarrow> rsvc \<Rightarrow> rsvc" where
  "track n i sv = (
    let e = \<lparr>se_run = n, se_routineId = i, se_serial = rv_serial sv\<rparr>;
        present = (\<exists>x \<in> set (rv_scripts sv). se_run x = n)
    in sv\<lparr>rv_serial := Suc (rv_serial sv),
        rv_scripts := (if present then map (\<lambda>x. if se_run x = n then e else x) (rv_scripts sv) else rv_scripts sv @ [e])\<rparr>)"

definition set_result :: "nat \<Rightarrow> string \<Rightarrow> script_result \<Rightarrow> rsvc \<Rightarrow> rsvc" where
  "set_result n i res sv = sv\<lparr>rv_results :=
    (if n \<in> fst ` set (rv_results sv) then map (\<lambda>x. if fst x = n then (n, i, res) else x) (rv_results sv)
     else rv_results sv @ [(n, i, res)])\<rparr>"

definition persist_one :: "rports \<Rightarrow> nat \<Rightarrow> script_result \<Rightarrow> rsvc \<Rightarrow> rsvc" where
  "persist_one P n res sv = (
    if \<not> write_ok P n then sv
    else let sv = finishRoutineRun n res sv in
      if \<not> ack_ok P n then sv
      else emitReadChange (sv\<lparr>rv_results := filter (\<lambda>x. fst x \<noteq> n) (rv_results sv)\<rparr>))"

definition persistResults :: "rports \<Rightarrow> rsvc \<Rightarrow> rsvc" where
  "persistResults P sv = fold (\<lambda>(n, _, res). persist_one P n res) (rv_results sv) sv"

definition completeScript :: "rports \<Rightarrow> nat \<Rightarrow> string \<Rightarrow> script_result \<Rightarrow> rsvc \<Rightarrow> rsvc" where
  "completeScript P n i res sv = persistResults P (set_result n i res (delete_script n sv))"

text \<open>\<open>execution.done\<close> settles: only the execution that is still tracked completes its run.\<close>

definition script_done :: "rports \<Rightarrow> script_entry \<Rightarrow> script_result \<Rightarrow> rsvc \<Rightarrow> rsvc" where
  "script_done P e res sv = (if e \<in> set (rv_scripts sv) then completeScript P (se_run e) (se_routineId e) res sv else sv)"

definition failed_result :: "string option \<Rightarrow> int \<Rightarrow> app_error \<Rightarrow> script_result" where
  "failed_result worktree now e = \<lparr>sr_status = Run_Failed,
    sr_note = Some ((case e of App_Error _ m \<Rightarrow> ''ApplicationError: '' | Js_Error m \<Rightarrow> ''Error: '') @ error_message e),
    sr_finishedAt = Some now, sr_exitCode = None, sr_output = None, sr_worktreePath = worktree\<rparr>"

section \<open>Firing\<close>

text \<open>\<open>r.schedule ? nextRun(r.schedule, now) : undefined\<close>\<close>

definition next_fire :: "rports \<Rightarrow> string \<Rightarrow> int \<Rightarrow> int option result" where
  "next_fire P schedule now = (if schedule = [] then Inr None else cron P schedule now)"

definition running_at :: "string option \<Rightarrow> script_result" where
  "running_at worktree = \<lparr>sr_status = Run_Running, sr_note = None, sr_finishedAt = None, sr_exitCode = None,
     sr_output = None, sr_worktreePath = worktree\<rparr>"

text \<open>Prepare the worktree, record it and only then start the process.\<close>

definition start_script :: "rports \<Rightarrow> routine \<Rightarrow> nat \<Rightarrow> int \<Rightarrow> rsvc \<Rightarrow> rsvc" where
  "start_script P r n now sv = (
    if \<not> rp_repo P (rt_repoId r) \<or> rt_script r = None
    then completeScript P n (rt_id r) (failed_result None now (Js_Error ''Script or space no longer exists'')) sv
    else case prepare P n of
        Inl e \<Rightarrow> completeScript P n (rt_id r) (failed_result None now e) sv
      | Inr worktree \<Rightarrow>
          if \<not> write_ok P n then completeScript P n (rt_id r) (failed_result worktree now (Js_Error ''database error'')) sv
          else let sv = finishRoutineRun n (running_at worktree) sv in
            (case launch P n of
               Inl e \<Rightarrow> completeScript P n (rt_id r) (failed_result worktree now e) sv
             | Inr _ \<Rightarrow> track n (rt_id r) (sv\<lparr>rv_started := rv_started sv @ [n]\<rparr>)))"

definition script_slots_full :: "routine \<Rightarrow> rsvc \<Rightarrow> bool" where
  "script_slots_full r sv \<longleftrightarrow> hasPendingScript (rt_id r) sv \<or> scriptConcurrency \<le> length (rv_scripts sv)"

definition fire_script :: "rports \<Rightarrow> routine \<Rightarrow> int \<Rightarrow> bool \<Rightarrow> rsvc \<Rightarrow> unit result \<times> rsvc" where
  "fire_script P r now manual sv = (
    if rv_stopping sv \<or> rp_updating P then (Inl (App_Error Service_Unavailable ''Palmagent is restarting''), sv)
    else let full = script_slots_full r sv in
      if full \<and> manual then (Inl (App_Error Conflict
          (''A script is already running or all '' @ show_nat scriptConcurrency @ '' script slots are busy'')), sv)
      else case (if manual then Inr (rt_nextRunAt r) else next_fire P (rt_schedule r) now) of
          Inl e \<Rightarrow> (Inl e, sv)
        | Inr nxt \<Rightarrow>
            let sv = updateRoutine (r\<lparr>rt_lastRunAt := Some now, rt_updatedAt := now, rt_nextRunAt := nxt\<rparr>) sv;
                (n, sv) = insertRoutineRun (new_run (rt_id r) now (if full then Run_Skipped else Run_Running) None False
                  (Some (if full then ''script already running or script capacity reached''
                         else if manual then ''manual'' else ''scheduled''))) sv;
                sv = (if full then sv else start_script P r n now sv)
            in (Inr (), emitReadChange sv))"

text \<open>The stopwatch sign of a routine's title is given by its UTF-8 bytes.\<close>

definition stopwatch :: string where "stopwatch = [CHR 0xE2, CHR 0x8F, CHR 0xB1, CHR '' '']"

definition fire_request :: "routine \<Rightarrow> routine_task" where
  "fire_request r = \<lparr>rq_repoId = rt_repoId r, rq_agent = rt_agent r, rq_prompt = rt_prompt r, rq_permission = rt_permission r,
    rq_model = rt_model r, rq_effort = rt_effort r, rq_isolate = True,
    rq_title = (case rt_title r of Some (c # cs) \<Rightarrow> stopwatch @ c # cs | _ \<Rightarrow> stopwatch @ ''routine '' @ rt_id r)\<rparr>"

definition fire_agent :: "rports \<Rightarrow> routine \<Rightarrow> int \<Rightarrow> bool \<Rightarrow> rsvc \<Rightarrow> unit result \<times> rsvc" where
  "fire_agent P r now manual sv = (
    let (taskId, note, sv) = (case rp_createTask P (fire_request r) of
          Inr i \<Rightarrow> (Some i, None, sv\<lparr>rv_created := rv_created sv @ [fire_request r]\<rparr>)
        | Inl e \<Rightarrow> (None, Some (error_message e), sv));
      (_, sv) = insertRoutineRun (new_run (rt_id r) now (if manual then Run_Manual else Run_Fired) taskId False note) sv
    in case (if manual then Inr (rt_nextRunAt r) else next_fire P (rt_schedule r) now) of
        Inl e \<Rightarrow> (Inl e, sv)
      | Inr nxt \<Rightarrow> (Inr (), emitReadChange (updateRoutine
          (r\<lparr>rt_lastRunAt := Some now, rt_nextRunAt := nxt, rt_updatedAt := now\<rparr>) sv)))"

definition fire :: "rports \<Rightarrow> routine \<Rightarrow> int \<Rightarrow> bool \<Rightarrow> rsvc \<Rightarrow> unit result \<times> rsvc" where
  "fire P r now manual sv = (if rt_kind r = Script_Routine then fire_script P r now manual sv else fire_agent P r now manual sv)"

definition due :: "rports \<Rightarrow> int \<Rightarrow> routine \<Rightarrow> bool" where
  "due P now r \<longleftrightarrow> \<not> (independentScripts P \<and> rt_kind r = Script_Routine) \<and> rt_enabled r \<and>
     (case rt_nextRunAt r of None \<Rightarrow> False | Some t \<Rightarrow> t \<noteq> 0 \<and> t \<le> now)"

text \<open>The loop of \<open>tick\<close>; an exception leaves it, and the timer catches it.\<close>

fun fire_all :: "rports \<Rightarrow> int \<Rightarrow> routine list \<Rightarrow> rsvc \<Rightarrow> rsvc" where
  "fire_all P now [] sv = sv"
| "fire_all P now (r # rs) sv = (
    if \<not> due P now r then fire_all P now rs sv
    else case fire P r now False sv of
        (Inl _, sv) \<Rightarrow> sv
      | (Inr _, sv) \<Rightarrow> fire_all P now rs sv)"

definition tick :: "rports \<Rightarrow> int \<Rightarrow> rsvc \<Rightarrow> rsvc" where
  "tick P now sv = (let sv = persistResults P sv in
     if rp_updating P then sv else fire_all P now (listRoutines sv) sv)"

section \<open>Starting and stopping the service\<close>

text \<open>A run missed while the server was down is recorded and skipped, never caught up.\<close>

definition missed_note :: string where "missed_note = ''missed while the server was down''"

definition skip_missed :: "int \<Rightarrow> routine \<Rightarrow> rsvc \<Rightarrow> rsvc" where
  "skip_missed now r sv = snd (insertRoutineRun (new_run (rt_id r) now Run_Skipped None True (Some missed_note)) sv)"

definition stale :: "rports \<Rightarrow> int \<Rightarrow> routine \<Rightarrow> bool" where
  "stale P now r \<longleftrightarrow> \<not> (independentScripts P \<and> rt_kind r = Script_Routine) \<and> rt_enabled r \<and> rt_preset r \<noteq> Manual \<and>
     rt_schedule r \<noteq> [] \<and> (case rt_nextRunAt r of None \<Rightarrow> True | Some t \<Rightarrow> t = 0 \<or> t \<le> now)"

fun start_routines :: "rports \<Rightarrow> int \<Rightarrow> routine list \<Rightarrow> rsvc \<Rightarrow> unit result \<times> rsvc" where
  "start_routines P now [] sv = (Inr (), sv)"
| "start_routines P now (r # rs) sv = (
    if \<not> stale P now r then start_routines P now rs sv
    else case cron P (rt_schedule r) now of
        Inl e \<Rightarrow> (Inl e, sv)
      | Inr nxt \<Rightarrow>
          let sv = updateRoutine (r\<lparr>rt_nextRunAt := nxt, rt_updatedAt := now\<rparr>) sv;
              sv = (if due P now r then skip_missed now r sv else sv)
          in start_routines P now rs sv)"

definition reconcile_scripts :: "rports \<Rightarrow> rsvc \<Rightarrow> rsvc" where
  "reconcile_scripts P sv = (
    if independentScripts P then sv
    else if recovers P then fold (\<lambda>r. track (rr_id r) (rr_routineId r)) (runningRoutineRuns sv) sv
    else interruptRoutineRuns sv)"

definition start_service :: "rports \<Rightarrow> int \<Rightarrow> rsvc \<Rightarrow> unit result \<times> rsvc" where
  "start_service P now sv = (
    if rv_timer sv then (Inr (), sv)
    else let sv = reconcile_scripts P (sv\<lparr>rv_stopping := False\<rparr>) in
      case start_routines P now (listRoutines sv) sv of
        (Inl e, sv) \<Rightarrow> (Inl e, sv)
      | (Inr _, sv) \<Rightarrow> (Inr (), sv\<lparr>rv_timer := True\<rparr>))"

text \<open>A new process: the tables survive, the executions and the unsaved results do not.\<close>

definition boot_routines :: "rsvc \<Rightarrow> rsvc" where
  "boot_routines sv = sv\<lparr>rv_scripts := [], rv_results := [], rv_stopping := False, rv_timer := False\<rparr>"

definition stop_calls :: "string \<Rightarrow> script_entry list \<Rightarrow> rsvc \<Rightarrow> rsvc" where
  "stop_calls reason es sv = sv\<lparr>rv_stops := rv_stops sv @ map (\<lambda>e. (se_run e, reason)) es\<rparr>"

text \<open>
  \<open>stop\<close> up to its wait for the executions, and what follows once they are done: the
  completed results are written, or the shutdown fails with them kept.
\<close>

definition stop_begin :: "rports \<Rightarrow> rsvc \<Rightarrow> rsvc" where
  "stop_begin P sv = (let sv = sv\<lparr>rv_stopping := True, rv_timer := False\<rparr> in
     if persistent P then sv\<lparr>rv_scripts := []\<rparr>
     else stop_calls ''interrupted by server shutdown'' (rv_scripts sv) sv)"

definition stop_end :: "rports \<Rightarrow> rsvc \<Rightarrow> unit result \<times> rsvc" where
  "stop_end P sv = (let sv = persistResults P sv in
     (if rv_results sv \<noteq> [] then Inl (Js_Error ''Completed script results could not be persisted before shutdown'') else Inr (), sv))"

section \<open>Requests\<close>

record script_request =
  sq_command :: string
  sq_timeout :: "int option"

record create_routine =
  cr_repoId :: string
  cr_agent :: "agent_kind option"
  cr_prompt :: "string option"
  cr_kind :: "routine_kind option"
  cr_script :: "script_request option"
  cr_preset :: "routine_preset option"
  cr_schedule :: "string option"
  cr_hour :: "int option"
  cr_dayOfWeek :: "int option"
  cr_permission :: "string option"
  cr_model :: "string option"
  cr_effort :: "string option"
  cr_title :: "string option"
  cr_enabled :: "bool option"

record update_routine =
  ur_script :: "script_request option"
  ur_prompt :: "string option"
  ur_preset :: "routine_preset option"
  ur_schedule :: "string option"
  ur_hour :: "int option"
  ur_dayOfWeek :: "int option"
  ur_permission :: "string option"
  ur_model :: "string option"
  ur_effort :: "string option"
  ur_title :: "string option"
  ur_enabled :: "bool option"

text \<open>What the request schemas accept; they trim the command of a script.\<close>

definition opt_all :: "('a \<Rightarrow> bool) \<Rightarrow> 'a option \<Rightarrow> bool" where
  "opt_all p x = (case x of None \<Rightarrow> True | Some v \<Rightarrow> p v)"

definition trim_script :: "script_request \<Rightarrow> script_request" where
  "trim_script q = q\<lparr>sq_command := trim (sq_command q)\<rparr>"

definition valid_script :: "script_request \<Rightarrow> bool" where
  "valid_script q \<longleftrightarrow> 1 \<le> length (sq_command q) \<and> length (sq_command q) \<le> maxCommandLength \<and>
     opt_all (\<lambda>t. 1 \<le> t \<and> t \<le> int maxTimeoutSeconds) (sq_timeout q)"

definition valid_cadence :: "int option \<Rightarrow> int option \<Rightarrow> bool" where
  "valid_cadence hour day \<longleftrightarrow> opt_all (\<lambda>h. 0 \<le> h \<and> h \<le> 23) hour \<and> opt_all (\<lambda>d. 0 \<le> d \<and> d \<le> 6) day"

definition CreateRoutineSchema :: "create_routine \<Rightarrow> create_routine option" where
  "CreateRoutineSchema q0 = (let q = q0\<lparr>cr_script := map_option trim_script (cr_script q0)\<rparr> in
     if cr_repoId q \<noteq> [] \<and> cr_prompt q \<noteq> Some [] \<and> opt_all valid_script (cr_script q) \<and> valid_cadence (cr_hour q) (cr_dayOfWeek q) \<and>
       (if cr_kind q = Some Script_Routine
        then cr_script q \<noteq> None \<and> cr_agent q = None \<and> cr_prompt q = None \<and> cr_permission q = None \<and> cr_model q = None \<and> cr_effort q = None
        else cr_agent q \<noteq> None \<and> (case cr_prompt q of None \<Rightarrow> False | Some p \<Rightarrow> trim p \<noteq> []) \<and> cr_script q = None)
     then Some q else None)"

definition UpdateRoutineSchema :: "update_routine \<Rightarrow> update_routine option" where
  "UpdateRoutineSchema q0 = (let q = q0\<lparr>ur_script := map_option trim_script (ur_script q0)\<rparr> in
     if opt_all valid_script (ur_script q) \<and> ur_prompt q \<noteq> Some [] \<and> valid_cadence (ur_hour q) (ur_dayOfWeek q) then Some q else None)"

definition validateCron :: "string option \<Rightarrow> unit result" where
  "validateCron expr = (case expr of
      None \<Rightarrow> Inl (App_Error Bad_Request ''schedule (cron) is required'')
    | Some e \<Rightarrow> if e = [] then Inl (App_Error Bad_Request ''schedule (cron) is required'')
        else (case parseCron e of Inl err \<Rightarrow> Inl (App_Error Bad_Request (''invalid cron: '' @ error_message err)) | Inr _ \<Rightarrow> Inr ()))"

definition compile :: "rports \<Rightarrow> routine_preset \<Rightarrow> string option \<Rightarrow> int option \<Rightarrow> int option \<Rightarrow> int \<Rightarrow> (string \<times> int option) result" where
  "compile P preset schedule hour day now = (
    if preset = Manual then Inr ([], None)
    else if preset = Custom then
      bind_result (validateCron schedule) (\<lambda>_.
        bind_result (cron P (the schedule) now) (\<lambda>nxt. Inr (the schedule, nxt)))
    else case presetToCron preset hour day of
        None \<Rightarrow> Inl (App_Error Bad_Request ''unknown preset'')
      | Some c \<Rightarrow> bind_result (cron P c now) (\<lambda>nxt. Inr (c, nxt)))"

definition stored_script :: "nat option \<Rightarrow> script_request \<Rightarrow> routine_script" where
  "stored_script previous q = \<lparr>command = sq_command q, timeoutSeconds = (case sq_timeout q of Some t \<Rightarrow> nat t
     | None \<Rightarrow> (case previous of Some t \<Rightarrow> t | None \<Rightarrow> defaultTimeoutSeconds))\<rparr>"

definition orElse :: "'a option \<Rightarrow> 'a \<Rightarrow> 'a" where "orElse x d = (case x of None \<Rightarrow> d | Some v \<Rightarrow> v)"

definition create_rt :: "rports \<Rightarrow> create_routine \<Rightarrow> int \<Rightarrow> rsvc \<Rightarrow> routine result \<times> rsvc" where
  "create_rt P req now sv = (case CreateRoutineSchema req of
      None \<Rightarrow> (Inl (App_Error Bad_Request (zod_message P)), sv)
    | Some q \<Rightarrow>
        if \<not> rp_repo P (cr_repoId q) then (Inl (App_Error Bad_Request (''no such repo: '' @ cr_repoId q)), sv)
        else let preset = orElse (cr_preset q) Custom in
          (case compile P preset (cr_schedule q) (cr_hour q) (cr_dayOfWeek q) now of
             Inl e \<Rightarrow> (Inl e, sv)
           | Inr (schedule, nxt) \<Rightarrow>
               let agent = orElse (cr_agent q) Claude;
                   r = \<lparr>rt_id = rp_newId P, rt_repoId = cr_repoId q, rt_kind = orElse (cr_kind q) Agent_Routine,
                     rt_script = map_option (stored_script None) (cr_script q), rt_agent = agent, rt_title = cr_title q,
                     rt_prompt = orElse (cr_prompt q) [], rt_permission = orElse (cr_permission q) (DEFAULT_PERMISSION agent),
                     rt_model = cr_model q, rt_effort = cr_effort q, rt_preset = preset, rt_schedule = schedule,
                     rt_enabled = orElse (cr_enabled q) True, rt_lastRunAt = None,
                     rt_nextRunAt = (if cr_enabled q = Some False then None else nxt), rt_createdAt = now, rt_updatedAt = now\<rparr>
               in (Inr r, emitReadChange (insertRoutine r sv))))"

definition get_rt :: "string \<Rightarrow> rsvc \<Rightarrow> routine result" where
  "get_rt i sv = (case getRoutine i sv of None \<Rightarrow> Inl (App_Error Not_Found (''no such routine: '' @ i)) | Some r \<Rightarrow> Inr r)"

text \<open>The number of a cron field of the stored schedule, when it is one.\<close>

definition existingNumber :: "string list \<Rightarrow> nat \<Rightarrow> int option" where
  "existingNumber parts k = (if k < length parts then
     (let f = parts ! k in if f \<noteq> [] \<and> (\<forall>c \<in> set f. is_digit c) then Some (int (read_nat f)) else None) else None)"

definition or_opt :: "'a option \<Rightarrow> 'a option \<Rightarrow> 'a option" where "or_opt x y = (case x of None \<Rightarrow> y | Some v \<Rightarrow> Some v)"

definition recompile :: "rports \<Rightarrow> update_routine \<Rightarrow> int \<Rightarrow> routine \<Rightarrow> routine result" where
  "recompile P q now r = (
    if ur_preset q \<noteq> None \<or> ur_schedule q \<noteq> None \<or> ur_hour q \<noteq> None \<or> ur_dayOfWeek q \<noteq> None then
      let preset = orElse (ur_preset q) (rt_preset r); parts = split_spaces (rt_schedule r) in
      bind_result (compile P preset (Some (orElse (ur_schedule q) (rt_schedule r)))
          (or_opt (ur_hour q) (existingNumber parts 1)) (or_opt (ur_dayOfWeek q) (existingNumber parts 4)) now)
        (\<lambda>(schedule, _). Inr (r\<lparr>rt_preset := preset, rt_schedule := schedule\<rparr>))
    else Inr r)"

text \<open>\<open>value || undefined\<close>\<close>

definition non_empty :: "string \<Rightarrow> string option" where "non_empty s = (if s = [] then None else Some s)"

definition apply_update :: "update_routine \<Rightarrow> routine \<Rightarrow> routine" where
  "apply_update q r = r\<lparr>
    rt_prompt := orElse (ur_prompt q) (rt_prompt r),
    rt_title := (case ur_title q of None \<Rightarrow> rt_title r | Some t \<Rightarrow> non_empty t),
    rt_permission := orElse (ur_permission q) (rt_permission r),
    rt_model := (case ur_model q of None \<Rightarrow> rt_model r | Some t \<Rightarrow> non_empty t),
    rt_effort := (case ur_effort q of None \<Rightarrow> rt_effort r | Some t \<Rightarrow> non_empty t),
    rt_enabled := orElse (ur_enabled q) (rt_enabled r)\<rparr>"

definition update_rt :: "rports \<Rightarrow> string \<Rightarrow> update_routine \<Rightarrow> int \<Rightarrow> rsvc \<Rightarrow> routine result \<times> rsvc" where
  "update_rt P i req now sv = (case get_rt i sv of Inl e \<Rightarrow> (Inl e, sv) | Inr r \<Rightarrow>
    (case UpdateRoutineSchema req of None \<Rightarrow> (Inl (App_Error Bad_Request (zod_message P)), sv) | Some q \<Rightarrow>
      if rt_kind r = Script_Routine \<and> (ur_prompt q \<noteq> None \<or> ur_permission q \<noteq> None \<or> ur_model q \<noteq> None \<or> ur_effort q \<noteq> None)
      then (Inl (App_Error Bad_Request ''Script routines do not accept agent settings''), sv)
      else if ur_script q \<noteq> None \<and> rt_kind r \<noteq> Script_Routine
      then (Inl (App_Error Bad_Request ''Only script routines accept script settings''), sv)
      else
        let r = (case ur_script q of None \<Rightarrow> r
                 | Some s \<Rightarrow> r\<lparr>rt_script := Some (stored_script (map_option timeoutSeconds (rt_script r)) s)\<rparr>) in
        (case recompile P q now r of Inl e \<Rightarrow> (Inl e, sv) | Inr r \<Rightarrow>
          if ur_prompt q = Some [] then (Inl (App_Error Bad_Request ''prompt cannot be empty''), sv)
          else let r = apply_update q r in
            (case (if rt_enabled r \<and> rt_preset r \<noteq> Manual \<and> rt_schedule r \<noteq> [] then cron P (rt_schedule r) now else Inr None) of
               Inl e \<Rightarrow> (Inl e, sv)
             | Inr nxt \<Rightarrow> let r = r\<lparr>rt_nextRunAt := nxt, rt_updatedAt := now\<rparr> in
                 (Inr r, emitReadChange (updateRoutine r sv))))))"

definition remove_rt :: "string \<Rightarrow> rsvc \<Rightarrow> routine result \<times> rsvc" where
  "remove_rt i sv = (
    if hasPendingScript i sv then (Inl (App_Error Conflict ''Wait for the running script before deleting this routine''), sv)
    else case get_rt i sv of Inl e \<Rightarrow> (Inl e, sv) | Inr r \<Rightarrow> (Inr r, emitReadChange (deleteRoutine i sv)))"

definition runNow :: "rports \<Rightarrow> string \<Rightarrow> int \<Rightarrow> rsvc \<Rightarrow> routine result \<times> rsvc" where
  "runNow P i now sv = (case get_rt i sv of Inl e \<Rightarrow> (Inl e, sv) | Inr r \<Rightarrow>
     (case fire P r now True sv of (Inl e, sv) \<Rightarrow> (Inl e, sv) | (Inr _, sv) \<Rightarrow> (get_rt i sv, sv)))"

text \<open>\<open>stopRun\<close> up to its wait for the executions; its answer is a later \<open>get\<close>.\<close>

definition stopRun :: "string \<Rightarrow> rsvc \<Rightarrow> unit result \<times> rsvc" where
  "stopRun i sv = (case get_rt i sv of Inl e \<Rightarrow> (Inl e, sv) | Inr r \<Rightarrow>
     if rt_kind r \<noteq> Script_Routine then (Inl (App_Error Bad_Request ''Stop agent runs from their task''), sv)
     else (Inr (), stop_calls ''interrupted by user'' (filter (\<lambda>e. se_routineId e = i) (rv_scripts sv)) sv))"

definition runs_rt :: "string \<Rightarrow> nat \<Rightarrow> rsvc \<Rightarrow> routine_run list result" where
  "runs_rt i limit sv = bind_result (get_rt i sv) (\<lambda>_. Inr (listRoutineRuns i limit sv))"

section \<open>Every step of the service\<close>

text \<open>
  The requests, the timer, settled executions (whose status is final), shutdowns and
  restarts. The ports may answer differently in each step, but keep the kind of the runner.
\<close>

definition same_runner :: "rports \<Rightarrow> rports \<Rightarrow> bool" where
  "same_runner P Q \<longleftrightarrow> independentScripts Q = independentScripts P \<and> persistent Q = persistent P \<and> recovers Q = recovers P"

inductive routine_step :: "rports \<Rightarrow> rsvc \<Rightarrow> rsvc \<Rightarrow> bool" for P :: rports where
  R_Start: "same_runner P Q \<Longrightarrow> routine_step P sv (snd (start_service Q now (boot_routines sv)))"
| R_Tick: "same_runner P Q \<Longrightarrow> rv_timer sv \<Longrightarrow> routine_step P sv (tick Q now sv)"
| R_Done: "same_runner P Q \<Longrightarrow> sr_status res \<noteq> Run_Running \<Longrightarrow> routine_step P sv (script_done Q e res sv)"
| R_StopBegin: "same_runner P Q \<Longrightarrow> routine_step P sv (stop_begin Q sv)"
| R_StopEnd: "same_runner P Q \<Longrightarrow> routine_step P sv (snd (stop_end Q sv))"
| R_Create: "same_runner P Q \<Longrightarrow> rp_newId Q \<notin> rt_id ` set (rv_routines sv) \<Longrightarrow> routine_step P sv (snd (create_rt Q req now sv))"
| R_Update: "same_runner P Q \<Longrightarrow> routine_step P sv (snd (update_rt Q i ureq now sv))"
| R_Remove: "routine_step P sv (snd (remove_rt i sv))"
| R_RunNow: "same_runner P Q \<Longrightarrow> routine_step P sv (snd (runNow Q i now sv))"
| R_StopRun: "routine_step P sv (snd (stopRun i sv))"

definition new_rsvc :: rsvc where
  "new_rsvc = \<lparr>rv_routines = [], rv_runs = [], rv_lastRun = 0, rv_scripts = [], rv_results = [], rv_stopping = False,
     rv_timer = False, rv_serial = 0, rv_created = [], rv_started = [], rv_stops = [], rv_changes = 0\<rparr>"

end
