(* ===== verification/Routine_Laws.thy ===== *)
theory Routine_Laws
  imports Routines
begin

text \<open>
  What every step of the routine service keeps: the cadence of each routine is consistent
  with its next fire, and the runs that the history shows as running are the pending ones,
  at most one per routine.
\<close>

section \<open>Cadences\<close>

definition cadence_ok :: "routine \<Rightarrow> bool" where
  "cadence_ok r \<longleftrightarrow> (rt_nextRunAt r \<noteq> None \<longrightarrow> rt_enabled r \<and> rt_preset r \<noteq> Manual \<and> rt_schedule r \<noteq> []) \<and>
    (rt_preset r = Manual \<longrightarrow> rt_schedule r = []) \<and>
    (rt_schedule r \<noteq> [] \<longrightarrow> (\<exists>spec. parseCron (rt_schedule r) = Inr spec))"

definition table_ok :: "rsvc \<Rightarrow> bool" where
  "table_ok sv \<longleftrightarrow> distinct (map rt_id (rv_routines sv)) \<and> (\<forall>r \<in> set (rv_routines sv). cadence_ok r)"

lemma table_ok_cong: "rv_routines sv' = rv_routines sv \<Longrightarrow> table_ok sv' = table_ok sv"
  by (simp add: table_ok_def)

lemma rv_routines_frames [simp]:
  "rv_routines (emitReadChange sv) = rv_routines sv"
  "rv_routines (finishRoutineRun n res sv) = rv_routines sv"
  "rv_routines (snd (insertRoutineRun mk sv)) = rv_routines sv"
  "rv_routines (delete_script n sv) = rv_routines sv"
  "rv_routines (set_result n i res sv) = rv_routines sv"
  "rv_routines (track n i sv) = rv_routines sv"
  "rv_routines (persist_one P n res sv) = rv_routines sv"
  "rv_routines (interruptRoutineRuns sv) = rv_routines sv"
  "rv_routines (skip_missed now r sv) = rv_routines sv"
  "rv_routines (stop_calls s es sv) = rv_routines sv"
  "rv_routines (stop_begin P sv) = rv_routines sv"
  by (simp_all add: emitReadChange_def finishRoutineRun_def insertRoutineRun_def delete_script_def set_result_def track_def
      persist_one_def interruptRoutineRuns_def skip_missed_def stop_calls_def stop_begin_def Let_def)

lemma fold_frame: "(\<And>x s. x \<in> set xs \<Longrightarrow> f (g x s) = f s) \<Longrightarrow> f (fold g xs s) = f s"
  by (induction xs arbitrary: s) auto

lemma rv_routines_persist [simp]: "rv_routines (persistResults P sv) = rv_routines sv"
  unfolding persistResults_def by (rule fold_frame) auto

lemma rv_routines_complete [simp]: "rv_routines (completeScript P n i res sv) = rv_routines sv"
  by (simp add: completeScript_def)

lemma rv_routines_done [simp]: "rv_routines (script_done P e res sv) = rv_routines sv"
  by (simp add: script_done_def)

lemma rv_routines_start_script [simp]: "rv_routines (start_script P r n now sv) = rv_routines sv"
  by (simp add: start_script_def Let_def split: sum.split)

lemma rv_routines_reconcile [simp]: "rv_routines (reconcile_scripts P sv) = rv_routines sv"
  by (auto simp: reconcile_scripts_def intro: fold_frame)

lemma table_ok_update:
  assumes "table_ok sv" and "cadence_ok r"
  shows "table_ok (updateRoutine r sv)"
proof -
  have "cadence_ok (r\<lparr>rt_createdAt := c\<rparr>)" for c using assms(2) by (simp add: cadence_ok_def)
  moreover have ids: "map rt_id (rv_routines (updateRoutine r sv)) = map rt_id (rv_routines sv)"
    by (auto simp: updateRoutine_def)
  moreover have "x \<in> set (rv_routines (updateRoutine r sv)) \<Longrightarrow>
      x \<in> set (rv_routines sv) \<or> (\<exists>c. x = r\<lparr>rt_createdAt := c\<rparr>)" for x
    by (auto simp: updateRoutine_def)
  ultimately show ?thesis using assms(1) unfolding table_ok_def ids by fastforce
qed

lemma table_ok_emit [simp]: "table_ok (emitReadChange sv) = table_ok sv"
  by (rule table_ok_cong) simp

text \<open>Moving the next fire keeps a cadence consistent; so does switching it off.\<close>

lemma cadence_ok_next:
  "cadence_ok r \<Longrightarrow> nxt = None \<or> rt_enabled r \<and> rt_preset r \<noteq> Manual \<and> rt_schedule r \<noteq> [] \<Longrightarrow>
   cadence_ok (r\<lparr>rt_lastRunAt := l, rt_updatedAt := u, rt_nextRunAt := nxt\<rparr>)"
  "cadence_ok r \<Longrightarrow> nxt = None \<or> rt_enabled r \<and> rt_preset r \<noteq> Manual \<and> rt_schedule r \<noteq> [] \<Longrightarrow>
   cadence_ok (r\<lparr>rt_lastRunAt := l, rt_nextRunAt := nxt, rt_updatedAt := u\<rparr>)"
  "cadence_ok r \<Longrightarrow> nxt = None \<or> rt_enabled r \<and> rt_preset r \<noteq> Manual \<and> rt_schedule r \<noteq> [] \<Longrightarrow>
   cadence_ok (r\<lparr>rt_nextRunAt := nxt, rt_updatedAt := u\<rparr>)"
  by (auto simp: cadence_ok_def)

definition fires_on :: "bool \<Rightarrow> routine \<Rightarrow> bool" where
  "fires_on manual r \<longleftrightarrow> (\<not> manual \<longrightarrow> rt_nextRunAt r \<noteq> None)"

lemma next_of_fire:
  assumes "cadence_ok r" "fires_on manual r" "(if manual then Inr (rt_nextRunAt r) else next_fire P (rt_schedule r) now) = Inr nxt"
  shows "nxt = None \<or> rt_enabled r \<and> rt_preset r \<noteq> Manual \<and> rt_schedule r \<noteq> []"
  using assms by (auto simp: cadence_ok_def fires_on_def next_fire_def split: if_splits)

lemma table_ok_fire_script:
  assumes "table_ok sv" "cadence_ok r" "fires_on manual r"
  shows "table_ok (snd (fire_script P r now manual sv))"
proof (cases "if manual then Inr (rt_nextRunAt r) else next_fire P (rt_schedule r) now")
  case (Inl e)
  then show ?thesis using assms(1) by (simp add: fire_script_def Let_def)
next
  case (Inr nxt)
  have "table_ok (updateRoutine (r\<lparr>rt_lastRunAt := Some now, rt_updatedAt := now, rt_nextRunAt := nxt\<rparr>) sv)"
    using table_ok_update[OF assms(1) cadence_ok_next(1)[OF assms(2) next_of_fire[OF assms(2,3) Inr]]] .
  then show ?thesis using assms(1) Inr
    by (simp add: fire_script_def Let_def case_prod_beta table_ok_def)
qed

lemma table_ok_fire_agent:
  assumes "table_ok sv" "cadence_ok r" "fires_on manual r"
  shows "table_ok (snd (fire_agent P r now manual sv))"
proof -
  define s where "s = (case rp_createTask P (fire_request r) of
      Inr i \<Rightarrow> (Some i, None, sv\<lparr>rv_created := rv_created sv @ [fire_request r]\<rparr>)
    | Inl e \<Rightarrow> (None, Some (error_message e), sv))"
  obtain taskId why sv1 where s1: "s = (taskId, why, sv1)" by (cases s)
  define sv2 where "sv2 = snd (insertRoutineRun (new_run (rt_id r) now (if manual then Run_Manual else Run_Fired) taskId False why) sv1)"
  have "rv_routines sv1 = rv_routines sv" using s1 by (auto simp: s_def split: sum.splits)
  then have t: "table_ok sv2" using assms(1) by (simp add: sv2_def table_ok_def)
  show ?thesis
  proof (cases "if manual then Inr (rt_nextRunAt r) else next_fire P (rt_schedule r) now")
    case (Inl e)
    then show ?thesis using t s1 by (simp add: fire_agent_def s_def[symmetric] sv2_def case_prod_beta)
  next
    case (Inr nxt)
    have "table_ok (updateRoutine (r\<lparr>rt_lastRunAt := Some now, rt_nextRunAt := nxt, rt_updatedAt := now\<rparr>) sv2)"
      using table_ok_update[OF t cadence_ok_next(2)[OF assms(2) next_of_fire[OF assms(2,3) Inr]]] .
    then show ?thesis using Inr s1 by (simp add: fire_agent_def s_def[symmetric] sv2_def case_prod_beta)
  qed
qed

lemma table_ok_fire:
  "table_ok sv \<Longrightarrow> cadence_ok r \<Longrightarrow> fires_on manual r \<Longrightarrow> table_ok (snd (fire P r now manual sv))"
  by (simp add: fire_def table_ok_fire_script table_ok_fire_agent)

lemma due_fires: "due P now r \<Longrightarrow> fires_on False r"
  by (auto simp: due_def fires_on_def split: option.splits)

lemma table_ok_fire_all:
  "table_ok sv \<Longrightarrow> \<forall>r \<in> set rs. cadence_ok r \<Longrightarrow> table_ok (fire_all P now rs sv)"
proof (induction rs arbitrary: sv)
  case (Cons r rs)
  obtain x sv1 where f: "fire P r now False sv = (x, sv1)" by (cases "fire P r now False sv")
  have "due P now r \<Longrightarrow> table_ok sv1"
    using table_ok_fire[OF Cons.prems(1) _ due_fires, of r P now P now] Cons.prems(2) f by simp
  with Cons f show ?case by (cases x) auto
qed simp

lemma in_listRoutines [simp]: "set (listRoutines sv) = set (rv_routines sv)"
  by (simp add: listRoutines_def)

lemma table_ok_tick: "table_ok sv \<Longrightarrow> table_ok (tick P now sv)"
proof -
  assume t: "table_ok sv"
  then have "table_ok (persistResults P sv)" by (simp add: table_ok_def)
  with t show ?thesis by (auto simp: tick_def Let_def table_ok_def[of sv] intro: table_ok_fire_all)
qed

lemma table_ok_start_routines:
  "table_ok sv \<Longrightarrow> \<forall>r \<in> set rs. cadence_ok r \<Longrightarrow> table_ok (snd (start_routines P now rs sv))"
proof (induction rs arbitrary: sv)
  case (Cons r rs)
  show ?case
  proof (cases "stale P now r")
    case True
    have "cadence_ok (r\<lparr>rt_nextRunAt := nxt, rt_updatedAt := now\<rparr>)" for nxt
      using Cons.prems(2) True by (intro cadence_ok_next(3)) (auto simp: stale_def)
    then have "table_ok (updateRoutine (r\<lparr>rt_nextRunAt := nxt, rt_updatedAt := now\<rparr>) sv)" for nxt
      using table_ok_update[OF Cons.prems(1)] by blast
    moreover have "table_ok (skip_missed now r s) = table_ok s" for s by (rule table_ok_cong) simp
    ultimately show ?thesis using True Cons.prems by (simp add: Let_def split: sum.split) (auto intro!: Cons.IH)
  qed (use Cons in simp)
qed simp

lemma table_ok_start: "table_ok sv \<Longrightarrow> table_ok (snd (start_service P now sv))"
proof -
  assume t: "table_ok sv"
  define s where "s = reconcile_scripts P (sv\<lparr>rv_stopping := False\<rparr>)"
  have s: "table_ok s" using t by (simp add: s_def table_ok_def)
  obtain x s1 where x: "start_routines P now (listRoutines s) s = (x, s1)" by (cases "start_routines P now (listRoutines s) s")
  have "table_ok s1" using table_ok_start_routines[OF s, of "listRoutines s" P now] s x by (simp add: table_ok_def[of s])
  then show ?thesis using t x by (cases x) (simp_all add: start_service_def Let_def s_def[symmetric] table_ok_def)
qed

lemma compile_schedule:
  assumes "compile P preset schedule hour day now = Inr (s, nxt)"
  shows "(preset = Manual \<longrightarrow> s = []) \<and> (s \<noteq> [] \<longrightarrow> (\<exists>spec. parseCron s = Inr spec)) \<and> (nxt \<noteq> None \<longrightarrow> preset \<noteq> Manual \<and> s \<noteq> [])"
proof -
  have "c \<noteq> []" if "presetToCron preset hour day = Some c" for c
    using that by (auto simp: presetToCron_def Let_def split: routine_preset.splits)
  then show ?thesis
    using assms compiled_preset[of preset hour day]
    by (auto simp: compile_def bind_result_Inr validateCron_def split: if_splits option.splits sum.splits)
qed

lemma table_ok_create:
  assumes "table_ok sv" and "rp_newId P \<notin> rt_id ` set (rv_routines sv)"
  shows "table_ok (snd (create_rt P req now sv))"
  using assms
  by (auto simp: create_rt_def Let_def insertRoutine_def emitReadChange_def table_ok_def cadence_ok_def orElse_def
      split: option.splits sum.splits if_splits dest!: compile_schedule)

lemma getRoutine_in: "getRoutine i sv = Some r \<Longrightarrow> r \<in> set (rv_routines sv) \<and> rt_id r = i"
  by (auto simp: getRoutine_def dest: find_Some_in)

lemma get_rt_Inr: "get_rt i sv = Inr r \<longleftrightarrow> getRoutine i sv = Some r"
  by (auto simp: get_rt_def split: option.splits)

definition schedule_ok :: "routine \<Rightarrow> bool" where
  "schedule_ok r \<longleftrightarrow> (rt_preset r = Manual \<longrightarrow> rt_schedule r = []) \<and> (rt_schedule r \<noteq> [] \<longrightarrow> (\<exists>spec. parseCron (rt_schedule r) = Inr spec))"

lemma schedule_ok_recompile:
  "recompile P q now r = Inr r' \<Longrightarrow> schedule_ok r \<Longrightarrow> schedule_ok r'"
  by (auto simp: recompile_def Let_def bind_result_Inr schedule_ok_def split: if_splits dest!: compile_schedule)

lemma table_ok_update_rt:
  assumes "table_ok sv"
  shows "table_ok (snd (update_rt P i req now sv))"
proof -
  have "table_ok (updateRoutine (r'\<lparr>rt_nextRunAt := nxt, rt_updatedAt := now\<rparr>) sv)"
    if "get_rt i sv = Inr r" "recompile P q now (case ur_script q of None \<Rightarrow> r
        | Some s \<Rightarrow> r\<lparr>rt_script := Some (stored_script (map_option timeoutSeconds (rt_script r)) s)\<rparr>) = Inr r1"
      "r' = apply_update q r1"
      "(if rt_enabled r' \<and> rt_preset r' \<noteq> Manual \<and> rt_schedule r' \<noteq> [] then cron P (rt_schedule r') now else Inr None) = Inr nxt"
    for r q r1 r' nxt
  proof -
    have "schedule_ok r" using assms getRoutine_in that(1) by (auto simp: get_rt_Inr table_ok_def cadence_ok_def schedule_ok_def)
    then have "schedule_ok (case ur_script q of None \<Rightarrow> r
        | Some s \<Rightarrow> r\<lparr>rt_script := Some (stored_script (map_option timeoutSeconds (rt_script r)) s)\<rparr>)"
      by (auto simp: schedule_ok_def split: option.split)
    from schedule_ok_recompile[OF that(2) this] have "schedule_ok r'" using that(3) by (simp add: schedule_ok_def apply_update_def)
    with that(4) have "cadence_ok (r'\<lparr>rt_nextRunAt := nxt, rt_updatedAt := now\<rparr>)"
      by (auto simp: cadence_ok_def schedule_ok_def split: if_splits)
    then show ?thesis by (rule table_ok_update[OF assms])
  qed
  then show ?thesis using assms
    by (auto simp: update_rt_def Let_def split: sum.splits option.splits if_splits)
qed

lemma table_ok_remove: "table_ok sv \<Longrightarrow> table_ok (snd (remove_rt i sv))"
  by (auto simp: remove_rt_def table_ok_def deleteRoutine_def emitReadChange_def distinct_map split: sum.split
      intro: inj_on_subset)

lemma table_ok_runNow: "table_ok sv \<Longrightarrow> table_ok (snd (runNow P i now sv))"
proof (cases "get_rt i sv")
  case (Inr r)
  assume t: "table_ok sv"
  then have "table_ok (snd (fire P r now True sv))"
    using Inr getRoutine_in by (intro table_ok_fire) (auto simp: get_rt_Inr table_ok_def fires_on_def)
  with Inr t show ?thesis by (auto simp: runNow_def split: prod.splits sum.splits)
qed (simp add: runNow_def)

lemma table_ok_step:
  assumes "routine_step P sv sv'" and "table_ok sv"
  shows "table_ok sv'"
  using assms
proof (cases rule: routine_step.cases)
  case (R_Start Q now)
  then show ?thesis using assms(2) table_ok_start[of "boot_routines sv" Q now] by (simp add: boot_routines_def table_ok_def)
next
  case (R_StopEnd Q)
  then show ?thesis using assms(2) by (simp add: stop_end_def Let_def table_ok_def)
next
  case (R_StopRun i)
  then show ?thesis using assms(2) by (auto simp: stopRun_def table_ok_def split: sum.split)
next
  case (R_Tick Q now)
  then show ?thesis using assms(2) by (simp add: table_ok_tick)
next
  case (R_Create Q req now)
  then show ?thesis using assms(2) by (simp add: table_ok_create)
next
  case (R_Update Q i ureq now)
  then show ?thesis using assms(2) by (simp add: table_ok_update_rt)
next
  case (R_Remove i)
  then show ?thesis using assms(2) by (simp add: table_ok_remove)
next
  case (R_RunNow Q i now)
  then show ?thesis using assms(2) by (simp add: table_ok_runNow)
qed (use assms(2) in \<open>simp_all add: table_ok_def\<close>)

section \<open>Running and pending scripts\<close>

text \<open>The runs whose execution or result the service holds, with their routines.\<close>

definition pend :: "rsvc \<Rightarrow> (nat \<times> string) set" where
  "pend sv = (\<lambda>e. (se_run e, se_routineId e)) ` set (rv_scripts sv) \<union> (\<lambda>x. (fst x, fst (snd x))) ` set (rv_results sv)"

definition running_rows :: "rsvc \<Rightarrow> (nat \<times> string) set" where
  "running_rows sv = (\<lambda>r. (rr_id r, rr_routineId r)) ` {r \<in> set (rv_runs sv). rr_status r = Run_Running}"

text \<open>A set of run and routine ids in which neither occurs twice.\<close>

definition one_to_one :: "(nat \<times> string) set \<Rightarrow> bool" where
  "one_to_one A \<longleftrightarrow> (\<forall>p \<in> A. \<forall>q \<in> A. fst p = fst q \<longleftrightarrow> snd p = snd q)"

text \<open>\<open>A\<close> holds what is pending while an operation is under way.\<close>

definition runs_in :: "(nat \<times> string) set \<Rightarrow> rsvc \<Rightarrow> bool" where
  "runs_in A sv \<longleftrightarrow> one_to_one A \<and> one_to_one (running_rows sv) \<and> (\<forall>p \<in> A \<union> running_rows sv. fst p \<le> rv_lastRun sv) \<and>
    (\<forall>r \<in> set (rv_runs sv). rr_id r \<le> rv_lastRun sv) \<and> distinct (map rr_id (rv_runs sv)) \<and>
    (\<not> rv_stopping sv \<longrightarrow> running_rows sv \<subseteq> A) \<and> (\<forall>x \<in> set (rv_results sv). sr_status (snd (snd x)) \<noteq> Run_Running) \<and>
    distinct (rv_started sv) \<and> (\<forall>n \<in> set (rv_started sv). n \<le> rv_lastRun sv)"

definition runs_ok :: "rsvc \<Rightarrow> bool" where "runs_ok sv \<longleftrightarrow> runs_in (pend sv) sv"

lemma one_to_one_mono: "one_to_one A \<Longrightarrow> B \<subseteq> A \<Longrightarrow> one_to_one B"
  by (auto simp: one_to_one_def)

lemma runs_in_shrink: "runs_in A sv \<Longrightarrow> B \<subseteq> A \<Longrightarrow> (\<not> rv_stopping sv \<Longrightarrow> running_rows sv \<subseteq> B) \<Longrightarrow> runs_in B sv"
  unfolding runs_in_def using one_to_one_mono by blast

definition script_key :: "script_entry \<Rightarrow> nat \<times> string" where "script_key e = (se_run e, se_routineId e)"
definition result_key :: "nat \<times> string \<times> script_result \<Rightarrow> nat \<times> string" where "result_key x = (fst x, fst (snd x))"

lemma pend_alt: "pend sv = set (map script_key (rv_scripts sv)) \<union> set (map result_key (rv_results sv))"
  by (auto simp: pend_def script_key_def result_key_def)

lemma pend_member:
  "e \<in> set (rv_scripts sv) \<Longrightarrow> (se_run e, se_routineId e) \<in> pend sv"
  "x \<in> set (rv_results sv) \<Longrightarrow> (fst x, fst (snd x)) \<in> pend sv"
  by (auto simp: pend_def)

lemma pend_track:
  assumes "\<forall>p \<in> pend sv. fst p = n \<longrightarrow> snd p = i"
  shows "pend (track n i sv) = insert (n, i) (pend sv)"
proof (cases "\<exists>x \<in> set (rv_scripts sv). se_run x = n")
  case True
  define e where "e = \<lparr>se_run = n, se_routineId = i, se_serial = rv_serial sv\<rparr>"
  have same: "\<forall>x \<in> set (rv_scripts sv). se_run x = n \<longrightarrow> se_routineId x = i"
    using assms pend_member by fastforce
  then have "map script_key (map (\<lambda>x. if se_run x = n then e else x) (rv_scripts sv)) = map script_key (rv_scripts sv)"
    by (auto simp: script_key_def e_def)
  then have "pend (track n i sv) = pend sv"
    using True by (simp only: pend_alt track_def Let_def e_def[symmetric]) simp
  moreover have "(n, i) \<in> pend sv" using True same by (force simp: pend_def)
  ultimately show ?thesis by blast
qed (auto simp: pend_alt track_def script_key_def Let_def)

lemma pend_set_result:
  assumes "\<forall>p \<in> pend sv. fst p = n \<longrightarrow> snd p = i"
  shows "pend (set_result n i res sv) = insert (n, i) (pend sv)"
proof (cases "n \<in> fst ` set (rv_results sv)")
  case True
  have same: "\<forall>x \<in> set (rv_results sv). fst x = n \<longrightarrow> fst (snd x) = i"
    using assms pend_member by fastforce
  then have "map result_key (map (\<lambda>x. if fst x = n then (n, i, res) else x) (rv_results sv)) = map result_key (rv_results sv)"
    by (auto simp: result_key_def)
  then have "pend (set_result n i res sv) = pend sv"
    using True by (simp only: pend_alt set_result_def) simp
  moreover have "(n, i) \<in> pend sv" using True same by (force simp: pend_def)
  ultimately show ?thesis by blast
qed (auto simp: pend_alt set_result_def result_key_def)

lemma pend_delete: "pend (delete_script n sv) = pend sv - {p. fst p = n} \<union> {p \<in> set (map result_key (rv_results sv)). fst p = n}"
  by (auto simp: pend_alt delete_script_def script_key_def)

lemma pend_complete:
  assumes "\<forall>p \<in> pend sv. fst p = n \<longrightarrow> snd p = i"
  shows "pend (set_result n i res (delete_script n sv)) = insert (n, i) (pend sv)"
proof -
  have sub: "pend (delete_script n sv) \<subseteq> pend sv" by (auto simp: pend_alt delete_script_def)
  with assms have "pend (set_result n i res (delete_script n sv)) = insert (n, i) (pend (delete_script n sv))"
    by (intro pend_set_result) blast
  moreover have "p = (n, i) \<or> p \<in> pend (delete_script n sv)" if "p \<in> pend sv" for p
    using that assms by (cases "fst p = n") (auto simp: pend_delete prod_eq_iff)
  ultimately show ?thesis using sub by blast
qed

text \<open>The fields that \<open>runs_in\<close> reads besides the results.\<close>

definition run_core :: "rsvc \<Rightarrow> routine_run list \<times> nat \<times> bool \<times> nat list" where
  "run_core sv = (rv_runs sv, rv_lastRun sv, rv_stopping sv, rv_started sv)"

lemma runs_in_core:
  "run_core sv' = run_core sv \<Longrightarrow> \<forall>x \<in> set (rv_results sv'). sr_status (snd (snd x)) \<noteq> Run_Running \<Longrightarrow>
   runs_in A sv \<Longrightarrow> runs_in A sv'"
  by (simp add: runs_in_def run_core_def running_rows_def)

lemma run_core_frames [simp]:
  "run_core (emitReadChange sv) = run_core sv" "run_core (delete_script n sv) = run_core sv"
  "run_core (set_result n i res sv) = run_core sv" "run_core (track n i sv) = run_core sv"
  "run_core (updateRoutine r sv) = run_core sv" "run_core (insertRoutine r sv) = run_core sv"
  "run_core (stop_calls s es sv) = run_core sv" "run_core (sv\<lparr>rv_created := cs\<rparr>) = run_core sv"
  "run_core (sv\<lparr>rv_results := rs\<rparr>) = run_core sv"
  by (simp_all add: run_core_def emitReadChange_def delete_script_def set_result_def track_def Let_def updateRoutine_def
      insertRoutine_def stop_calls_def)

lemma rv_results_frames [simp]:
  "rv_results (emitReadChange sv) = rv_results sv" "rv_results (delete_script n sv) = rv_results sv"
  "rv_results (track n i sv) = rv_results sv" "rv_results (updateRoutine r sv) = rv_results sv"
  "rv_results (finishRoutineRun n res sv) = rv_results sv" "rv_results (insertRoutine r sv) = rv_results sv"
  "rv_results (stop_calls s es sv) = rv_results sv" "rv_results (snd (insertRoutineRun mk sv)) = rv_results sv"
  "rv_results (interruptRoutineRuns sv) = rv_results sv" "rv_results (skip_missed now r sv) = rv_results sv"
  by (simp_all add: emitReadChange_def delete_script_def track_def Let_def updateRoutine_def finishRoutineRun_def
      insertRoutine_def stop_calls_def insertRoutineRun_def interruptRoutineRuns_def skip_missed_def)

lemma rv_scripts_frames [simp]:
  "rv_scripts (emitReadChange sv) = rv_scripts sv" "rv_scripts (set_result n i res sv) = rv_scripts sv"
  "rv_scripts (updateRoutine r sv) = rv_scripts sv" "rv_scripts (finishRoutineRun n res sv) = rv_scripts sv"
  "rv_scripts (insertRoutine r sv) = rv_scripts sv" "rv_scripts (stop_calls s es sv) = rv_scripts sv"
  "rv_scripts (snd (insertRoutineRun mk sv)) = rv_scripts sv" "rv_scripts (interruptRoutineRuns sv) = rv_scripts sv"
  "rv_scripts (skip_missed now r sv) = rv_scripts sv"
  by (simp_all add: emitReadChange_def set_result_def updateRoutine_def finishRoutineRun_def insertRoutine_def
      stop_calls_def insertRoutineRun_def interruptRoutineRuns_def skip_missed_def Let_def)

lemma pend_frames [simp]:
  "pend (emitReadChange sv) = pend sv" "pend (updateRoutine r sv) = pend sv" "pend (finishRoutineRun n res sv) = pend sv"
  "pend (insertRoutine r sv) = pend sv" "pend (stop_calls s es sv) = pend sv" "pend (snd (insertRoutineRun mk sv)) = pend sv"
  "pend (interruptRoutineRuns sv) = pend sv" "pend (skip_missed now r sv) = pend sv"
  by (simp_all add: pend_def)

lemma runs_ok_emit [simp]: "runs_ok (emitReadChange sv) = runs_ok sv"
  by (auto simp: runs_ok_def runs_in_def running_rows_def emitReadChange_def pend_def)

lemma runs_ok_update [simp]: "runs_ok (updateRoutine r sv) = runs_ok sv"
  by (auto simp: runs_ok_def runs_in_def running_rows_def updateRoutine_def pend_def)

lemma finish_row_fields [simp]:
  "rr_id (finish_row res r) = rr_id r" "rr_routineId (finish_row res r) = rr_routineId r" "rr_status (finish_row res r) = sr_status res"
  by (simp_all add: finish_row_def)

lemma in_running:
  "(n, i) \<in> running_rows sv \<longleftrightarrow> (\<exists>r \<in> set (rv_runs sv). rr_status r = Run_Running \<and> rr_id r = n \<and> rr_routineId r = i)"
  by (auto simp: running_rows_def)

lemma in_running_finish:
  "(m, i) \<in> running_rows (finishRoutineRun n res sv) \<longleftrightarrow>
    (\<exists>r \<in> set (rv_runs sv). (if rr_id r = n then sr_status res else rr_status r) = Run_Running \<and> rr_id r = m \<and> rr_routineId r = i)"
proof -
  have "rr_status (if rr_id r = n then finish_row res r else r) = (if rr_id r = n then sr_status res else rr_status r)"
    "rr_id (if rr_id r = n then finish_row res r else r) = rr_id r"
    "rr_routineId (if rr_id r = n then finish_row res r else r) = rr_routineId r" for r
    by simp_all
  then show ?thesis unfolding in_running finishRoutineRun_def by (simp del: if_image_distrib)
qed

lemma running_finish:
  assumes "sr_status res \<noteq> Run_Running"
  shows "running_rows (finishRoutineRun n res sv) = running_rows sv - {p. fst p = n}"
proof (rule set_eqI)
  fix p :: "nat \<times> string"
  obtain m i where p: "p = (m, i)" by (cases p)
  show "p \<in> running_rows (finishRoutineRun n res sv) \<longleftrightarrow> p \<in> running_rows sv - {p. fst p = n}"
    unfolding p in_running_finish unfolding Diff_iff in_running using assms by auto
qed

lemma rows_of_finish:
  "map rr_id (rv_runs (finishRoutineRun n res sv)) = map rr_id (rv_runs sv)"
  by (auto simp: finishRoutineRun_def)

lemma runs_in_finish:
  assumes "runs_in A sv" "sr_status res \<noteq> Run_Running"
  shows "runs_in A (finishRoutineRun n res sv)"
proof -
  have "\<forall>r \<in> set (rv_runs (finishRoutineRun n res sv)). rr_id r \<le> rv_lastRun sv"
    using assms(1) by (auto simp: runs_in_def finishRoutineRun_def)
  moreover have "one_to_one (running_rows sv - {p. fst p = n})"
    using assms(1) by (auto simp: runs_in_def one_to_one_def)
  moreover have "rv_lastRun (finishRoutineRun n res sv) = rv_lastRun sv" "rv_stopping (finishRoutineRun n res sv) = rv_stopping sv"
    "rv_started (finishRoutineRun n res sv) = rv_started sv"
    by (simp_all add: finishRoutineRun_def)
  ultimately show ?thesis
    using assms unfolding runs_in_def running_finish[OF assms(2)] rows_of_finish by auto
qed

lemma runs_ok_persist_one:
  assumes "runs_ok sv" "sr_status res \<noteq> Run_Running"
  shows "runs_ok (persist_one P n res sv)"
proof -
  let ?f = "finishRoutineRun n res sv" and ?g = "(finishRoutineRun n res sv)\<lparr>rv_results := filter (\<lambda>x. fst x \<noteq> n) (rv_results sv)\<rparr>"
  have f: "runs_in (pend sv) ?f" using runs_in_finish assms by (simp add: runs_ok_def)
  have "runs_in (pend sv) ?g"
    by (rule runs_in_core[OF _ _ f]) (use assms(1) in \<open>auto simp: runs_ok_def runs_in_def\<close>)
  moreover have "pend ?g \<subseteq> pend sv" by (auto simp: pend_def)
  moreover have "running_rows ?g \<subseteq> pend ?g" if "\<not> rv_stopping ?g"
  proof -
    have "running_rows ?g = running_rows sv - {p. fst p = n}"
      using running_finish[OF assms(2), of n sv] by (simp add: running_rows_def)
    moreover have "running_rows sv \<subseteq> pend sv" using assms(1) that by (simp add: runs_ok_def runs_in_def finishRoutineRun_def)
    ultimately show ?thesis by (force simp: pend_def)
  qed
  ultimately have "runs_ok ?g" unfolding runs_ok_def by (rule runs_in_shrink)
  moreover have "runs_ok ?f" using f by (simp add: runs_ok_def)
  ultimately show ?thesis using assms(1) by (simp add: persist_one_def Let_def)
qed

lemma rv_results_persist_one: "set (rv_results (persist_one P n res sv)) \<subseteq> set (rv_results sv)"
  by (auto simp: persist_one_def Let_def)

lemma runs_ok_persist: "runs_ok sv \<Longrightarrow> runs_ok (persistResults P sv)"
proof -
  have "\<forall>x \<in> set xs. sr_status (snd (snd x)) \<noteq> Run_Running \<Longrightarrow> runs_ok s \<Longrightarrow>
      runs_ok (fold (\<lambda>(n, _, res). persist_one P n res) xs s)" for xs s
  proof (induction xs arbitrary: s)
    case (Cons x xs)
    obtain n i res where "x = (n, i, res)" by (cases x)
    with Cons show ?case by (simp add: runs_ok_persist_one)
  qed simp
  moreover assume r: "runs_ok sv"
  moreover have "\<forall>x \<in> set (rv_results sv). sr_status (snd (snd x)) \<noteq> Run_Running"
    using r by (simp add: runs_ok_def runs_in_def)
  ultimately show ?thesis by (simp add: persistResults_def)
qed

lemma runs_in_results_ok: "runs_in A sv \<Longrightarrow> x \<in> set (rv_results sv) \<Longrightarrow> sr_status (snd (snd x)) \<noteq> Run_Running"
  by (simp add: runs_in_def)

lemma set_result_statuses:
  "x \<in> set (rv_results (set_result n i res sv)) \<Longrightarrow> x \<in> set (rv_results sv) \<or> x = (n, i, res)"
  by (auto simp: set_result_def split: if_splits)

text \<open>Completing a run: it is pending already, or is the run just admitted.\<close>

lemma runs_ok_complete:
  assumes "runs_in (insert (n, i) (pend sv)) sv" "sr_status res \<noteq> Run_Running"
  shows "runs_ok (completeScript P n i res sv)"
proof -
  let ?s = "set_result n i res (delete_script n sv)"
  have "pend ?s = insert (n, i) (pend sv)"
    using assms(1) by (intro pend_complete) (auto simp: runs_in_def one_to_one_def)
  moreover have "runs_in (insert (n, i) (pend sv)) ?s"
    by (rule runs_in_core[OF _ _ assms(1)]) (use assms in \<open>auto dest!: set_result_statuses runs_in_results_ok\<close>)
  ultimately have "runs_ok ?s" by (simp add: runs_ok_def)
  then show ?thesis by (simp add: completeScript_def runs_ok_persist)
qed

lemma runs_ok_track:
  assumes "runs_in (insert (n, i) (pend sv)) sv"
  shows "runs_ok (track n i sv)"
proof -
  have "pend (track n i sv) = insert (n, i) (pend sv)"
    using assms by (intro pend_track) (auto simp: runs_in_def one_to_one_def)
  moreover have "runs_in (insert (n, i) (pend sv)) (track n i sv)"
    by (rule runs_in_core[OF _ _ assms]) (use assms in \<open>auto dest: runs_in_results_ok\<close>)
  ultimately show ?thesis by (simp add: runs_ok_def)
qed

lemma runs_ok_done:
  assumes "runs_ok sv" "sr_status res \<noteq> Run_Running"
  shows "runs_ok (script_done P e res sv)"
proof (cases "e \<in> set (rv_scripts sv)")
  case True
  then have "insert (se_run e, se_routineId e) (pend sv) = pend sv" using pend_member(1) by blast
  then show ?thesis using assms True runs_ok_complete[of "se_run e" "se_routineId e" sv res P]
    by (simp add: script_done_def runs_ok_def)
qed (use assms in \<open>simp add: script_done_def\<close>)

text \<open>The row of a run that is running keeps its place when its worktree is recorded.\<close>

lemma runs_in_worktree:
  assumes "runs_in A sv" and "\<forall>r \<in> set (rv_runs sv). rr_id r = n \<longrightarrow> rr_status r = Run_Running"
  shows "runs_in A (finishRoutineRun n (running_at w) sv)"
proof -
  have same: "running_rows (finishRoutineRun n (running_at w) sv) = running_rows sv"
  proof (rule set_eqI)
    fix p :: "nat \<times> string"
    have "sr_status (running_at w) = Run_Running" by (simp add: running_at_def)
    moreover obtain m i where p: "p = (m, i)" by (cases p)
    ultimately show "p \<in> running_rows (finishRoutineRun n (running_at w) sv) \<longleftrightarrow> p \<in> running_rows sv"
      unfolding p in_running_finish unfolding in_running using assms(2) by auto
  qed
  moreover have "\<forall>r \<in> set (rv_runs (finishRoutineRun n (running_at w) sv)). rr_id r \<le> rv_lastRun sv"
    using assms(1) by (auto simp: runs_in_def finishRoutineRun_def)
  moreover have "rv_lastRun (finishRoutineRun n (running_at w) sv) = rv_lastRun sv"
    "rv_stopping (finishRoutineRun n (running_at w) sv) = rv_stopping sv"
    "rv_started (finishRoutineRun n (running_at w) sv) = rv_started sv"
    by (simp_all add: finishRoutineRun_def)
  ultimately show ?thesis using assms(1) unfolding runs_in_def rows_of_finish same by simp
qed

lemma pending_routine: "hasPendingScript i sv \<longleftrightarrow> (\<exists>n. (n, i) \<in> pend sv)"
  by (auto simp: hasPendingScript_def pend_def image_iff)

text \<open>Admitting a run of a routine that has none pending.\<close>

lemma runs_in_insert_running:
  assumes "runs_ok sv" and "\<not> rv_stopping sv" and "\<not> hasPendingScript i sv"
  shows "runs_in (insert (Suc (rv_lastRun sv), i) (pend sv)) (snd (insertRoutineRun (new_run i now Run_Running t m why) sv))"
proof -
  let ?n = "Suc (rv_lastRun sv)" and ?s = "snd (insertRoutineRun (new_run i now Run_Running t m why) sv)"
  have ok: "runs_in (pend sv) sv" using assms(1) by (simp add: runs_ok_def)
  have fresh: "\<forall>p \<in> pend sv. fst p \<noteq> ?n \<and> snd p \<noteq> i"
  proof
    fix p assume p: "p \<in> pend sv"
    with ok have "fst p \<le> rv_lastRun sv" by (simp add: runs_in_def)
    moreover have "snd p \<noteq> i" using p assms(3) pending_routine[of i sv] by (metis prod.collapse)
    ultimately show "fst p \<noteq> ?n \<and> snd p \<noteq> i" by simp
  qed
  have rows: "running_rows ?s = insert (?n, i) (running_rows sv)"
    by (rule set_eqI) (auto simp: in_running insertRoutineRun_def new_run_def Let_def split: prod.splits)
  have one: "one_to_one (insert (?n, i) (pend sv))" using ok fresh by (auto simp: runs_in_def one_to_one_def)
  have sub: "running_rows sv \<subseteq> pend sv" using ok assms(2) by (simp add: runs_in_def)
  have "one_to_one (running_rows ?s)" using one by (rule one_to_one_mono) (use rows sub in auto)
  moreover have "?n \<notin> set (map rr_id (rv_runs sv))" using ok by (auto simp: runs_in_def)
  moreover have "\<forall>p \<in> pend sv \<union> running_rows sv. fst p \<le> ?n" using ok unfolding runs_in_def by (meson le_SucI)
  ultimately show ?thesis
    using ok one sub unfolding runs_in_def rows
    by (auto simp: insertRoutineRun_def new_run_def Let_def)
qed

lemma runs_in_started:
  assumes "runs_in A sv" and "n = rv_lastRun sv" and "n \<notin> set (rv_started sv)"
  shows "runs_in A (sv\<lparr>rv_started := rv_started sv @ [n]\<rparr>)"
  using assms by (simp add: runs_in_def running_rows_def)

lemma runs_ok_start_script:
  assumes "runs_in (insert (n, rt_id r) (pend sv)) sv" and "n = rv_lastRun sv" and "n \<notin> set (rv_started sv)"
    and "\<forall>x \<in> set (rv_runs sv). rr_id x = n \<longrightarrow> rr_status x = Run_Running"
  shows "runs_ok (start_script P r n now sv)"
proof -
  have failed: "sr_status (failed_result w now e) \<noteq> Run_Running" for w e by (simp add: failed_result_def)
  have w: "runs_in (insert (n, rt_id r) (pend (finishRoutineRun n (running_at w) sv))) (finishRoutineRun n (running_at w) sv)" for w
    using runs_in_worktree[OF assms(1,4)] by simp
  have fields: "rv_lastRun (finishRoutineRun n (running_at w) sv) = rv_lastRun sv"
    "rv_started (finishRoutineRun n (running_at w) sv) = rv_started sv" for w
    by (simp_all add: finishRoutineRun_def)
  have "runs_ok (track n (rt_id r) ((finishRoutineRun n (running_at w) sv)\<lparr>rv_started := rv_started sv @ [n]\<rparr>))" for w
  proof (rule runs_ok_track)
    let ?s = "(finishRoutineRun n (running_at w) sv)\<lparr>rv_started := rv_started sv @ [n]\<rparr>"
    have "pend ?s = pend (finishRoutineRun n (running_at w) sv)" by (simp add: pend_def)
    then show "runs_in (insert (n, rt_id r) (pend ?s)) ?s"
      using runs_in_started[OF w[of w], of n] assms(2,3) fields by simp
  qed
  then show ?thesis
    using runs_ok_complete[OF assms(1) failed] runs_ok_complete[OF w failed] fields
    by (simp add: start_script_def Let_def split: sum.split)
qed

text \<open>Rows that are not running can be added at any time.\<close>

lemma runs_ok_insert_other:
  assumes "runs_ok sv" and "\<And>n. rr_status (mk n) \<noteq> Run_Running \<and> rr_id (mk n) = n"
  shows "runs_ok (snd (insertRoutineRun mk sv))"
proof -
  let ?s = "snd (insertRoutineRun mk sv)"
  have ok: "runs_in (pend sv) sv" using assms(1) by (simp add: runs_ok_def)
  have rows: "running_rows ?s = running_rows sv"
    using assms(2) by (auto simp: running_rows_def insertRoutineRun_def Let_def)
  have "Suc (rv_lastRun sv) \<notin> set (map rr_id (rv_runs sv))" using ok by (auto simp: runs_in_def)
  moreover have "\<forall>p \<in> pend sv \<union> running_rows sv. fst p \<le> Suc (rv_lastRun sv)" using ok unfolding runs_in_def by (meson le_SucI)
  ultimately have "runs_in (pend sv) ?s"
    using ok assms(2) unfolding runs_in_def rows by (auto simp: insertRoutineRun_def Let_def)
  then show ?thesis by (simp add: runs_ok_def)
qed

lemma runs_ok_fire_script:
  assumes "runs_ok sv"
  shows "runs_ok (snd (fire_script P r now manual sv))"
proof -
  define nx where "nx = (if manual then Inr (rt_nextRunAt r) else next_fire P (rt_schedule r) now)"
  have "runs_ok (snd (fire_script P r now manual sv))" if nxt: "nx = Inr nxt" and run: "\<not> rv_stopping sv" for nxt
  proof -
    define s where "s = updateRoutine (r\<lparr>rt_lastRunAt := Some now, rt_updatedAt := now, rt_nextRunAt := nxt\<rparr>) sv"
    have s: "runs_ok s" "rv_stopping s = rv_stopping sv" "script_slots_full r s = script_slots_full r sv"
      using assms by (simp_all add: s_def) (simp_all add: updateRoutine_def script_slots_full_def hasPendingScript_def)
    define why where "why = (if script_slots_full r sv then ''script already running or script capacity reached''
      else if manual then ''manual'' else ''scheduled'')"
    define mk where "mk = new_run (rt_id r) now (if script_slots_full r sv then Run_Skipped else Run_Running) None False (Some why)"
    define s2 where "s2 = snd (insertRoutineRun mk s)"
    have "runs_ok s2" if "script_slots_full r sv"
      using runs_ok_insert_other[OF s(1), of mk] that by (simp add: s2_def mk_def new_run_def)
    moreover have "runs_ok (start_script P r (Suc (rv_lastRun s)) now s2)" if full: "\<not> script_slots_full r sv"
    proof (rule runs_ok_start_script)
      have "\<not> hasPendingScript (rt_id r) s" using full s(3) by (simp add: script_slots_full_def)
      moreover have "mk = new_run (rt_id r) now Run_Running None False (Some why)" using full by (simp add: mk_def)
      ultimately have "runs_in (insert (Suc (rv_lastRun s), rt_id r) (pend s)) s2"
        using runs_in_insert_running[OF s(1), of "rt_id r" now None False "Some why"] s(2) run by (simp add: s2_def)
      then show "runs_in (insert (Suc (rv_lastRun s), rt_id r) (pend s2)) s2" by (simp add: s2_def)
      show "Suc (rv_lastRun s) = rv_lastRun s2" by (simp add: s2_def insertRoutineRun_def Let_def)
      have ok: "runs_in (pend s) s" using s(1) by (simp add: runs_ok_def)
      then show "Suc (rv_lastRun s) \<notin> set (rv_started s2)"
        by (auto simp: s2_def insertRoutineRun_def Let_def runs_in_def)
      show "\<forall>x \<in> set (rv_runs s2). rr_id x = Suc (rv_lastRun s) \<longrightarrow> rr_status x = Run_Running"
        using ok full by (auto simp: s2_def insertRoutineRun_def Let_def runs_in_def mk_def new_run_def)
    qed
    moreover have "fst (insertRoutineRun mk s) = Suc (rv_lastRun s)" by (simp add: insertRoutineRun_def Let_def)
    ultimately show ?thesis
      using assms nxt run by (simp add: fire_script_def nx_def[symmetric] Let_def case_prod_beta s_def[symmetric] why_def[symmetric]
          mk_def[symmetric] s2_def[symmetric])
  qed
  moreover have "snd (fire_script P r now manual sv) = sv" if "(\<exists>e. nx = Inl e) \<or> rv_stopping sv"
    using that by (auto simp: fire_script_def nx_def[symmetric] Let_def)
  ultimately show ?thesis using assms by (cases nx) fastforce+
qed

lemma runs_ok_created [simp]: "runs_ok (sv\<lparr>rv_created := cs\<rparr>) = runs_ok sv"
  by (simp add: runs_ok_def runs_in_def running_rows_def pend_def)

lemma runs_ok_fire_agent: "runs_ok sv \<Longrightarrow> runs_ok (snd (fire_agent P r now manual sv))"
proof -
  assume ok: "runs_ok sv"
  have "runs_ok (snd (insertRoutineRun (new_run (rt_id r) now (if manual then Run_Manual else Run_Fired) t False why) s))"
    if "runs_ok s" for t why s
    by (rule runs_ok_insert_other[OF that]) (simp add: new_run_def)
  then show ?thesis using ok
    by (auto simp: fire_agent_def Let_def case_prod_beta split: sum.split)
qed

lemma runs_ok_fire: "runs_ok sv \<Longrightarrow> runs_ok (snd (fire P r now manual sv))"
  by (simp add: fire_def runs_ok_fire_script runs_ok_fire_agent)

lemma runs_ok_fire_all: "runs_ok sv \<Longrightarrow> runs_ok (fire_all P now rs sv)"
proof (induction rs arbitrary: sv)
  case (Cons r rs)
  obtain x sv1 where f: "fire P r now False sv = (x, sv1)" by (cases "fire P r now False sv")
  have "runs_ok sv1" using runs_ok_fire[OF Cons.prems, of P r now False] f by simp
  with Cons f show ?case by (cases x) auto
qed simp

lemma runs_ok_tick: "runs_ok sv \<Longrightarrow> runs_ok (tick P now sv)"
  by (simp add: tick_def Let_def runs_ok_persist runs_ok_fire_all)

lemma runs_ok_skip: "runs_ok sv \<Longrightarrow> runs_ok (skip_missed now r sv)"
  unfolding skip_missed_def by (rule runs_ok_insert_other) (simp_all add: new_run_def)

lemma runs_ok_start_routines: "runs_ok sv \<Longrightarrow> runs_ok (snd (start_routines P now rs sv))"
proof (induction rs arbitrary: sv)
  case (Cons r rs)
  then show ?case by (auto simp: Let_def runs_ok_skip split: sum.split)
qed simp

text \<open>After a restart everything the history shows as running is tracked again or interrupted.\<close>

definition history_ok :: "rsvc \<Rightarrow> bool" where
  "history_ok sv \<longleftrightarrow> one_to_one (running_rows sv) \<and> (\<forall>r \<in> set (rv_runs sv). rr_id r \<le> rv_lastRun sv) \<and>
    distinct (map rr_id (rv_runs sv)) \<and> distinct (rv_started sv) \<and> (\<forall>n \<in> set (rv_started sv). n \<le> rv_lastRun sv)"

lemma runs_ok_history: "runs_ok sv \<Longrightarrow> history_ok sv"
  by (auto simp: runs_ok_def runs_in_def history_ok_def)

lemma running_interrupted: "running_rows (interruptRoutineRuns sv) = {}"
  by (auto simp: running_rows_def interruptRoutineRuns_def)

lemma map_id_interrupt: "map rr_id (rv_runs (interruptRoutineRuns sv)) = map rr_id (rv_runs sv)"
  by (simp add: interruptRoutineRuns_def)

lemma runs_in_interrupt:
  assumes "history_ok sv" "rv_scripts sv = []" "rv_results sv = []"
  shows "runs_ok (interruptRoutineRuns sv)"
proof -
  have "\<forall>n \<in> set (map rr_id (rv_runs (interruptRoutineRuns sv))). n \<le> rv_lastRun sv"
    unfolding map_id_interrupt using assms(1) by (simp add: history_ok_def)
  then have "\<forall>r \<in> set (rv_runs (interruptRoutineRuns sv)). rr_id r \<le> rv_lastRun sv" by simp
  moreover have "rv_lastRun (interruptRoutineRuns sv) = rv_lastRun sv" "rv_started (interruptRoutineRuns sv) = rv_started sv"
    by (simp_all add: interruptRoutineRuns_def)
  ultimately show ?thesis
    using assms by (simp add: runs_ok_def runs_in_def running_interrupted map_id_interrupt pend_def history_ok_def one_to_one_def)
qed

lemma fold_track:
  assumes "\<forall>p \<in> pend s. \<forall>r \<in> set rs. fst p = rr_id r \<longrightarrow> snd p = rr_routineId r"
    and "\<forall>r \<in> set rs. \<forall>q \<in> set rs. rr_id r = rr_id q \<longrightarrow> rr_routineId r = rr_routineId q"
  shows "pend (fold (\<lambda>r. track (rr_id r) (rr_routineId r)) rs s) = pend s \<union> (\<lambda>r. (rr_id r, rr_routineId r)) ` set rs \<and>
    run_core (fold (\<lambda>r. track (rr_id r) (rr_routineId r)) rs s) = run_core s \<and>
    rv_results (fold (\<lambda>r. track (rr_id r) (rr_routineId r)) rs s) = rv_results s"
  using assms
proof (induction rs arbitrary: s)
  case (Cons r rs)
  have t: "pend (track (rr_id r) (rr_routineId r) s) = insert (rr_id r, rr_routineId r) (pend s)"
    by (rule pend_track) (use Cons.prems(1) in auto)
  let ?s = "track (rr_id r) (rr_routineId r) s"
  have A: "\<forall>p \<in> pend ?s. \<forall>q \<in> set rs. fst p = rr_id q \<longrightarrow> snd p = rr_routineId q"
    using Cons.prems unfolding t by (metis fst_conv insertE list.set_intros snd_conv)
  have B: "\<forall>r \<in> set rs. \<forall>q \<in> set rs. rr_id r = rr_id q \<longrightarrow> rr_routineId r = rr_routineId q"
    using Cons.prems(2) by (meson list.set_intros(2))
  show ?case using Cons.IH[OF A B] unfolding t by simp
next
  case Nil
  show ?case by simp
qed

lemma runs_ok_recover:
  assumes "history_ok sv" "rv_scripts sv = []" "rv_results sv = []"
  shows "runs_ok (fold (\<lambda>r. track (rr_id r) (rr_routineId r)) (runningRoutineRuns sv) sv)" (is "runs_ok ?s")
proof -
  have rs: "(\<lambda>r. (rr_id r, rr_routineId r)) ` set (runningRoutineRuns sv) = running_rows sv"
    by (auto simp: runningRoutineRuns_def running_rows_def)
  have functional: "\<forall>r \<in> set (runningRoutineRuns sv). \<forall>q \<in> set (runningRoutineRuns sv). rr_id r = rr_id q \<longrightarrow> rr_routineId r = rr_routineId q"
  proof (intro ballI impI)
    fix r q assume "r \<in> set (runningRoutineRuns sv)" "q \<in> set (runningRoutineRuns sv)" "rr_id r = rr_id q"
    then have "(rr_id r, rr_routineId r) \<in> running_rows sv" "(rr_id r, rr_routineId q) \<in> running_rows sv"
      unfolding rs[symmetric] by (auto simp: image_iff intro: bexI[of _ r] bexI[of _ q])
    then show "rr_routineId r = rr_routineId q" using assms(1) unfolding history_ok_def one_to_one_def by force
  qed
  have none: "pend sv = {}" using assms(2,3) by (simp add: pend_def)
  have "pend ?s = pend sv \<union> running_rows sv \<and> run_core ?s = run_core sv \<and> rv_results ?s = rv_results sv"
    unfolding rs[symmetric] by (rule fold_track[OF _ functional]) (simp add: none)
  then have p: "pend ?s = running_rows sv" "run_core ?s = run_core sv" "rv_results ?s = []"
    using none assms(3) by simp_all
  have rows: "running_rows ?s = running_rows sv" using p(2) by (simp add: run_core_def running_rows_def)
  have "\<forall>p \<in> running_rows sv. fst p \<le> rv_lastRun sv" using assms(1) by (auto simp: history_ok_def running_rows_def)
  then show ?thesis using assms(1) p unfolding runs_ok_def runs_in_def p(1) rows
    by (simp add: history_ok_def run_core_def)
qed

lemma runs_ok_start:
  assumes "runs_ok sv" "\<not> independentScripts P"
  shows "runs_ok (snd (start_service P now (boot_routines sv)))"
proof -
  define s where "s = reconcile_scripts P ((boot_routines sv)\<lparr>rv_stopping := False\<rparr>)"
  let ?b = "(boot_routines sv)\<lparr>rv_stopping := False\<rparr>"
  have b: "history_ok ?b" "rv_scripts ?b = []" "rv_results ?b = []"
    using runs_ok_history[OF assms(1)] by (simp_all add: boot_routines_def history_ok_def running_rows_def)
  have "runs_ok s"
    unfolding s_def reconcile_scripts_def using assms(2) runs_ok_recover[OF b] runs_in_interrupt[OF b] by simp
  then have r: "runs_ok (snd (start_routines Q now rs s))" for Q rs by (rule runs_ok_start_routines)
  obtain x s1 where x: "start_routines P now (listRoutines s) s = (x, s1)" by (cases "start_routines P now (listRoutines s) s")
  have t: "\<not> rv_timer (boot_routines sv)" by (simp add: boot_routines_def)
  have "runs_ok s1" using r[of P "listRoutines s"] x by simp
  moreover have "runs_ok (s1\<lparr>rv_timer := True\<rparr>) = runs_ok s1"
    by (simp add: runs_ok_def runs_in_def running_rows_def pend_def)
  ultimately show ?thesis using x t by (cases x) (simp_all add: start_service_def Let_def s_def[symmetric])
qed

lemma runs_ok_delete:
  assumes "runs_ok sv"
  shows "runs_ok (deleteRoutine i sv)"
proof -
  have "running_rows (deleteRoutine i sv) \<subseteq> running_rows sv" by (auto simp: running_rows_def deleteRoutine_def)
  moreover have "pend (deleteRoutine i sv) = pend sv" by (simp add: pend_def deleteRoutine_def)
  moreover have "distinct (map rr_id (rv_runs (deleteRoutine i sv)))"
    using assms by (auto simp: runs_ok_def runs_in_def deleteRoutine_def distinct_map intro: inj_on_subset)
  ultimately show ?thesis
    using assms one_to_one_mono[of "running_rows sv" "running_rows (deleteRoutine i sv)"]
    unfolding runs_ok_def runs_in_def by (auto simp: deleteRoutine_def)
qed

lemma runs_ok_stop_begin: "runs_ok sv \<Longrightarrow> runs_ok (stop_begin P sv)"
proof -
  assume ok: "runs_ok sv"
  define s where "s = sv\<lparr>rv_stopping := True, rv_timer := False, rv_scripts := []\<rparr>"
  have "runs_in (pend sv) (sv\<lparr>rv_stopping := True, rv_timer := False\<rparr>)"
    using ok by (simp add: runs_ok_def runs_in_def running_rows_def)
  then have "runs_in (pend sv) s" by (simp add: runs_in_def running_rows_def s_def)
  moreover have "pend s \<subseteq> pend sv" by (auto simp: pend_def s_def)
  ultimately have "runs_ok s" unfolding runs_ok_def by (rule runs_in_shrink) (simp add: s_def)
  moreover have "runs_ok (stop_calls r es (sv\<lparr>rv_stopping := True, rv_timer := False\<rparr>))" for r es
    using ok by (simp add: runs_ok_def runs_in_def running_rows_def pend_def stop_calls_def)
  ultimately show ?thesis by (simp add: stop_begin_def Let_def s_def)
qed

lemma update_rt_state:
  "snd (update_rt P i req now sv) = sv \<or> (\<exists>r. snd (update_rt P i req now sv) = emitReadChange (updateRoutine r sv))"
  unfolding update_rt_def Let_def by (auto split: sum.splits option.splits if_splits)

lemma runs_ok_step:
  assumes "routine_step P sv sv'" and "runs_ok sv" and "\<not> independentScripts P"
  shows "runs_ok sv'"
  using assms(1)
proof (cases rule: routine_step.cases)
  case (R_Start Q now)
  then show ?thesis using runs_ok_start[OF assms(2), of Q now] assms(3) by (simp add: same_runner_def)
next
  case (R_Tick Q now)
  then show ?thesis using assms(2) by (simp add: runs_ok_tick)
next
  case (R_Done Q res e)
  then show ?thesis using assms(2) by (simp add: runs_ok_done)
next
  case (R_StopBegin Q)
  then show ?thesis using assms(2) by (simp add: runs_ok_stop_begin)
next
  case (R_StopEnd Q)
  then show ?thesis using assms(2) by (simp add: stop_end_def Let_def runs_ok_persist)
next
  case (R_Create Q req now)
  have "runs_ok (insertRoutine r sv)" for r
    using assms(2) by (simp add: runs_ok_def runs_in_def running_rows_def pend_def insertRoutine_def)
  with R_Create show ?thesis using assms(2)
    by (simp add: create_rt_def Let_def case_prod_beta split: option.split sum.split)
next
  case (R_Update Q i ureq now)
  then show ?thesis using assms(2) update_rt_state[of Q i ureq now sv] by auto
next
  case (R_Remove i)
  then show ?thesis using assms(2) by (simp add: remove_rt_def runs_ok_delete split: sum.split)
next
  case (R_RunNow Q i now)
  have "runs_ok (snd (fire Q r now True sv))" for r using assms(2) by (rule runs_ok_fire)
  moreover have "snd (runNow Q i now sv) = (case get_rt i sv of Inl _ \<Rightarrow> sv | Inr r \<Rightarrow> snd (fire Q r now True sv))"
    by (simp add: runNow_def split: sum.split prod.split)
  ultimately show ?thesis using assms(2) R_RunNow by (simp split: sum.split)
next
  case (R_StopRun i)
  have "runs_ok (stop_calls r es sv)" for r es
    using assms(2) by (simp add: runs_ok_def runs_in_def running_rows_def pend_def stop_calls_def)
  with R_StopRun show ?thesis using assms(2) by (simp add: stopRun_def split: sum.split)
qed

section \<open>Every reachable state\<close>

definition routines_reach :: "rports \<Rightarrow> rsvc \<Rightarrow> bool" where
  "routines_reach P sv \<longleftrightarrow> (routine_step P)\<^sup>*\<^sup>* new_rsvc sv"

lemma reach_table: "routines_reach P sv \<Longrightarrow> table_ok sv"
  unfolding routines_reach_def
proof (induction rule: rtranclp_induct)
  case base
  then show ?case by (simp add: new_rsvc_def table_ok_def)
qed (rule table_ok_step)

lemma reach_runs: "routines_reach P sv \<Longrightarrow> \<not> independentScripts P \<Longrightarrow> runs_ok sv"
  unfolding routines_reach_def
proof (induction rule: rtranclp_induct)
  case base
  then show ?case by (simp add: new_rsvc_def runs_ok_def runs_in_def running_rows_def pend_def one_to_one_def)
qed (rule runs_ok_step)

end
