(* ===== verification/Routine_Properties.thy ===== *)
theory Routine_Properties
  imports Routine_Laws
begin

text \<open>
  The properties of the scheduler and of the routine service: which instants a cron
  expression fires at, that a due routine fires once, that a restart catches nothing up,
  and that a script never runs twice at the same time.
\<close>

section \<open>The clock of the service\<close>

text \<open>\<open>nextRun\<close> of a server whose zone has a fixed offset; the search always returns.\<close>

definition server_cron :: "int \<Rightarrow> string \<Rightarrow> int \<Rightarrow> int option result" where
  "server_cron offset expr now = (case nextRun (fixed_zone offset) expr now of Some r \<Rightarrow> r | None \<Rightarrow> Inr None)"

locale cron_clock =
  fixes nxt :: "string \<Rightarrow> int \<Rightarrow> int option result"
  assumes later: "nxt e now = Inr (Some t) \<Longrightarrow> now < t"
    and total: "parseCron e = Inr spec \<Longrightarrow> \<exists>r. nxt e now = Inr r"
begin

lemma stale_moves_on:
  assumes "cron P = nxt" "cadence_ok r" "rt_schedule r \<noteq> []"
  shows "\<exists>n. cron P (rt_schedule r) now = Inr n \<and> (n = None \<or> (\<exists>t. n = Some t \<and> now < t))"
proof -
  obtain spec where "parseCron (rt_schedule r) = Inr spec" using assms(2,3) by (auto simp: cadence_ok_def)
  with total obtain n where "nxt (rt_schedule r) now = Inr n" by blast
  with later[of "rt_schedule r" now] assms(1) show ?thesis by (cases n) auto
qed

end

interpretation server: cron_clock "server_cron offset"
proof
  fix e now t spec
  show "now < t" if answer: "server_cron offset e now = Inr (Some t)"
  proof -
    obtain spec where p: "parseCron e = Inr spec"
      using answer by (cases "parseCron e") (auto simp: server_cron_def nextRun_def)
    with answer have "next_run (fixed_zone offset) spec now = Some (Some t)"
      by (cases "next_run (fixed_zone offset) spec now") (auto simp: server_cron_def nextRun_def)
    with fixed.earliest[of offset spec now] show ?thesis by simp
  qed
  show "\<exists>r. server_cron offset e now = Inr r" if "parseCron e = Inr spec"
    using that fixed.earliest[where from_ms = now and offset = offset and spec = spec]
    by (auto simp: server_cron_def nextRun_def)
qed

section \<open>Cron expressions\<close>



text \<open>
  C15: Parsing the expression that a preset compiles to gives back exactly that cadence,
  for every hour and day the request may hold or leave out: minute zero of the chosen hour
  (of every hour for hourly), on the chosen weekday for weekly, from Monday to Friday for
  weekdays, on every day otherwise.
\<close>

theorem preset_round_trip:
  assumes "presetToCron preset hour day = Some c"
  shows "parseCron c = Inr (preset_spec preset hour day)"
  using assms by (rule compiled_preset)

theorem preset_round_trip_witness:
  "parseCron ''0 18 * * 6'' = Inr (preset_spec Weekly (Some 18) (Some 9))"
  by (rule preset_round_trip) code_simp

text \<open>
  C16: An expression that parses has, for every field, at least one value, and only values
  inside the range of the field, Sunday being 0 and never 7.
\<close>

theorem parsed_fields_in_range:
  assumes "parseCron expr = Inr spec"
  shows "within (FIELDS ! 0) (cs_minute spec) \<and> within (FIELDS ! 1) (cs_hour spec) \<and> within (FIELDS ! 2) (cs_dom spec) \<and>
    within (FIELDS ! 3) (cs_month spec) \<and> cs_dow spec \<noteq> {} \<and> (\<forall>v \<in> cs_dow spec. v \<le> 6)"
  using parseCron_fields[OF assms] sunday_zero_range by auto

theorem parsed_fields_in_range_witness:
  "\<exists>spec. parseCron ''*/15 9-17 1,15 * 5-7'' = Inr spec \<and> cs_dow spec \<noteq> {} \<and> (\<forall>v \<in> cs_dow spec. v \<le> 6)"
proof -
  have "parseCron ''*/15 9-17 1,15 * 5-7'' = Inr \<lparr>cs_minute = {0, 15, 30, 45}, cs_hour = {9..17}, cs_dom = {1, 15},
    cs_month = {1..12}, cs_dow = {0, 5, 6}, domRestricted = True, dowRestricted = True\<rparr>" by code_simp
  from this parsed_fields_in_range[OF this] show ?thesis by blast
qed

section \<open>Firing\<close>

lemma rv_runs_length [simp]:
  "length (rv_runs (finishRoutineRun n res sv)) = length (rv_runs sv)"
  "length (rv_runs (snd (insertRoutineRun mk sv))) = Suc (length (rv_runs sv))"
  "rv_runs (emitReadChange sv) = rv_runs sv" "rv_runs (updateRoutine r sv) = rv_runs sv"
  "rv_runs (track n i sv) = rv_runs sv" "rv_runs (set_result n i res sv) = rv_runs sv" "rv_runs (delete_script n sv) = rv_runs sv"
  by (simp_all add: finishRoutineRun_def insertRoutineRun_def Let_def emitReadChange_def updateRoutine_def track_def
      set_result_def delete_script_def)

lemma persist_one_length [simp]:
  "length (rv_runs (persist_one P n res sv)) = length (rv_runs sv)" "rv_stopping (persist_one P n res sv) = rv_stopping sv"
  by (simp_all add: persist_one_def Let_def) (simp add: finishRoutineRun_def emitReadChange_def)

lemma persist_length [simp]:
  "length (rv_runs (persistResults P sv)) = length (rv_runs sv)" "rv_stopping (persistResults P sv) = rv_stopping sv"
  unfolding persistResults_def by (rule fold_frame; auto)+

lemma rv_stopping_frames [simp]:
  "rv_stopping (finishRoutineRun n res sv) = rv_stopping sv" "rv_stopping (snd (insertRoutineRun mk sv)) = rv_stopping sv"
  "rv_stopping (emitReadChange sv) = rv_stopping sv" "rv_stopping (updateRoutine r sv) = rv_stopping sv"
  "rv_stopping (track n i sv) = rv_stopping sv" "rv_stopping (set_result n i res sv) = rv_stopping sv"
  "rv_stopping (delete_script n sv) = rv_stopping sv"
  by (simp_all add: finishRoutineRun_def insertRoutineRun_def Let_def emitReadChange_def updateRoutine_def track_def
      set_result_def delete_script_def)

lemma start_script_frame [simp]:
  "length (rv_runs (start_script P r n now sv)) = length (rv_runs sv)" "rv_stopping (start_script P r n now sv) = rv_stopping sv"
  by (simp_all add: start_script_def completeScript_def Let_def split: sum.split)

text \<open>A fire of a due routine: one more run, and the routine is due no more.\<close>

definition moved :: "routine \<Rightarrow> int \<Rightarrow> int option \<Rightarrow> routine" where
  "moved r now nxt = r\<lparr>rt_lastRunAt := Some now, rt_updatedAt := now, rt_nextRunAt := nxt\<rparr>"

lemma moved_due: "nxt = None \<or> (\<exists>t. nxt = Some t \<and> now < t) \<Longrightarrow> \<not> due P now ((moved r now nxt)\<lparr>rt_createdAt := c\<rparr>)"
  by (auto simp: due_def moved_def)

lemma fire_due:
  assumes "cadence_ok r" "due P now r" "\<not> rv_stopping sv" "\<not> rp_updating P" "cron P = server_cron offset"
  shows "\<exists>nxt. fst (fire P r now False sv) = Inr () \<and> (nxt = None \<or> (\<exists>t. nxt = Some t \<and> now < t)) \<and>
    rv_routines (snd (fire P r now False sv)) = rv_routines (updateRoutine (moved r now nxt) sv) \<and>
    \<not> rv_stopping (snd (fire P r now False sv)) \<and>
    length (rv_runs (snd (fire P r now False sv))) = Suc (length (rv_runs sv))"
proof -
  have s: "rt_schedule r \<noteq> []" using assms(1,2) by (auto simp: due_def cadence_ok_def split: option.splits)
  obtain nxt where n: "cron P (rt_schedule r) now = Inr nxt" "nxt = None \<or> (\<exists>t. nxt = Some t \<and> now < t)"
    using server.stale_moves_on[OF assms(5,1) s] by blast
  have nf: "next_fire P (rt_schedule r) now = Inr nxt" using n(1) s by (simp add: next_fire_def)
  have m: "r\<lparr>rt_lastRunAt := Some now, rt_nextRunAt := nxt, rt_updatedAt := now\<rparr> = moved r now nxt" by (simp add: moved_def)
  show ?thesis
  proof (cases "rt_kind r")
    case Script_Routine
    then show ?thesis using n(2) nf assms(3,4) unfolding fire_def fire_script_def
      by (intro exI[of _ nxt]) (simp add: Let_def case_prod_beta moved_def)
  next
    case Agent_Routine
    show ?thesis
    proof (intro exI[of _ nxt] conjI)
      show "nxt = None \<or> (\<exists>t. nxt = Some t \<and> now < t)" by (rule n(2))
      show "fst (fire P r now False sv) = Inr ()" using Agent_Routine nf by (simp add: fire_def fire_agent_def Let_def case_prod_beta)
      show "rv_routines (snd (fire P r now False sv)) = rv_routines (updateRoutine (moved r now nxt) sv)"
        using Agent_Routine nf by (cases "rp_createTask P (fire_request r)")
          (simp_all add: fire_def fire_agent_def Let_def case_prod_beta m, simp_all add: updateRoutine_def)
      show "\<not> rv_stopping (snd (fire P r now False sv))" using Agent_Routine nf assms(3)
        by (cases "rp_createTask P (fire_request r)") (simp_all add: fire_def fire_agent_def Let_def case_prod_beta)
      show "length (rv_runs (snd (fire P r now False sv))) = Suc (length (rv_runs sv))" using Agent_Routine nf
        by (cases "rp_createTask P (fire_request r)") (simp_all add: fire_def fire_agent_def Let_def case_prod_beta)
    qed
  qed
qed

lemma fire_all_due:
  assumes "cron P = server_cron offset" "\<not> rp_updating P"
  shows "table_ok sv \<Longrightarrow> \<not> rv_stopping sv \<Longrightarrow> distinct (map rt_id rs) \<Longrightarrow> set rs \<subseteq> set (rv_routines sv) \<Longrightarrow>
    \<forall>x \<in> set (rv_routines sv). due P now x \<longrightarrow> x \<in> set rs \<Longrightarrow>
    (\<forall>x \<in> set (rv_routines (fire_all P now rs sv)). \<not> due P now x) \<and>
    length (rv_runs (fire_all P now rs sv)) = length (rv_runs sv) + count_if (due P now) rs"
proof (induction rs arbitrary: sv)
  case Nil
  then show ?case by simp
next
  case (Cons r rs)
  show ?case
  proof (cases "due P now r")
    case False
    have "distinct (map rt_id rs)" "set rs \<subseteq> set (rv_routines sv)" using Cons.prems(3,4) by simp_all
    moreover have "\<forall>x \<in> set (rv_routines sv). due P now x \<longrightarrow> x \<in> set rs"
      using Cons.prems(5) False by (metis set_ConsD)
    ultimately show ?thesis using Cons.IH[OF Cons.prems(1,2)] False by simp
  next
    case True
    have r: "r \<in> set (rv_routines sv)" "cadence_ok r" using Cons.prems(1,4) by (auto simp: table_ok_def)
    obtain nxt where f: "fst (fire P r now False sv) = Inr ()" "nxt = None \<or> (\<exists>t. nxt = Some t \<and> now < t)"
      "rv_routines (snd (fire P r now False sv)) = rv_routines (updateRoutine (moved r now nxt) sv)"
      "\<not> rv_stopping (snd (fire P r now False sv))"
      "length (rv_runs (snd (fire P r now False sv))) = Suc (length (rv_runs sv))"
      using fire_due[OF r(2) True Cons.prems(2) assms(2,1)] by blast
    define sv1 where "sv1 = snd (fire P r now False sv)"
    have id: "rt_id (moved r now nxt) = rt_id r" by (simp add: moved_def)
    have tab: "x \<in> set (rv_routines sv1) \<longleftrightarrow> (\<exists>y \<in> set (rv_routines sv). x = (if rt_id y = rt_id r
        then (moved r now nxt)\<lparr>rt_createdAt := rt_createdAt y\<rparr> else y))" for x
      unfolding sv1_def f(3) updateRoutine_def by (auto simp: image_iff id)
    have others: "rt_id q \<noteq> rt_id r" if "q \<in> set rs" for q using Cons.prems(3) that by (simp, metis image_eqI)
    have "set rs \<subseteq> set (rv_routines sv1)"
    proof
      fix q assume q: "q \<in> set rs"
      with Cons.prems(4) others[OF q] show "q \<in> set (rv_routines sv1)" unfolding tab by force
    qed
    moreover have "x \<in> set rs" if x: "x \<in> set (rv_routines sv1)" "due P now x" for x
    proof -
      obtain y where y: "y \<in> set (rv_routines sv)" "x = (if rt_id y = rt_id r
        then (moved r now nxt)\<lparr>rt_createdAt := rt_createdAt y\<rparr> else y)" using x(1) tab by blast
      with x(2) moved_due[OF f(2)] have "rt_id y \<noteq> rt_id r" "x = y" by (auto split: if_splits)
      with y(1) x(2) Cons.prems(5) show ?thesis by auto
    qed
    moreover have "table_ok sv1" unfolding sv1_def using table_ok_fire[OF Cons.prems(1) r(2) due_fires[OF True]] .
    moreover have "fire_all P now (r # rs) sv = fire_all P now rs sv1"
      using True f(1) by (cases "fire P r now False sv") (simp add: sv1_def)
    moreover have "distinct (map rt_id rs)" "\<not> rv_stopping sv1" "length (rv_runs sv1) = Suc (length (rv_runs sv))"
      using Cons.prems(3) f(4,5) by (simp_all add: sv1_def)
    ultimately show ?thesis using Cons.IH[of sv1] True by simp
  qed
qed


text \<open>A server with one daily agent routine, first seen on the first of January 2025.\<close>

definition demo_rports :: rports where
  "demo_rports = \<lparr>rp_repo = (\<lambda>_. True), rp_updating = False, rp_createTask = (\<lambda>_. Inr ''t_1''), rp_newId = ''rt_1'',
     cron = server_cron 0, independentScripts = False, persistent = False, recovers = False, prepare = (\<lambda>_. Inr None),
     launch = (\<lambda>_. Inr ()), write_ok = (\<lambda>_. True), ack_ok = (\<lambda>_. True), zod_message = ''invalid''\<rparr>"

definition no_cadence :: create_routine where
  "no_cadence = \<lparr>cr_repoId = ''r'', cr_agent = None, cr_prompt = None, cr_kind = None, cr_script = None, cr_preset = None,
     cr_schedule = None, cr_hour = None, cr_dayOfWeek = None, cr_permission = None, cr_model = None, cr_effort = None,
     cr_title = None, cr_enabled = None\<rparr>"

definition demo_daily :: create_routine where
  "demo_daily = no_cadence\<lparr>cr_agent := Some Claude, cr_prompt := Some ''tidy up'', cr_preset := Some Daily, cr_hour := Some 7\<rparr>"

definition demo_script :: create_routine where
  "demo_script = no_cadence\<lparr>cr_kind := Some Script_Routine, cr_script := Some \<lparr>sq_command = ''make'', sq_timeout = None\<rparr>,
     cr_preset := Some Hourly\<rparr>"

abbreviation "new_year \<equiv> (1735689600000::int)"

definition demo_rt1 :: rsvc where
  "demo_rt1 = snd (create_rt demo_rports demo_daily new_year (snd (start_service demo_rports new_year (boot_routines new_rsvc))))"

lemma demo_rt1_reach: "routines_reach demo_rports demo_rt1"
proof -
  let ?s = "snd (start_service demo_rports new_year (boot_routines new_rsvc))"
  have same: "same_runner demo_rports demo_rports" by (simp add: same_runner_def)
  have "rv_routines ?s = []" by code_simp
  then have "routine_step demo_rports ?s demo_rt1"
    unfolding demo_rt1_def by (intro R_Create same) simp
  then show ?thesis unfolding routines_reach_def by (blast intro: converse_rtranclp_into_rtranclp R_Start same)
qed


text \<open>
  C18: A server that starts after an outage catches nothing up: it creates no task and
  starts no script, no routine is due afterwards, and the history gains exactly one skipped
  run for every enabled routine whose next fire had passed.
\<close>

lemma start_routines_skip:
  assumes "cron P = server_cron offset" "\<not> independentScripts P"
  shows "table_ok sv \<Longrightarrow> distinct (map rt_id rs) \<Longrightarrow> set rs \<subseteq> set (rv_routines sv) \<Longrightarrow>
    \<forall>x \<in> set (rv_routines sv). due P now x \<longrightarrow> x \<in> set rs \<Longrightarrow>
    \<exists>sv'. start_routines P now rs sv = (Inr (), sv') \<and> (\<forall>x \<in> set (rv_routines sv'). \<not> due P now x) \<and>
      rv_created sv' = rv_created sv \<and> rv_started sv' = rv_started sv \<and>
      map rr_status (rv_runs sv') = map rr_status (rv_runs sv) @ replicate (count_if (due P now) rs) Run_Skipped"
proof (induction rs arbitrary: sv)
  case Nil
  then show ?case by simp
next
  case (Cons r rs)
  have r: "r \<in> set (rv_routines sv)" "cadence_ok r" using Cons.prems(1,3) by (auto simp: table_ok_def)
  show ?case
  proof (cases "stale P now r")
    case False
    then have nd: "\<not> due P now r" using r(2) by (auto simp: due_def stale_def cadence_ok_def split: option.splits)
    have "distinct (map rt_id rs)" "set rs \<subseteq> set (rv_routines sv)" using Cons.prems(2,3) by simp_all
    moreover have "\<forall>x \<in> set (rv_routines sv). due P now x \<longrightarrow> x \<in> set rs"
      using Cons.prems(4) nd by (metis set_ConsD)
    ultimately show ?thesis using Cons.IH[OF Cons.prems(1)] False nd by simp
  next
    case True
    then have s: "rt_schedule r \<noteq> []" by (simp add: stale_def)
    obtain nxt where n: "cron P (rt_schedule r) now = Inr nxt" "nxt = None \<or> (\<exists>t. nxt = Some t \<and> now < t)"
      using server.stale_moves_on[OF assms(1) r(2) s] by blast
    define m where "m = r\<lparr>rt_nextRunAt := nxt, rt_updatedAt := now\<rparr>"
    define sv1 where "sv1 = (if due P now r then skip_missed now r (updateRoutine m sv) else updateRoutine m sv)"
    have id: "rt_id m = rt_id r" by (simp add: m_def)
    have routines: "rv_routines sv1 = rv_routines (updateRoutine m sv)" by (simp add: sv1_def)
    have tab: "x \<in> set (rv_routines sv1) \<longleftrightarrow> (\<exists>y \<in> set (rv_routines sv). x = (if rt_id y = rt_id r
        then m\<lparr>rt_createdAt := rt_createdAt y\<rparr> else y))" for x
      unfolding routines updateRoutine_def by (auto simp: image_iff id)
    have others: "rt_id q \<noteq> rt_id r" if "q \<in> set rs" for q using Cons.prems(2) that by (simp, metis image_eqI)
    have nd: "\<not> due P now (m\<lparr>rt_createdAt := c\<rparr>)" for c using n(2) by (auto simp: m_def due_def)
    have "set rs \<subseteq> set (rv_routines sv1)"
    proof
      fix q assume q: "q \<in> set rs"
      with Cons.prems(3) others[OF q] show "q \<in> set (rv_routines sv1)" unfolding tab by force
    qed
    moreover have "x \<in> set rs" if x: "x \<in> set (rv_routines sv1)" "due P now x" for x
    proof -
      obtain y where y: "y \<in> set (rv_routines sv)" "x = (if rt_id y = rt_id r
        then m\<lparr>rt_createdAt := rt_createdAt y\<rparr> else y)" using x(1) tab by blast
      with x(2) nd have "rt_id y \<noteq> rt_id r" "x = y" by (auto split: if_splits)
      with y(1) x(2) Cons.prems(4) show ?thesis by auto
    qed
    moreover have "table_ok sv1"
    proof -
      have "cadence_ok m" unfolding m_def using r(2) True by (intro cadence_ok_next(3)) (auto simp: stale_def)
      from table_ok_update[OF Cons.prems(1) this] show ?thesis unfolding table_ok_def routines .
    qed
    moreover have "distinct (map rt_id rs)" using Cons.prems(2) by simp
    ultimately obtain sv' where ih: "start_routines P now rs sv1 = (Inr (), sv')" "\<forall>x \<in> set (rv_routines sv'). \<not> due P now x"
      "rv_created sv' = rv_created sv1" "rv_started sv' = rv_started sv1"
      "map rr_status (rv_runs sv') = map rr_status (rv_runs sv1) @ replicate (count_if (due P now) rs) Run_Skipped"
      using Cons.IH[of sv1] by blast
    have eq: "start_routines P now (r # rs) sv = start_routines P now rs sv1"
      using True n(1) by (simp add: sv1_def m_def)
    have "rv_created sv1 = rv_created sv" "rv_started sv1 = rv_started sv"
      "map rr_status (rv_runs sv1) = map rr_status (rv_runs sv) @ (if due P now r then [Run_Skipped] else [])"
      by (simp_all add: sv1_def skip_missed_def insertRoutineRun_def updateRoutine_def new_run_def Let_def)
    with ih show ?thesis unfolding eq by simp
  qed
qed

lemma reconcile_fields [simp]:
  "rv_created (reconcile_scripts P sv) = rv_created sv" "rv_started (reconcile_scripts P sv) = rv_started sv"
  by (auto simp: reconcile_scripts_def interruptRoutineRuns_def intro!: fold_frame) (simp_all add: track_def Let_def)

lemma reconcile_length [simp]: "length (rv_runs (reconcile_scripts P sv)) = length (rv_runs sv)"
  by (auto simp: reconcile_scripts_def interruptRoutineRuns_def intro!: fold_frame)



section \<open>Scripts\<close>

text \<open>
  C19: Whatever requests, ticks, settled executions, storage failures and restarts happen,
  no routine ever has two running runs, and no process is started twice for the same run;
  while the service is not stopping, every run shown as running is still held by the
  service, so that its result is never lost.
\<close>

theorem scripts_never_overlap:
  assumes "routines_reach P sv" and "\<not> independentScripts P"
  shows "(\<forall>a \<in> set (rv_runs sv). \<forall>b \<in> set (rv_runs sv). rr_status a = Run_Running \<and> rr_status b = Run_Running \<and>
      rr_routineId a = rr_routineId b \<longrightarrow> rr_id a = rr_id b) \<and>
    distinct (map rr_id (rv_runs sv)) \<and> distinct (rv_started sv) \<and>
    (\<not> rv_stopping sv \<longrightarrow> (\<forall>a \<in> set (rv_runs sv). rr_status a = Run_Running \<longrightarrow> hasPendingScript (rr_routineId a) sv))"
proof -
  have ok: "runs_in (pend sv) sv" using reach_runs[OF assms] by (simp add: runs_ok_def)
  have key: "(rr_id a, rr_routineId a) \<in> running_rows sv" if "a \<in> set (rv_runs sv)" "rr_status a = Run_Running" for a
    using that unfolding in_running by blast
  have "rr_id a = rr_id b" if "a \<in> set (rv_runs sv)" "b \<in> set (rv_runs sv)" "rr_status a = Run_Running" "rr_status b = Run_Running"
      "rr_routineId a = rr_routineId b" for a b
  proof -
    have "one_to_one (running_rows sv)" using ok by (simp add: runs_in_def)
    then have "p \<in> running_rows sv \<Longrightarrow> q \<in> running_rows sv \<Longrightarrow> snd p = snd q \<Longrightarrow> fst p = fst q" for p q
      unfolding one_to_one_def by blast
    from this[OF key[OF that(1,3)] key[OF that(2,4)]] that(5) show ?thesis by simp
  qed
  moreover have "hasPendingScript (rr_routineId a) sv" if "\<not> rv_stopping sv" "a \<in> set (rv_runs sv)" "rr_status a = Run_Running" for a
    using ok key[OF that(2,3)] that(1) unfolding runs_in_def pending_routine by blast
  moreover have "distinct (map rr_id (rv_runs sv))" "distinct (rv_started sv)" using ok by (simp_all add: runs_in_def)
  ultimately show ?thesis by blast
qed

text \<open>A script fired twice by hand: the second fire is refused.\<close>

definition demo_rt2 :: rsvc where
  "demo_rt2 = snd (runNow demo_rports ''rt_1'' (new_year + 1)
     (snd (create_rt demo_rports demo_script new_year (snd (start_service demo_rports new_year (boot_routines new_rsvc))))))"

lemma demo_rt2_reach: "routines_reach demo_rports demo_rt2"
proof -
  let ?s = "snd (start_service demo_rports new_year (boot_routines new_rsvc))"
  have same: "same_runner demo_rports demo_rports" by (simp add: same_runner_def)
  have "rv_routines ?s = []" by code_simp
  then have 2: "routine_step demo_rports ?s (snd (create_rt demo_rports demo_script new_year ?s))"
    by (intro R_Create same) simp
  have 1: "routine_step demo_rports new_rsvc ?s" by (rule R_Start[OF same])
  have 3: "routine_step demo_rports (snd (create_rt demo_rports demo_script new_year ?s)) demo_rt2"
    unfolding demo_rt2_def by (rule R_RunNow[OF same])
  show ?thesis unfolding routines_reach_def
    by (rule rtranclp.rtrancl_into_rtrancl[OF rtranclp.rtrancl_into_rtrancl[OF r_into_rtranclp[of "routine_step demo_rports", OF 1] 2] 3])
qed

theorem scripts_never_overlap_witness:
  "map rr_status (rv_runs demo_rt2) = [Run_Running] \<and> hasPendingScript ''rt_1'' demo_rt2 \<and>
   fst (runNow demo_rports ''rt_1'' (new_year + 2) demo_rt2) =
     Inl (App_Error Conflict ''A script is already running or all 4 script slots are busy'')"
proof -
  have 1: "\<not> independentScripts demo_rports" by (simp add: demo_rports_def)
  have 2: "\<not> rv_stopping demo_rt2" by code_simp
  have 3: "map rr_status (rv_runs demo_rt2) = [Run_Running]" by code_simp
  have 4: "map rr_routineId (rv_runs demo_rt2) = [''rt_1'']" by code_simp
  have 5: "fst (runNow demo_rports ''rt_1'' (new_year + 2) demo_rt2) =
     Inl (App_Error Conflict ''A script is already running or all 4 script slots are busy'')" by code_simp
  obtain a where a: "rv_runs demo_rt2 = [a]" "rr_status a = Run_Running" "rr_routineId a = ''rt_1''"
    using 3 4 by (cases "rv_runs demo_rt2") auto
  from scripts_never_overlap[OF demo_rt2_reach 1] 2 a 3 5 show ?thesis by auto
qed

section \<open>What the model shows of the code\<close>

text \<open>
  A schedule for the 29th of February is accepted, but its next fire time is given up
  when it lies more than 400 days ahead: the routine is stored without one.
\<close>

lemma leap_day_is_dropped:
  "\<exists>spec. parseCron ''0 0 29 2 *'' = Inr spec \<and> fires (fixed_zone 0) spec 1835395200000 \<and>
    nextRun (fixed_zone 0) ''0 0 29 2 *'' new_year = Some (Inr None)"
proof -
  let ?spec = "\<lparr>cs_minute = {0}, cs_hour = {0}, cs_dom = {29}, cs_month = {2}, cs_dow = {0..6}, domRestricted = True, dowRestricted = False\<rparr>"
  have "parseCron ''0 0 29 2 *'' = Inr ?spec" by code_simp
  moreover have "fires (fixed_zone 0) ?spec 1835395200000" by code_simp
  moreover have "nextRun (fixed_zone 0) ''0 0 29 2 *'' new_year = Some (Inr None)" by code_simp
  ultimately show ?thesis by blast
qed

text \<open>
  Turning a custom Sunday schedule that writes Sunday as 7 into the weekly preset moves it
  to Saturday: the day is read back from the cron field and clamped to 6.
\<close>

definition demo_sunday :: routine where
  "demo_sunday = \<lparr>rt_id = ''rt'', rt_repoId = ''r'', rt_kind = Agent_Routine, rt_script = None, rt_agent = Claude, rt_title = None,
     rt_prompt = ''p'', rt_permission = ''auto'', rt_model = None, rt_effort = None, rt_preset = Custom,
     rt_schedule = ''0 9 * * 7'', rt_enabled = True, rt_lastRunAt = None, rt_nextRunAt = None, rt_createdAt = 0, rt_updatedAt = 0\<rparr>"

definition to_weekly :: update_routine where
  "to_weekly = \<lparr>ur_script = None, ur_prompt = None, ur_preset = Some Weekly, ur_schedule = None, ur_hour = None, ur_dayOfWeek = None,
     ur_permission = None, ur_model = None, ur_effort = None, ur_title = None, ur_enabled = None\<rparr>"

lemma sunday_becomes_saturday:
  "map_sum id rt_schedule (recompile demo_rports to_weekly 0 demo_sunday) = Inr ''0 9 * * 6''"
  by code_simp

end
