(* ===== verification/Executions.thy ===== *)
theory Executions
  imports Js_Text Permissions
begin

text \<open>
  Durable executions (modules/agents/adapters/outbound): the store that web servers and
  execution hosts share, admission and launch, the delivery of commands by a host, and the
  view client that replays an execution's event log. Every statement or transaction of the
  store is one operation; the hash of an owner key, the identity of processes and the
  answers of a provider are parameters.
\<close>

section \<open>Data\<close>

record exec_start =
  xs_taskId :: string
  xs_agent :: agent_kind
  xs_cwd :: string
  xs_prompt :: string
  xs_resumeId :: "string option"
  xs_providerHome :: "string option"
  xs_permission :: "string option"
  xs_model :: "string option"
  xs_effort :: "string option"
  xs_images :: "string list option"
  xs_messageId :: "string option"
  xs_interactive :: "bool option"
  xs_compact :: bool

datatype exec_state = X_Queued | X_Starting | X_Running | X_Finished | X_Lost

record exec_answer =
  xa_requestId :: string
  xa_answers :: "string list"
  xa_response :: "string option"

datatype exec_command =
    Cmd_Send (send_skills: "string list option") (send_text: string) (send_images: "string list option") (send_message: string)
  | Cmd_Steer string "string list option"
  | Cmd_Answer exec_answer
  | Cmd_Approve string "string option"
  | Cmd_Interrupt
  | Cmd_Cancel

datatype command_result = Accepted | Delivered | Rejected | Unknown

text \<open>The payloads the store looks into; every other event is its JSON text.\<close>

datatype exec_event_body =
    Xb_Queued | Xb_Started | Xb_Exit int | Xb_Resolved string | Xb_Answer exec_answer
  | Xb_Question string string | Xb_Error string | Xb_Other string

record exec_event =
  xe_sessionId :: "string option"
  xe_body :: exec_event_body

text \<open>A row of \<open>executions\<close>, with its selected skills; a question is its request id and payload.\<close>

record execution =
  x_id :: string
  x_taskId :: string
  x_release :: string
  x_node :: string
  x_args :: exec_start
  x_skills :: "string list option"
  x_state :: exec_state
  x_ownerKey :: string
  x_pid :: "nat option"
  x_identity :: "string option"
  x_question :: "(string \<times> string) option"
  x_lastSeq :: nat

record command_row =
  c_execution :: string
  c_id :: string
  c_body :: exec_command
  c_result :: command_result
  c_claimed :: bool

text \<open>The tables, each in the order of its row ids.\<close>

record xstore =
  x_rows :: "execution list"
  x_events :: "(string \<times> nat \<times> exec_event) list"
  x_commands :: "command_row list"
  x_capacity :: "nat option"
  x_control :: "(string \<times> string) list"

definition empty_store :: xstore where
  "empty_store = \<lparr>x_rows = [], x_events = [], x_commands = [], x_capacity = None, x_control = []\<rparr>"

definition plain_event :: "exec_event_body \<Rightarrow> exec_event" where
  "plain_event b = \<lparr>xe_sessionId = None, xe_body = b\<rparr>"

fun live_state :: "exec_state \<Rightarrow> bool" where
  "live_state X_Queued = True"
| "live_state X_Starting = True"
| "live_state X_Running = True"
| "live_state _ = False"

abbreviation live :: "execution \<Rightarrow> bool" where "live r \<equiv> live_state (x_state r)"

section \<open>Reading and writing rows\<close>

definition find_exec :: "string \<Rightarrow> xstore \<Rightarrow> execution option" where
  "find_exec i s = find (\<lambda>r. x_id r = i) (x_rows s)"

definition get_exec :: "string \<Rightarrow> xstore \<Rightarrow> execution result" where
  "get_exec i s = (case find_exec i s of None \<Rightarrow> Inl (Js_Error ''Execution not found'') | Some r \<Rightarrow> Inr r)"

definition on_exec :: "string \<Rightarrow> (execution \<Rightarrow> execution) \<Rightarrow> xstore \<Rightarrow> xstore" where
  "on_exec i f s = s\<lparr>x_rows := map (\<lambda>r. if x_id r = i then f r else r) (x_rows s)\<rparr>"

definition latest :: "string \<Rightarrow> xstore \<Rightarrow> execution option" where
  "latest t s = find (\<lambda>r. x_taskId r = t) (rev (x_rows s))"

definition saveControl :: "string \<Rightarrow> string \<Rightarrow> xstore \<Rightarrow> xstore" where
  "saveControl t body s = s\<lparr>x_control := (t, body) # filter (\<lambda>c. fst c \<noteq> t) (x_control s)\<rparr>"

definition loadControl :: "string \<Rightarrow> xstore \<Rightarrow> string option" where
  "loadControl t s = map_of (x_control s) t"

text \<open>The question is dropped when it is the one that was answered.\<close>

definition clearQuestion :: "string \<Rightarrow> string \<Rightarrow> xstore \<Rightarrow> xstore" where
  "clearQuestion i q s = on_exec i (\<lambda>r. if map_option fst (x_question r) = Some q then r\<lparr>x_question := None\<rparr> else r) s"

definition note_question :: "string \<Rightarrow> exec_event_body \<Rightarrow> xstore \<Rightarrow> xstore" where
  "note_question i b s = (case b of
      Xb_Question q p \<Rightarrow> on_exec i (\<lambda>r. r\<lparr>x_question := Some (q, p)\<rparr>) s
    | Xb_Resolved q \<Rightarrow> clearQuestion i q s
    | _ \<Rightarrow> s)"

definition append_event :: "string \<Rightarrow> exec_event \<Rightarrow> xstore \<Rightarrow> nat result \<times> xstore" where
  "append_event i e s = (case get_exec i s of
      Inl err \<Rightarrow> (Inl err, s)
    | Inr r \<Rightarrow>
        let n = Suc (x_lastSeq r);
            s = on_exec i (\<lambda>r. r\<lparr>x_lastSeq := n\<rparr>) (s\<lparr>x_events := x_events s @ [(i, n, e)]\<rparr>)
        in (Inr n, note_question i (xe_body e) s))"

definition log_of :: "string \<Rightarrow> xstore \<Rightarrow> (nat \<times> exec_event) list" where
  "log_of i s = map snd (filter (\<lambda>e. fst e = i) (x_events s))"

text \<open>One page of the log: in order of the sequence numbers, at most 256.\<close>

definition page_size :: nat where "page_size = 256"

definition events_after :: "string \<Rightarrow> nat \<Rightarrow> xstore \<Rightarrow> (nat \<times> exec_event) list" where
  "events_after i n s = take page_size (sort_key fst (filter (\<lambda>e. n < fst e) (log_of i s)))"

section \<open>Reservation and admission\<close>

definition valid_start :: "exec_start \<Rightarrow> bool" where
  "valid_start a \<longleftrightarrow> xs_taskId a \<noteq> [] \<and> xs_cwd a \<noteq> []"

fun agent_name :: "agent_kind \<Rightarrow> string" where
  "agent_name Claude = ''claude''"
| "agent_name Codex = ''codex''"

text \<open>The key of the provider session an execution owns; \<open>sha\<close> hashes its three parts.\<close>

definition owner_key :: "(string list \<Rightarrow> string) \<Rightarrow> exec_start \<Rightarrow> string \<Rightarrow> string" where
  "owner_key sha a session = sha [agent_name (xs_agent a), (case xs_providerHome a of None \<Rightarrow> [] | Some h \<Rightarrow> h), session]"

text \<open>The unique indexes over live executions, for a row other than \<open>i\<close>.\<close>

definition index_conflict :: "string \<Rightarrow> string \<Rightarrow> string \<Rightarrow> xstore \<Rightarrow> bool" where
  "index_conflict i t k s \<longleftrightarrow> (\<exists>r \<in> set (x_rows s). x_id r \<noteq> i \<and> live r \<and> (x_taskId r = t \<or> x_ownerKey r = k))"

definition unique_error :: app_error where "unique_error = Js_Error ''SQLITE_CONSTRAINT_UNIQUE''"

definition new_execution :: "string \<Rightarrow> exec_start \<Rightarrow> string \<Rightarrow> string \<Rightarrow> string list option \<Rightarrow> string \<Rightarrow> execution" where
  "new_execution i a release node skills key = \<lparr>x_id = i, x_taskId = xs_taskId a, x_release = release, x_node = node, x_args = a,
     x_skills = skills, x_state = X_Queued, x_ownerKey = key, x_pid = None, x_identity = None, x_question = None, x_lastSeq = 0\<rparr>"

text \<open>\<open>i\<close> is the random id of a new execution.\<close>

definition insert_execution :: "(string list \<Rightarrow> string) \<Rightarrow> string \<Rightarrow> exec_start \<Rightarrow> string \<Rightarrow> string \<Rightarrow> string list option \<Rightarrow>
    xstore \<Rightarrow> execution result \<times> xstore" where
  "insert_execution sha i a release node skills s = (
    let key = owner_key sha a (case xs_resumeId a of None \<Rightarrow> i | Some r \<Rightarrow> r) in
    if index_conflict i (xs_taskId a) key s then (Inl unique_error, s)
    else let s = snd (append_event i (plain_event Xb_Queued) (s\<lparr>x_rows := x_rows s @ [new_execution i a release node skills key]\<rparr>))
      in (get_exec i s, s))"

definition same_request :: "exec_start \<Rightarrow> string list option \<Rightarrow> execution \<Rightarrow> bool" where
  "same_request a skills e \<longleftrightarrow> xs_messageId a \<noteq> None \<and> xs_messageId a \<noteq> Some [] \<and>
     xs_messageId (x_args e) = xs_messageId a \<and> x_args e = a \<and> x_skills e = skills"

definition reserve :: "(string list \<Rightarrow> string) \<Rightarrow> string \<Rightarrow> exec_start \<Rightarrow> string \<Rightarrow> string \<Rightarrow> string list option \<Rightarrow>
    xstore \<Rightarrow> execution result \<times> xstore" where
  "reserve sha i a release node skills s = (
    if \<not> valid_start a then (Inl (Js_Error ''ZodError''), s)
    else case latest (xs_taskId a) s of
      Some e \<Rightarrow>
        if live e
        then (if same_request a skills e then Inr e else Inl (Js_Error ''An execution already owns this task''), s)
        else insert_execution sha i a release node skills s
    | None \<Rightarrow> insert_execution sha i a release node skills s)"

definition setCapacity :: "int \<Rightarrow> xstore \<Rightarrow> unit result \<times> xstore" where
  "setCapacity n s = (if n < 1 \<or> 9007199254740991 < n then (Inl (Js_Error ''Invalid execution capacity''), s)
     else (Inr (), s\<lparr>x_capacity := Some (nat n)\<rparr>))"

definition occupied :: "execution \<Rightarrow> bool" where
  "occupied r \<longleftrightarrow> x_state r = X_Starting \<or> x_state r = X_Running"

abbreviation queued :: "execution \<Rightarrow> bool" where "queued r \<equiv> x_state r = X_Queued"

definition effective_limit :: "nat \<Rightarrow> xstore \<Rightarrow> nat" where
  "effective_limit limit s = (case x_capacity s of Some c \<Rightarrow> c | None \<Rightarrow> limit)"

definition admitted :: "nat \<Rightarrow> xstore \<Rightarrow> string list" where
  "admitted limit s = map x_id (take (effective_limit limit s - count_if occupied (x_rows s)) (filter queued (x_rows s)))"

definition admit :: "nat \<Rightarrow> xstore \<Rightarrow> execution list \<times> xstore" where
  "admit limit s = (
    if filter queued (x_rows s) = [] then ([], s)
    else let ids = admitted limit s;
             s = fold (\<lambda>i. on_exec i (\<lambda>r. r\<lparr>x_state := X_Starting\<rparr>)) ids s
      in (List.map_filter (\<lambda>i. find_exec i s) ids, s))"

definition bindSession :: "(string list \<Rightarrow> string) \<Rightarrow> string \<Rightarrow> string \<Rightarrow> xstore \<Rightarrow> unit result \<times> xstore" where
  "bindSession sha i session s = (case get_exec i s of
      Inl e \<Rightarrow> (Inl e, s)
    | Inr r \<Rightarrow>
        let key = owner_key sha (x_args r) session in
        if x_state r \<noteq> X_Running then (Inr (), s)
        else if \<exists>q \<in> set (x_rows s). x_id q \<noteq> i \<and> live q \<and> x_ownerKey q = key then (Inl unique_error, s)
        else (Inr (), on_exec i (\<lambda>r. r\<lparr>x_ownerKey := key\<rparr>) s))"

definition claim :: "string \<Rightarrow> nat \<Rightarrow> string option \<Rightarrow> xstore \<Rightarrow> bool result \<times> xstore" where
  "claim i pid identity s = (case identity of
      None \<Rightarrow> (Inl (Js_Error ''Cannot establish execution host identity''), s)
    | Some w \<Rightarrow>
        if \<exists>r \<in> set (x_rows s). x_id r = i \<and> x_state r = X_Starting \<and> x_pid r = None
        then (Inr True, on_exec i (\<lambda>r. if x_state r = X_Starting \<and> x_pid r = None
               then r\<lparr>x_state := X_Running, x_pid := Some pid, x_identity := Some w\<rparr> else r) s)
        else (Inr False, s))"

definition unsettled :: "command_row \<Rightarrow> command_row" where
  "unsettled c = c\<lparr>c_result := Unknown\<rparr>"

definition finish_exec :: "string \<Rightarrow> bool \<Rightarrow> xstore \<Rightarrow> xstore" where
  "finish_exec i lost s = (on_exec i (\<lambda>r. r\<lparr>x_state := (if lost then X_Lost else X_Finished), x_question := None\<rparr>) s)
     \<lparr>x_commands := map (\<lambda>c. if c_execution c = i \<and> c_result c = Accepted then unsettled c else c) (x_commands s)\<rparr>"

definition cancelBeforeStart :: "string \<Rightarrow> xstore \<Rightarrow> bool result \<times> xstore" where
  "cancelBeforeStart i s = (case get_exec i s of
      Inl e \<Rightarrow> (Inl e, s)
    | Inr r \<Rightarrow>
        if \<not> (x_state r = X_Queued \<or> x_state r = X_Starting) \<or> x_pid r \<noteq> None then (Inr False, s)
        else (Inr True, finish_exec i False (snd (append_event i (plain_event (Xb_Exit (- 1))) s))))"

section \<open>Commands\<close>

definition find_command :: "string \<Rightarrow> string \<Rightarrow> xstore \<Rightarrow> command_row option" where
  "find_command x i s = find (\<lambda>c. c_execution c = x \<and> c_id c = i) (x_commands s)"

fun answers :: "string \<Rightarrow> exec_command \<Rightarrow> bool" where
  "answers q (Cmd_Answer a) \<longleftrightarrow> xa_requestId a = q"
| "answers q _ \<longleftrightarrow> False"

text \<open>An answer is refused when its question is not open or an earlier answer may have reached it.\<close>

definition answer_blocked :: "execution \<Rightarrow> exec_command \<Rightarrow> xstore \<Rightarrow> bool" where
  "answer_blocked r body s = (case body of
      Cmd_Answer a \<Rightarrow> map_option fst (x_question r) \<noteq> Some (xa_requestId a) \<or>
        (\<exists>c \<in> set (x_commands s). c_execution c = x_id r \<and> answers (xa_requestId a) (c_body c) \<and> c_result c \<noteq> Rejected)
    | _ \<Rightarrow> False)"

definition enqueue :: "string \<Rightarrow> string \<Rightarrow> exec_command \<Rightarrow> xstore \<Rightarrow> command_result result \<times> xstore" where
  "enqueue x i body s = (case find_command x i s of
      Some prior \<Rightarrow>
        (if c_body prior \<noteq> body then Inl (Js_Error ''Command identity was reused with different content'') else Inr (c_result prior), s)
    | None \<Rightarrow> (case get_exec x s of
          Inl e \<Rightarrow> (Inl e, s)
        | Inr r \<Rightarrow>
            if x_state r \<noteq> X_Running then (Inr Rejected, s)
            else if answer_blocked r body s then (Inr Rejected, s)
            else (Inr Accepted, s\<lparr>x_commands := x_commands s @
              [\<lparr>c_execution = x, c_id = i, c_body = body, c_result = Accepted, c_claimed = False\<rparr>]\<rparr>)))"

definition unclaimed :: "string \<Rightarrow> command_row \<Rightarrow> bool" where
  "unclaimed x c \<longleftrightarrow> c_execution c = x \<and> c_result c = Accepted \<and> \<not> c_claimed c"

definition pending_commands :: "string \<Rightarrow> xstore \<Rightarrow> command_row list \<times> xstore" where
  "pending_commands x s = (
    let handed = map (\<lambda>c. c\<lparr>c_claimed := True\<rparr>) (filter (unclaimed x) (x_commands s))
    in (handed, s\<lparr>x_commands := map (\<lambda>c. if unclaimed x c then c\<lparr>c_claimed := True\<rparr> else c) (x_commands s)\<rparr>))"

definition set_command_result :: "string \<Rightarrow> string \<Rightarrow> command_result \<Rightarrow> xstore \<Rightarrow> xstore" where
  "set_command_result x i res s = s\<lparr>x_commands :=
     map (\<lambda>c. if c_execution c = x \<and> c_id c = i then c\<lparr>c_result := res\<rparr> else c) (x_commands s)\<rparr>"

text \<open>An exception of the append rolls the transaction back.\<close>

definition settle :: "string \<Rightarrow> string \<Rightarrow> command_result \<Rightarrow> xstore \<Rightarrow> xstore" where
  "settle x i res before = (case find_command x i before of
      None \<Rightarrow> before
    | Some c \<Rightarrow>
        if c_result c \<noteq> Accepted then before
        else let s = set_command_result x i res before in
          (case c_body c of
             Cmd_Answer a \<Rightarrow>
               if res = Delivered
               then (case append_event x (plain_event (Xb_Answer a)) (clearQuestion x (xa_requestId a) s) of
                   (Inl _, _) \<Rightarrow> before
                 | (Inr _, s) \<Rightarrow> s)
               else s
           | _ \<Rightarrow> s))"

section \<open>The host of an execution\<close>

text \<open>
  What the provider answers to one command: the result of a send, acceptance of the
  others, or an exception.
\<close>

datatype provider_answer = Send_Result command_result | Took bool | Threw

definition delivery_result :: "exec_command \<Rightarrow> provider_answer \<Rightarrow> command_result" where
  "delivery_result body ans = (case ans of
      Threw \<Rightarrow> Unknown
    | Send_Result r \<Rightarrow> r
    | Took ok \<Rightarrow> (case body of Cmd_Interrupt \<Rightarrow> Delivered | Cmd_Cancel \<Rightarrow> Delivered | Cmd_Send _ _ _ _ \<Rightarrow> Rejected
        | _ \<Rightarrow> if ok then Delivered else Rejected))"

text \<open>
  \<open>persistEvent\<close>: the session of an execution never changes. The flag says that the
  invocation is stopped.
\<close>

definition stop_events :: "string \<Rightarrow> string option \<Rightarrow> string \<Rightarrow> xstore \<Rightarrow> xstore" where
  "stop_events i session why s = snd (append_event i (plain_event (Xb_Exit (- 1)))
     (snd (append_event i \<lparr>xe_sessionId = session, xe_body = Xb_Error why\<rparr> s)))"

definition persistEvent :: "(string list \<Rightarrow> string) \<Rightarrow> string \<Rightarrow> string option \<Rightarrow> exec_event \<Rightarrow> xstore \<Rightarrow> bool result \<times> xstore" where
  "persistEvent sha i session e s = (case (xe_sessionId e, session) of
      (Some n, Some k) \<Rightarrow>
        if n \<noteq> k then (Inr True, stop_events i session ''Provider session identity changed; the invocation was stopped'' s)
        else (map_sum id (\<lambda>_. False) (fst (append_event i e s)), snd (append_event i e s))
    | (Some n, None) \<Rightarrow> (case bindSession sha i n s of
          (Inl err, s) \<Rightarrow>
            if err = unique_error
            then (Inr True, stop_events i None ''Provider session is already owned; the invocation was stopped'' s)
            else (Inl err, s)
        | (Inr _, s) \<Rightarrow> (map_sum id (\<lambda>_. False) (fst (append_event i e s)), snd (append_event i e s)))
    | (None, _) \<Rightarrow> (map_sum id (\<lambda>_. False) (fst (append_event i e s)), snd (append_event i e s)))"

text \<open>
  The host process: the session it is bound to, whether an identity mismatch stopped the
  provider, and whether it is shutting down. An exception inside the transaction rolls it
  back and is fatal.
\<close>

record exec_host =
  eh_id :: string
  eh_session :: "string option"
  eh_mismatch :: bool
  eh_stopping :: bool
  eh_cancelled :: bool

definition first_session :: "string option \<Rightarrow> exec_event \<Rightarrow> string option" where
  "first_session k e = (case k of None \<Rightarrow> xe_sessionId e | Some s \<Rightarrow> Some s)"

definition host_persist :: "(string list \<Rightarrow> string) \<Rightarrow> exec_event \<Rightarrow> exec_host \<times> xstore \<Rightarrow> exec_host \<times> xstore" where
  "host_persist sha e w = (let (h, s) = w in
    if eh_mismatch h then (h\<lparr>eh_session := first_session (eh_session h) e\<rparr>, s)
    else case persistEvent sha (eh_id h) (eh_session h) e s of
      (Inl _, _) \<Rightarrow> (h\<lparr>eh_stopping := True\<rparr>, s)
    | (Inr True, s) \<Rightarrow> (h\<lparr>eh_mismatch := True, eh_cancelled := True\<rparr>, s)
    | (Inr False, s) \<Rightarrow> (h\<lparr>eh_session := first_session (eh_session h) e\<rparr>, s))"

text \<open>Output that arrives after a mismatch or while shutting down is dropped.\<close>

definition host_emit :: "(string list \<Rightarrow> string) \<Rightarrow> exec_event \<Rightarrow> exec_host \<times> xstore \<Rightarrow> exec_host \<times> xstore" where
  "host_emit sha e w = (if eh_stopping (fst w) \<or> eh_mismatch (fst w) then w else host_persist sha e w)"

definition host_finish :: "bool \<Rightarrow> exec_host \<times> xstore \<Rightarrow> exec_host \<times> xstore" where
  "host_finish lost w = (if eh_stopping (fst w) then w
     else ((fst w)\<lparr>eh_stopping := True\<rparr>, finish_exec (eh_id (fst w)) lost (snd w)))"

text \<open>One drain of the commands, \<open>ans\<close> being what the provider answers to each.\<close>

definition drainExecutionCommands :: "(command_row \<Rightarrow> provider_answer) \<Rightarrow> exec_host \<times> xstore \<Rightarrow> exec_host \<times> xstore" where
  "drainExecutionCommands ans w = (let (h, s) = w in
    if eh_stopping h then w
    else let (cs, s) = pending_commands (eh_id h) s
      in (h, fold (\<lambda>c. settle (eh_id h) (c_id c) (delivery_result (c_body c) (ans c))) cs s))"

section \<open>Launching\<close>

text \<open>\<open>attempted\<close> holds the time of the last attempt, \<open>launching\<close> the attempts under way.\<close>

record launcher =
  l_attempted :: "(string \<times> int) list"
  l_launching :: "string list"
  l_launched :: "string list"

definition should_launch :: "int \<Rightarrow> launcher \<Rightarrow> execution \<Rightarrow> bool" where
  "should_launch now l r \<longleftrightarrow> x_state r = X_Starting \<and> x_pid r = None \<and> x_id r \<notin> set (l_launching l) \<and>
     5000 \<le> now - (case map_of (l_attempted l) (x_id r) of Some t \<Rightarrow> t | None \<Rightarrow> 0)"

text \<open>\<open>starts\<close> says which launches the helper accepts; those then settle with \<open>launch_settled\<close>.\<close>

definition launch_one :: "(string \<Rightarrow> bool) \<Rightarrow> int \<Rightarrow> execution \<Rightarrow> launcher \<Rightarrow> launcher" where
  "launch_one starts now r l = (
    if \<not> (x_state r = X_Starting \<and> x_pid r = None) then l\<lparr>l_attempted := filter (\<lambda>a. fst a \<noteq> x_id r) (l_attempted l)\<rparr>
    else if \<not> should_launch now l r then l
    else let l = l\<lparr>l_attempted := (x_id r, now) # filter (\<lambda>a. fst a \<noteq> x_id r) (l_attempted l)\<rparr> in
      if starts (x_id r) then l\<lparr>l_launching := l_launching l @ [x_id r], l_launched := l_launched l @ [x_id r]\<rparr> else l)"

definition launch_settled :: "string \<Rightarrow> launcher \<Rightarrow> launcher" where
  "launch_settled i l = l\<lparr>l_launching := filter (\<lambda>x. x \<noteq> i) (l_launching l)\<rparr>"

definition admitExecutions :: "(string \<Rightarrow> bool) \<Rightarrow> nat \<Rightarrow> int \<Rightarrow> launcher \<times> xstore \<Rightarrow> launcher \<times> xstore" where
  "admitExecutions starts limit now w = (let s = snd (admit limit (snd w)) in (fold (launch_one starts now) (x_rows s) (fst w), s))"

section \<open>The view client\<close>

record view =
  v_exec :: string
  v_cursor :: nat
  v_ended :: bool
  v_emitted :: "(nat \<times> exec_event) list"
  v_waiters :: "string list"
  v_resolved :: "(string \<times> command_result) list"

definition open_view :: "string \<Rightarrow> view" where
  "open_view i = \<lparr>v_exec = i, v_cursor = 0, v_ended = False, v_emitted = [], v_waiters = [], v_resolved = []\<rparr>"

text \<open>A running execution whose process is no longer the one that claimed it is lost.\<close>

definition detect_loss :: "(nat \<Rightarrow> string option) \<Rightarrow> execution \<Rightarrow> xstore \<Rightarrow> xstore" where
  "detect_loss identity r s = (
    if x_state r = X_Running \<and> x_pid r \<noteq> None \<and> x_pid r \<noteq> Some 0 \<and> x_identity r \<noteq> None \<and> identity (the (x_pid r)) \<noteq> x_identity r
    then finish_exec (x_id r) True (snd (append_event (x_id r) (plain_event (Xb_Exit (- 1))) s)) else s)"

definition emit_page :: "(nat \<times> exec_event) list \<Rightarrow> view \<Rightarrow> view" where
  "emit_page es v = v\<lparr>v_emitted := v_emitted v @ es, v_cursor := (if es = [] then v_cursor v else fst (last es))\<rparr>"

text \<open>
  Waiting requests are answered once their receipt is final and every event committed
  with it has been emitted; the flag says that the client left early to read on.
\<close>

fun answer_waiters :: "string list \<Rightarrow> nat \<Rightarrow> xstore \<Rightarrow> view \<Rightarrow> bool \<times> view" where
  "answer_waiters [] lastSeq s v = (False, v)"
| "answer_waiters (w # ws) lastSeq s v = (case find_command (v_exec v) w s of
      None \<Rightarrow> answer_waiters ws lastSeq s v
    | Some c \<Rightarrow>
        if c_result c = Accepted then answer_waiters ws lastSeq s v
        else if v_cursor v < lastSeq then (True, v)
        else answer_waiters ws lastSeq s (v\<lparr>v_waiters := filter (\<lambda>x. x \<noteq> w) (v_waiters v),
          v_resolved := v_resolved v @ [(w, c_result c)]\<rparr>))"

text \<open>
  A reconciliation reads the execution and a page of its log; then it answers the waiting
  requests, by which time other processes may have written to the store. The flag says
  that another reconciliation is scheduled at once.
\<close>

definition reconcile_read :: "(nat \<Rightarrow> string option) \<Rightarrow> view \<times> xstore \<Rightarrow> execution option \<times> view \<times> xstore" where
  "reconcile_read identity w = (let (v, s) = w in
    if v_ended v then (None, v, s)
    else case find_exec (v_exec v) s of
      None \<Rightarrow> (None, v, s)
    | Some r \<Rightarrow>
        let s = detect_loss identity r s in
        (case find_exec (v_exec v) s of
          None \<Rightarrow> (None, v, s)
        | Some cur \<Rightarrow> (Some cur, emit_page (events_after (x_id cur) (v_cursor v) s) v, s)))"

definition reconcile_rest :: "execution option \<Rightarrow> view \<times> xstore \<Rightarrow> bool \<times> view" where
  "reconcile_rest cur w = (let (v, s) = w in (case cur of
      None \<Rightarrow> (False, v)
    | Some cur \<Rightarrow>
        let lastSeq = (case find_exec (v_exec v) s of None \<Rightarrow> 0 | Some now \<Rightarrow> x_lastSeq now);
            (early, v) = answer_waiters (v_waiters v) lastSeq s v
        in if early \<or> v_cursor v < x_lastSeq cur then (True, v)
           else if x_state cur = X_Finished \<or> x_state cur = X_Lost then (False, v\<lparr>v_ended := True\<rparr>)
           else (False, v)))"

definition reconcile_view :: "(nat \<Rightarrow> string option) \<Rightarrow> view \<times> xstore \<Rightarrow> bool \<times> view \<times> xstore" where
  "reconcile_view identity w = (let (cur, v, s) = reconcile_read identity w; (again, v) = reconcile_rest cur (v, s) in (again, v, s))"

definition command_view :: "exec_command \<Rightarrow> string \<Rightarrow> view \<times> xstore \<Rightarrow> command_result result \<times> xstore" where
  "command_view body i w = (let (v, s) = w in if v_ended v then (Inr Rejected, s) else enqueue (v_exec v) i body s)"

definition deliveredCommand :: "exec_command \<Rightarrow> string \<Rightarrow> view \<times> xstore \<Rightarrow> command_result result \<times> view \<times> xstore" where
  "deliveredCommand body i w = (let (r, s) = command_view body i w; v = fst w in
     (r, (if r = Inr Accepted \<and> i \<notin> set (v_waiters v) then v\<lparr>v_waiters := v_waiters v @ [i]\<rparr> else v), s))"

text \<open>After 15 seconds a waiting request is answered without its receipt.\<close>

definition waiter_timeout :: "string \<Rightarrow> view \<Rightarrow> view" where
  "waiter_timeout i v = (if i \<notin> set (v_waiters v) then v else v\<lparr>v_waiters := filter (\<lambda>x. x \<noteq> i) (v_waiters v),
     v_resolved := v_resolved v @ [(i, Unknown)]\<rparr>)"

definition close_view :: "view \<Rightarrow> view" where
  "close_view v = v\<lparr>v_ended := True, v_resolved := v_resolved v @ map (\<lambda>w. (w, Unknown)) (v_waiters v), v_waiters := []\<rparr>"

section \<open>The run handle of a view\<close>

text \<open>What the task service calls; \<open>r\<close> is the record the handle was opened with.\<close>

definition accepted_not_rejected :: "command_result result \<Rightarrow> bool result" where
  "accepted_not_rejected res = map_sum id (\<lambda>c. c \<noteq> Rejected) res"

definition handle_send :: "execution \<Rightarrow> string \<Rightarrow> string list option \<Rightarrow> string \<Rightarrow> string list option \<Rightarrow> view \<times> xstore \<Rightarrow>
    command_result result \<times> view \<times> xstore" where
  "handle_send r text images msg skills w = (
    if skills \<noteq> None \<and> skills \<noteq> Some [] \<and> x_skills r = None then (Inr Rejected, w)
    else deliveredCommand (Cmd_Send skills text images msg) msg w)"

definition handle_steer :: "execution \<Rightarrow> string \<Rightarrow> string \<Rightarrow> string list option \<Rightarrow> view \<times> xstore \<Rightarrow> bool result \<times> xstore" where
  "handle_steer r i text images w = (if xs_agent (x_args r) \<noteq> Claude then (Inr False, snd w)
     else apfst accepted_not_rejected (command_view (Cmd_Steer text images) i w))"

definition handle_interrupt :: "execution \<Rightarrow> string \<Rightarrow> view \<times> xstore \<Rightarrow> bool result \<times> xstore" where
  "handle_interrupt r i w = (if xs_agent (x_args r) \<noteq> Claude then (Inr False, snd w)
     else apfst accepted_not_rejected (command_view Cmd_Interrupt i w))"

definition handle_approve :: "string \<Rightarrow> string \<Rightarrow> string option \<Rightarrow> view \<times> xstore \<Rightarrow> bool result \<times> xstore" where
  "handle_approve i decision scope w = apfst accepted_not_rejected (command_view (Cmd_Approve decision scope) i w)"

text \<open>\<open>u\<close> is the random part of the command's id.\<close>

definition handle_answer :: "string \<Rightarrow> exec_answer \<Rightarrow> view \<times> xstore \<Rightarrow> command_result result \<times> view \<times> xstore" where
  "handle_answer u a w = deliveredCommand (Cmd_Answer a) (''answer:'' @ xa_requestId a @ '':'' @ u) w"

definition handle_cancel :: "string \<Rightarrow> view \<times> xstore \<Rightarrow> unit result \<times> xstore" where
  "handle_cancel i w = (case cancelBeforeStart (v_exec (fst w)) (snd w) of
      (Inl e, s) \<Rightarrow> (Inl e, s)
    | (Inr True, s) \<Rightarrow> (Inr (), s)
    | (Inr False, s) \<Rightarrow> apfst (map_sum id (\<lambda>_. ())) (command_view Cmd_Cancel i (fst w, s)))"

end
