(* ===== verification/Execution_Laws.thy ===== *)
theory Execution_Laws
  imports Executions
begin

text \<open>
  The invariant of the execution store over every interleaving of its clients: who owns a
  task and a provider session, the numbering of the event logs, and the life of a command
  from its acceptance to its receipt.
\<close>

section \<open>The invariant\<close>

definition unique_live :: "execution list \<Rightarrow> bool" where
  "unique_live rows \<longleftrightarrow> distinct (map x_id rows) \<and>
    (\<forall>r \<in> set rows. \<forall>q \<in> set rows. live r \<and> live q \<and> (x_taskId r = x_taskId q \<or> x_ownerKey r = x_ownerKey q) \<longrightarrow> x_id r = x_id q)"

definition logs_ok :: "xstore \<Rightarrow> bool" where
  "logs_ok s \<longleftrightarrow> (\<forall>r \<in> set (x_rows s). map fst (log_of (x_id r) s) = [1..<Suc (x_lastSeq r)]) \<and>
    fst ` set (x_events s) \<subseteq> x_id ` set (x_rows s)"

definition command_key :: "command_row \<Rightarrow> string \<times> string" where "command_key c = (c_execution c, c_id c)"

definition commands_ok :: "xstore \<Rightarrow> bool" where
  "commands_ok s \<longleftrightarrow> distinct (map command_key (x_commands s)) \<and>
    (\<forall>c \<in> set (x_commands s). c_result c = Accepted \<longrightarrow>
      (\<forall>r \<in> set (x_rows s). x_id r = c_execution c \<longrightarrow> x_state r = X_Running))"

definition xs_ok :: "xstore \<Rightarrow> bool" where
  "xs_ok s \<longleftrightarrow> unique_live (x_rows s) \<and> logs_ok s \<and> commands_ok s"

text \<open>What every operation leaves of the commands it finds.\<close>

definition command_evolves :: "command_row \<Rightarrow> command_row \<Rightarrow> bool" where
  "command_evolves c c' \<longleftrightarrow> command_key c' = command_key c \<and> c_body c' = c_body c \<and>
    (c_result c \<noteq> Accepted \<longrightarrow> c_result c' = c_result c) \<and> (c_claimed c \<longrightarrow> c_claimed c')"

definition log_extends :: "xstore \<Rightarrow> xstore \<Rightarrow> bool" where
  "log_extends s s' \<longleftrightarrow> (\<exists>es. x_events s' = x_events s @ es)"

definition commands_evolve :: "xstore \<Rightarrow> xstore \<Rightarrow> bool" where
  "commands_evolve s s' \<longleftrightarrow> (\<forall>c \<in> set (x_commands s). \<exists>c' \<in> set (x_commands s'). command_evolves c c')"

definition ids_stay :: "xstore \<Rightarrow> xstore \<Rightarrow> bool" where
  "ids_stay s s' \<longleftrightarrow> x_id ` set (x_rows s) \<subseteq> x_id ` set (x_rows s')"

definition store_evolves :: "xstore \<Rightarrow> xstore \<Rightarrow> bool" where
  "store_evolves s s' \<longleftrightarrow> log_extends s s' \<and> commands_evolve s s' \<and> ids_stay s s'"

lemma command_evolves_refl [simp]: "command_evolves c c"
  by (simp add: command_evolves_def)

lemma commands_evolve_same: "x_commands s' = x_commands s \<Longrightarrow> commands_evolve s s'"
  unfolding commands_evolve_def using command_evolves_refl by metis

lemma store_evolves_refl [simp]: "store_evolves s s"
  by (simp add: store_evolves_def log_extends_def commands_evolve_same ids_stay_def)

lemma store_evolves_trans: "store_evolves s s' \<Longrightarrow> store_evolves s' s'' \<Longrightarrow> store_evolves s s''"
proof -
  have "command_evolves c c' \<Longrightarrow> command_evolves c' c'' \<Longrightarrow> command_evolves c c''" for c c' c''
    by (auto simp: command_evolves_def)
  moreover assume "store_evolves s s'" "store_evolves s' s''"
  ultimately show ?thesis
    unfolding store_evolves_def log_extends_def commands_evolve_def ids_stay_def by fastforce
qed

lemma store_evolves_same:
  "x_events s' = x_events s \<Longrightarrow> x_commands s' = x_commands s \<Longrightarrow> x_id ` set (x_rows s) \<subseteq> x_id ` set (x_rows s') \<Longrightarrow> store_evolves s s'"
  by (simp add: store_evolves_def log_extends_def commands_evolve_same ids_stay_def)

text \<open>A step that keeps the invariant and only lets the store evolve.\<close>

definition good :: "xstore \<Rightarrow> xstore \<Rightarrow> bool" where
  "good s s' \<longleftrightarrow> xs_ok s' \<and> store_evolves s s'"

lemma good_refl: "xs_ok s \<Longrightarrow> good s s" by (simp add: good_def)

lemma good_trans: "good s s' \<Longrightarrow> good s' s'' \<Longrightarrow> good s s''"
  unfolding good_def using store_evolves_trans by blast

section \<open>Rows\<close>

lemma on_exec_fields [simp]:
  "x_events (on_exec i f s) = x_events s" "x_commands (on_exec i f s) = x_commands s"
  "x_capacity (on_exec i f s) = x_capacity s" "log_of j (on_exec i f s) = log_of j s"
  "find_command x c (on_exec i f s) = find_command x c s"
  by (simp_all add: on_exec_def log_of_def find_command_def)

lemma on_exec_ids: "(\<And>r. x_id (f r) = x_id r) \<Longrightarrow> map x_id (x_rows (on_exec i f s)) = map x_id (x_rows s)"
  by (auto simp: on_exec_def)

lemma in_on_exec:
  "q \<in> set (x_rows (on_exec i f s)) \<longleftrightarrow> (\<exists>r \<in> set (x_rows s). q = (if x_id r = i then f r else r))"
proof -
  have "x_rows (on_exec i f s) = map (\<lambda>r. if x_id r = i then f r else r) (x_rows s)" by (simp add: on_exec_def)
  then show ?thesis by (simp only: in_map_if)
qed

lemma find_exec_Some: "find_exec i s = Some r \<Longrightarrow> r \<in> set (x_rows s) \<and> x_id r = i"
  by (auto simp: find_exec_def dest: find_Some_in)

lemma find_exec_unique:
  assumes "unique_live (x_rows s)" "r \<in> set (x_rows s)"
  shows "find_exec (x_id r) s = Some r"
  using find_key_unique[of x_id "x_rows s" r] assms by (simp add: unique_live_def find_exec_def)

lemma get_exec_Inr: "get_exec i s = Inr r \<longleftrightarrow> find_exec i s = Some r"
  by (simp add: get_exec_def split: option.split)

lemma row_unique:
  fixes s :: xstore
  shows "unique_live (x_rows s) \<Longrightarrow> r \<in> set (x_rows s) \<Longrightarrow> q \<in> set (x_rows s) \<Longrightarrow> x_id r = x_id q \<Longrightarrow> r = q"
  by (metis find_exec_unique option.inject)

text \<open>A change of one row that keeps its identity, its owner and its log.\<close>

lemma xs_ok_on_exec:
  assumes ok: "xs_ok s" and keep: "\<And>r. x_id (f r) = x_id r \<and> x_taskId (f r) = x_taskId r \<and> x_lastSeq (f r) = x_lastSeq r"
    and owner: "\<And>r q. r \<in> set (x_rows s) \<Longrightarrow> x_id r = i \<Longrightarrow> q \<in> set (x_rows s) \<Longrightarrow> x_id q \<noteq> i \<Longrightarrow> live q \<Longrightarrow>
      x_ownerKey q = x_ownerKey (f r) \<Longrightarrow> x_ownerKey q = x_ownerKey r"
    and liv: "\<And>r. r \<in> set (x_rows s) \<Longrightarrow> x_id r = i \<Longrightarrow> live (f r) \<Longrightarrow> live r"
    and run: "\<And>r. r \<in> set (x_rows s) \<Longrightarrow> x_id r = i \<Longrightarrow> x_state r = X_Running \<Longrightarrow> x_state (f r) = X_Running"
  shows "good s (on_exec i f s)"
proof -
  let ?g = "\<lambda>r. if x_id r = i then f r else r"
  have g: "x_id (?g r) = x_id r" "x_taskId (?g r) = x_taskId r" "x_lastSeq (?g r) = x_lastSeq r" for r
    using keep by simp_all
  have ids: "map x_id (x_rows (on_exec i f s)) = map x_id (x_rows s)" using keep by (intro on_exec_ids) blast
  have "unique_live (x_rows (on_exec i f s))"
    unfolding unique_live_def ids
  proof (intro conjI ballI impI)
    show "distinct (map x_id (x_rows s))" using ok by (simp add: xs_ok_def unique_live_def)
    fix a b assume a: "a \<in> set (x_rows (on_exec i f s))" and b: "b \<in> set (x_rows (on_exec i f s))"
      and l: "live a \<and> live b \<and> (x_taskId a = x_taskId b \<or> x_ownerKey a = x_ownerKey b)"
    from a obtain r where r: "r \<in> set (x_rows s)" "a = ?g r" unfolding in_on_exec by blast
    from b obtain q where q: "q \<in> set (x_rows s)" "b = ?g q" unfolding in_on_exec by blast
    have lv: "live r" "live q" using l r q liv by (auto split: if_splits)
    have "x_id r = x_id q \<or> x_taskId r = x_taskId q \<or> x_ownerKey r = x_ownerKey q"
    proof (cases "x_id r = x_id q \<or> x_taskId a = x_taskId b")
      case True
      then show ?thesis unfolding r(2) q(2) g by blast
    next
      case False
      with l have eq: "x_ownerKey a = x_ownerKey b" by blast
      show ?thesis using eq False r q lv owner[of r q] owner[of q r] by (auto split: if_splits)
    qed
    then have "x_id r = x_id q" using ok r(1) q(1) lv unfolding xs_ok_def unique_live_def by blast
    then show "x_id a = x_id b" unfolding r(2) q(2) g .
  qed
  moreover have "logs_ok (on_exec i f s)"
    unfolding logs_ok_def
  proof (intro conjI ballI)
    fix a assume "a \<in> set (x_rows (on_exec i f s))"
    then obtain r where r: "r \<in> set (x_rows s)" "a = ?g r" unfolding in_on_exec by blast
    with ok show "map fst (log_of (x_id a) (on_exec i f s)) = [1..<Suc (x_lastSeq a)]"
      unfolding r(2) g on_exec_fields by (simp add: xs_ok_def logs_ok_def)
  next
    have "x_id ` set (x_rows (on_exec i f s)) = x_id ` set (x_rows s)" using ids by (metis set_map)
    then show "fst ` set (x_events (on_exec i f s)) \<subseteq> x_id ` set (x_rows (on_exec i f s))"
      using ok by (simp add: xs_ok_def logs_ok_def)
  qed
  moreover have "commands_ok (on_exec i f s)"
    unfolding commands_ok_def on_exec_fields
  proof (intro conjI ballI impI)
    show "distinct (map command_key (x_commands s))" using ok by (simp add: xs_ok_def commands_ok_def)
    fix c a assume c: "c \<in> set (x_commands s)" "c_result c = Accepted"
      and a: "a \<in> set (x_rows (on_exec i f s))" "x_id a = c_execution c"
    then obtain r where r: "r \<in> set (x_rows s)" "a = ?g r" unfolding in_on_exec by blast
    with a(2) g(1)[of r] c ok have "x_state r = X_Running" unfolding xs_ok_def commands_ok_def by metis
    with r run show "x_state a = X_Running" by (simp split: if_split)
  qed
  moreover have "x_id ` set (x_rows s) \<subseteq> x_id ` set (x_rows (on_exec i f s))"
    using ids by (metis set_map order_refl)
  ultimately show ?thesis by (simp add: good_def xs_ok_def store_evolves_same)
qed

section \<open>The operations\<close>

lemma log_of_snoc: "log_of j (s\<lparr>x_events := x_events s @ [(i, n, e)]\<rparr>) = log_of j s @ (if j = i then [(n, e)] else [])"
  by (simp add: log_of_def)

lemma clearQuestion_good: "xs_ok s \<Longrightarrow> good s (clearQuestion i q s)"
  unfolding clearQuestion_def by (rule xs_ok_on_exec) (auto split: if_splits)

lemma note_question_good: "xs_ok s \<Longrightarrow> good s (note_question i b s)"
  unfolding note_question_def by (auto split: exec_event_body.split intro: good_refl clearQuestion_good intro!: xs_ok_on_exec)

lemma append_good:
  assumes ok: "xs_ok s"
  shows "good s (snd (append_event i e s))"
proof (cases "get_exec i s")
  case (Inr r)
  then have r: "find_exec i s = Some r" "r \<in> set (x_rows s)" "x_id r = i"
    using find_exec_Some by (auto simp: get_exec_Inr)
  define n where "n = Suc (x_lastSeq r)"
  define s1 where "s1 = on_exec i (\<lambda>r. r\<lparr>x_lastSeq := n\<rparr>) (s\<lparr>x_events := x_events s @ [(i, n, e)]\<rparr>)"
  have rows: "x_rows s1 = map (\<lambda>r. if x_id r = i then r\<lparr>x_lastSeq := n\<rparr> else r) (x_rows s)" by (simp add: s1_def on_exec_def)
  have ids: "map x_id (x_rows s1) = map x_id (x_rows s)" unfolding rows by auto
  have idset: "x_id ` set (x_rows s1) = x_id ` set (x_rows s)" using ids by (metis set_map)
  have ev: "x_events s1 = x_events s @ [(i, n, e)]" "x_commands s1 = x_commands s" by (simp_all add: s1_def)
  have "unique_live (x_rows s1)"
    unfolding unique_live_def ids
  proof (intro conjI ballI impI)
    show "distinct (map x_id (x_rows s))" using ok by (simp add: xs_ok_def unique_live_def)
    fix a b assume "a \<in> set (x_rows s1)" "b \<in> set (x_rows s1)" and l: "live a \<and> live b \<and> (x_taskId a = x_taskId b \<or> x_ownerKey a = x_ownerKey b)"
    then obtain p q where p: "p \<in> set (x_rows s)" "a = (if x_id p = i then p\<lparr>x_lastSeq := n\<rparr> else p)"
      and q: "q \<in> set (x_rows s)" "b = (if x_id q = i then q\<lparr>x_lastSeq := n\<rparr> else q)"
      unfolding rows in_map_if by blast
    have "live p \<and> live q \<and> (x_taskId p = x_taskId q \<or> x_ownerKey p = x_ownerKey q)" using l unfolding p(2) q(2) by (simp split: if_splits)
    then have "x_id p = x_id q" using ok p(1) q(1) unfolding xs_ok_def unique_live_def by blast
    then show "x_id a = x_id b" unfolding p(2) q(2) by (simp split: if_splits)
  qed
  moreover have "logs_ok s1"
    unfolding logs_ok_def
  proof (intro conjI ballI)
    fix a assume "a \<in> set (x_rows s1)"
    then obtain p where p: "p \<in> set (x_rows s)" "a = (if x_id p = i then p\<lparr>x_lastSeq := n\<rparr> else p)"
      unfolding rows in_map_if by blast
    have log: "map fst (log_of (x_id p) s) = [1..<Suc (x_lastSeq p)]" using ok p(1) by (simp add: xs_ok_def logs_ok_def)
    have log1: "log_of j s1 = log_of j s @ (if j = i then [(n, e)] else [])" for j by (simp add: s1_def log_of_snoc)
    show "map fst (log_of (x_id a) s1) = [1..<Suc (x_lastSeq a)]"
    proof (cases "x_id p = i")
      case True
      then have "p = r" using row_unique[OF _ p(1) r(2)] ok r(3) by (simp add: xs_ok_def)
      then show ?thesis using log log1 True p(2) by (simp add: n_def)
    next
      case False
      then show ?thesis using log log1 p(2) by simp
    qed
  next
    show "fst ` set (x_events s1) \<subseteq> x_id ` set (x_rows s1)"
      unfolding idset ev using ok r(2,3) by (auto simp: xs_ok_def logs_ok_def)
  qed
  moreover have "commands_ok s1"
    unfolding commands_ok_def ev
  proof (intro conjI ballI impI)
    show "distinct (map command_key (x_commands s))" using ok by (simp add: xs_ok_def commands_ok_def)
    fix c a assume c: "c \<in> set (x_commands s)" "c_result c = Accepted" and a: "a \<in> set (x_rows s1)" "x_id a = c_execution c"
    then obtain p where p: "p \<in> set (x_rows s)" "a = (if x_id p = i then p\<lparr>x_lastSeq := n\<rparr> else p)"
      unfolding rows in_map_if by blast
    then have "x_id p = c_execution c" using a(2) by (simp split: if_splits)
    with ok c p(1) have "x_state p = X_Running" unfolding xs_ok_def commands_ok_def by blast
    with p(2) show "x_state a = X_Running" by (simp split: if_split)
  qed
  ultimately have "xs_ok s1" by (simp add: xs_ok_def)
  moreover have "store_evolves s s1"
    by (auto simp: store_evolves_def log_extends_def ids_stay_def idset ev(1) intro: commands_evolve_same ev(2))
  ultimately have "good s s1" by (simp add: good_def)
  moreover have "snd (append_event i e s) = note_question i (xe_body e) s1"
    using Inr by (simp add: append_event_def n_def s1_def Let_def)
  ultimately show ?thesis using note_question_good[of s1 i "xe_body e"] good_trans by (auto simp: good_def)
qed (simp add: append_event_def good_refl ok)

lemma bind_good:
  assumes ok: "xs_ok s"
  shows "good s (snd (bindSession sha i session s))"
proof (cases "get_exec i s")
  case (Inr r)
  then have r: "r \<in> set (x_rows s)" "x_id r = i" using find_exec_Some by (auto simp: get_exec_Inr)
  have uniq: "q = r" if "q \<in> set (x_rows s)" "x_id q = i" for q
    using row_unique[OF _ that(1) r(1)] ok r(2) that(2) by (simp add: xs_ok_def)
  define key where "key = owner_key sha (x_args r) session"
  have "good s (on_exec i (\<lambda>r. r\<lparr>x_ownerKey := key\<rparr>) s)"
    if "\<not> (\<exists>q \<in> set (x_rows s). x_id q \<noteq> i \<and> live q \<and> x_ownerKey q = key)"
    by (rule xs_ok_on_exec[OF ok]) (use that uniq in auto)
  then show ?thesis using Inr good_refl[OF ok] by (auto simp: bindSession_def Let_def key_def)
qed (simp add: bindSession_def good_refl ok)

lemma claim_good: "xs_ok s \<Longrightarrow> good s (snd (claim i pid w s))"
  unfolding claim_def by (cases w) (auto intro!: good_refl xs_ok_on_exec split: if_splits)

lemma admit_fold_good:
  "xs_ok s \<Longrightarrow> \<forall>i \<in> set ids. \<forall>r \<in> set (x_rows s). x_id r = i \<longrightarrow> queued r \<Longrightarrow> distinct ids \<Longrightarrow>
   good s (fold (\<lambda>i. on_exec i (\<lambda>r. r\<lparr>x_state := X_Starting\<rparr>)) ids s)"
proof (induction ids arbitrary: s)
  case Nil
  then show ?case by (simp add: good_refl)
next
  case (Cons i ids)
  let ?s = "on_exec i (\<lambda>r. r\<lparr>x_state := X_Starting\<rparr>) s"
  have g: "good s ?s" by (rule xs_ok_on_exec[OF Cons.prems(1)]) (use Cons.prems(2) in auto)
  have "\<forall>j \<in> set ids. \<forall>r \<in> set (x_rows ?s). x_id r = j \<longrightarrow> queued r"
  proof (intro ballI impI)
    fix j a assume j: "j \<in> set ids" and a: "a \<in> set (x_rows ?s)" "x_id a = j"
    then obtain r where "r \<in> set (x_rows s)" "a = (if x_id r = i then r\<lparr>x_state := X_Starting\<rparr> else r)" unfolding in_on_exec by blast
    with j a(2) Cons.prems(2,3) show "queued a" by (auto split: if_splits)
  qed
  with Cons.IH[of ?s] g Cons.prems(3) have "good ?s (fold (\<lambda>i. on_exec i (\<lambda>r. r\<lparr>x_state := X_Starting\<rparr>)) ids ?s)"
    by (simp add: good_def)
  with g show ?case using good_trans by simp
qed

lemma admitted_queued:
  assumes "xs_ok s" "i \<in> set (admitted limit s)" "r \<in> set (x_rows s)" "x_id r = i"
  shows "queued r"
proof -
  obtain q where q: "q \<in> set (x_rows s)" "queued q" "x_id q = i"
    using assms(2) by (auto simp: admitted_def dest!: in_set_takeD)
  then have "q = r" using row_unique[OF _ q(1) assms(3)] assms by (simp add: xs_ok_def)
  with q show ?thesis by simp
qed

lemma admitted_distinct: "xs_ok s \<Longrightarrow> distinct (admitted limit s)"
proof -
  assume "xs_ok s"
  then have "distinct (map x_id (filter queued (x_rows s)))" by (simp add: xs_ok_def unique_live_def distinct_map_filter)
  then show ?thesis by (simp add: admitted_def distinct_take flip: take_map)
qed

lemma admit_good: "xs_ok s \<Longrightarrow> good s (snd (admit limit s))"
  using admit_fold_good[of s "admitted limit s"] admitted_queued[of s] admitted_distinct[of s]
  by (simp add: admit_def Let_def good_refl)

lemma unsettled_fields [simp]:
  "command_key (unsettled c) = command_key c" "c_body (unsettled c) = c_body c" "c_claimed (unsettled c) = c_claimed c"
  "c_result (unsettled c) = Unknown" "c_execution (unsettled c) = c_execution c"
  by (simp_all add: unsettled_def command_key_def)

text \<open>A change of the commands that keeps their keys, and leaves accepted only what was.\<close>

lemma commands_map_good:
  assumes ok: "xs_ok s" and rows: "x_rows s' = x_rows s" "x_events s' = x_events s"
    and cmds: "x_commands s' = map g (x_commands s)"
    and g: "\<And>c. c \<in> set (x_commands s) \<Longrightarrow> command_evolves c (g c)"
  shows "good s s'"
proof -
  have keys: "map command_key (x_commands s') = map command_key (x_commands s)"
    unfolding cmds using g by (simp add: command_evolves_def)
  have "commands_ok s'"
    unfolding commands_ok_def keys rows
  proof (intro conjI ballI impI)
    show "distinct (map command_key (x_commands s))" using ok by (simp add: xs_ok_def commands_ok_def)
    fix c r assume c: "c \<in> set (x_commands s')" "c_result c = Accepted" and r: "r \<in> set (x_rows s)" "x_id r = c_execution c"
    then obtain d where d: "d \<in> set (x_commands s)" "c = g d" unfolding cmds by auto
    with g[of d] c have "c_result d = Accepted" "c_execution d = c_execution c" by (auto simp: command_evolves_def command_key_def)
    with ok d r show "x_state r = X_Running" unfolding xs_ok_def commands_ok_def by metis
  qed
  moreover have "logs_ok s'" using ok by (simp add: xs_ok_def logs_ok_def rows log_of_def)
  moreover have "commands_evolve s s'" unfolding commands_evolve_def cmds using g by auto
  ultimately show ?thesis using ok
    by (simp add: good_def xs_ok_def rows store_evolves_def log_extends_def ids_stay_def)
qed

lemma finish_good:
  assumes ok: "xs_ok s"
  shows "good s (finish_exec i lost s)"
proof -
  define cs where "cs = map (\<lambda>c. if c_execution c = i \<and> c_result c = Accepted then unsettled c else c) (x_commands s)"
  define s1 where "s1 = s\<lparr>x_commands := cs\<rparr>"
  have g1: "good s s1"
    by (rule commands_map_good[OF ok, where g = "\<lambda>c. if c_execution c = i \<and> c_result c = Accepted then unsettled c else c"])
      (auto simp: s1_def cs_def command_evolves_def)
  have none: "c_execution c \<noteq> i \<or> c_result c \<noteq> Accepted" if "c \<in> set cs" for c
  proof -
    obtain d where "c = (if c_execution d = i \<and> c_result d = Accepted then unsettled d else d)"
      using \<open>c \<in> set cs\<close> unfolding cs_def in_map_if by blast
    then show ?thesis by (cases "c_execution d = i \<and> c_result d = Accepted") simp_all
  qed
  let ?f = "\<lambda>r. r\<lparr>x_state := (if lost then X_Lost else X_Finished), x_question := None\<rparr>"
  have fin: "finish_exec i lost s = on_exec i ?f s1" by (simp add: finish_exec_def s1_def cs_def on_exec_def)
  have rows: "x_rows (on_exec i ?f s1) = map (\<lambda>r. if x_id r = i then ?f r else r) (x_rows s)" by (simp add: on_exec_def s1_def)
  have ids: "map x_id (x_rows (on_exec i ?f s1)) = map x_id (x_rows s)" unfolding rows by auto
  have idset: "x_id ` set (x_rows (on_exec i ?f s1)) = x_id ` set (x_rows s)" using ids by (metis set_map)
  have "unique_live (x_rows (on_exec i ?f s1))"
    unfolding unique_live_def ids
  proof (intro conjI ballI impI)
    show "distinct (map x_id (x_rows s))" using ok by (simp add: xs_ok_def unique_live_def)
    fix a b assume "a \<in> set (x_rows (on_exec i ?f s1))" "b \<in> set (x_rows (on_exec i ?f s1))"
      and l: "live a \<and> live b \<and> (x_taskId a = x_taskId b \<or> x_ownerKey a = x_ownerKey b)"
    then obtain p q where "p \<in> set (x_rows s)" "a = (if x_id p = i then ?f p else p)" "q \<in> set (x_rows s)" "b = (if x_id q = i then ?f q else q)"
      unfolding rows in_map_if by blast
    with l have "a \<in> set (x_rows s)" "b \<in> set (x_rows s)" by (auto split: if_splits)
    with l ok show "x_id a = x_id b" unfolding xs_ok_def unique_live_def by blast
  qed
  moreover have "logs_ok (on_exec i ?f s1)"
    unfolding logs_ok_def idset
  proof (intro conjI ballI)
    fix a assume "a \<in> set (x_rows (on_exec i ?f s1))"
    then obtain p where p: "p \<in> set (x_rows s)" "a = (if x_id p = i then ?f p else p)" unfolding rows in_map_if by blast
    then have "x_id a = x_id p" "x_lastSeq a = x_lastSeq p" by (simp_all split: if_split)
    moreover have "map fst (log_of (x_id p) s) = [1..<Suc (x_lastSeq p)]" using ok p(1) unfolding xs_ok_def logs_ok_def by blast
    ultimately show "map fst (log_of (x_id a) (on_exec i ?f s1)) = [1..<Suc (x_lastSeq a)]"
      by (simp add: s1_def log_of_def)
  next
    show "fst ` set (x_events (on_exec i ?f s1)) \<subseteq> x_id ` set (x_rows s)"
      using ok by (simp add: s1_def xs_ok_def logs_ok_def)
  qed
  moreover have "commands_ok (on_exec i ?f s1)"
    unfolding commands_ok_def
  proof (intro conjI ballI impI)
    show "distinct (map command_key (x_commands (on_exec i ?f s1)))" using g1 by (simp add: good_def xs_ok_def commands_ok_def)
    fix c a assume c: "c \<in> set (x_commands (on_exec i ?f s1))" "c_result c = Accepted"
      and a: "a \<in> set (x_rows (on_exec i ?f s1))" "x_id a = c_execution c"
    have ni: "c_execution c \<noteq> i" using none[of c] c by (auto simp: s1_def)
    obtain p where p: "p \<in> set (x_rows s)" "a = (if x_id p = i then ?f p else p)" using a(1) unfolding rows in_map_if by blast
    with a(2) ni have "a = p" by (auto split: if_splits)
    moreover have "c \<in> set (x_commands s1)" using c(1) by simp
    ultimately show "x_state a = X_Running" using g1 c(2) a(2) p(1)
      unfolding good_def xs_ok_def commands_ok_def by (simp add: s1_def)
  qed
  ultimately have "xs_ok (on_exec i ?f s1)" by (simp add: xs_ok_def)
  moreover have "store_evolves s1 (on_exec i ?f s1)"
    by (rule store_evolves_same) (simp_all add: idset, simp add: s1_def)
  ultimately show ?thesis using good_trans[OF g1] unfolding fin by (simp add: good_def)
qed

lemma insert_good:
  assumes ok: "xs_ok s" and fresh: "i \<notin> x_id ` set (x_rows s)" and none: "\<forall>c \<in> set (x_commands s). c_execution c \<noteq> i \<or> c_result c \<noteq> Accepted"
  shows "good s (snd (insert_execution sha i a release node skills s))"
proof -
  define key where "key = owner_key sha a (case xs_resumeId a of None \<Rightarrow> i | Some r \<Rightarrow> r)"
  define s1 where "s1 = s\<lparr>x_rows := x_rows s @ [new_execution i a release node skills key]\<rparr>"
  have "good s s1" if nc: "\<not> index_conflict i (xs_taskId a) key s"
  proof -
    have new: "x_id (new_execution i a release node skills key) = i" "x_taskId (new_execution i a release node skills key) = xs_taskId a"
      "x_ownerKey (new_execution i a release node skills key) = key" "x_lastSeq (new_execution i a release node skills key) = 0"
      by (simp_all add: new_execution_def)
    have apart: "x_taskId r \<noteq> xs_taskId a \<and> x_ownerKey r \<noteq> key" if "r \<in> set (x_rows s)" "live r" for r
    proof -
      have "x_id r \<noteq> i" using fresh that(1) by auto
      then show ?thesis using nc that unfolding index_conflict_def by blast
    qed
    have "unique_live (x_rows s1)"
      unfolding unique_live_def
    proof (intro conjI ballI impI)
      show "distinct (map x_id (x_rows s1))" using ok fresh by (simp add: s1_def new xs_ok_def unique_live_def)
      fix p q assume "p \<in> set (x_rows s1)" "q \<in> set (x_rows s1)"
        and l: "live p \<and> live q \<and> (x_taskId p = x_taskId q \<or> x_ownerKey p = x_ownerKey q)"
      then consider "p \<in> set (x_rows s)" "q \<in> set (x_rows s)" | "p = q" | "p \<in> set (x_rows s)" "q = new_execution i a release node skills key"
        | "q \<in> set (x_rows s)" "p = new_execution i a release node skills key" by (auto simp: s1_def)
      then show "x_id p = x_id q"
      proof cases
        case 1
        then show ?thesis using l ok unfolding xs_ok_def unique_live_def by blast
      next
        case 3
        then show ?thesis using l apart[of p] new by simp
      next
        case 4
        then show ?thesis using l apart[of q] new by (simp; metis)
      qed simp
    qed
    moreover have "logs_ok s1"
    proof -
      have "fst ` set (x_events s) \<subseteq> x_id ` set (x_rows s)" using ok by (simp add: xs_ok_def logs_ok_def)
      then have "log_of i s = []" using fresh by (auto simp: log_of_def filter_empty_conv)
      then show ?thesis using ok by (auto simp: logs_ok_def s1_def new xs_ok_def log_of_def)
    qed
    moreover have "commands_ok s1" using ok none by (auto simp: commands_ok_def s1_def new xs_ok_def)
    moreover have "store_evolves s s1" by (rule store_evolves_same) (auto simp: s1_def)
    ultimately show ?thesis by (simp add: good_def xs_ok_def)
  qed
  then show ?thesis using append_good[of s1 i "plain_event Xb_Queued"] good_trans good_refl[OF ok]
    by (auto simp: insert_execution_def Let_def key_def[symmetric] s1_def[symmetric] good_def)
qed

lemma reserve_good:
  assumes "xs_ok s" "i \<notin> x_id ` set (x_rows s)" "\<forall>c \<in> set (x_commands s). c_execution c \<noteq> i \<or> c_result c \<noteq> Accepted"
  shows "good s (snd (reserve sha i a release node skills s))"
  using insert_good[OF assms] good_refl[OF assms(1)] by (simp add: reserve_def split: option.split)

lemma cancel_good: "xs_ok s \<Longrightarrow> good s (snd (cancelBeforeStart i s))"
  using append_good[of s i "plain_event (Xb_Exit (- 1))"] finish_good good_trans good_refl
  by (auto simp: cancelBeforeStart_def good_def split: sum.split)

lemma find_command_Some:
  "find_command x i s = Some c \<Longrightarrow> c \<in> set (x_commands s) \<and> command_key c = (x, i)"
  by (auto simp: find_command_def command_key_def dest: find_Some_in)

lemma find_command_unique:
  fixes s :: xstore
  assumes "commands_ok s" "c \<in> set (x_commands s)"
  shows "find_command (c_execution c) (c_id c) s = Some c"
  using find_key_unique[of command_key "x_commands s" c] assms by (simp add: commands_ok_def command_key_def find_command_def)

lemma enqueue_good:
  assumes ok: "xs_ok s"
  shows "good s (snd (enqueue x i body s))"
proof -
  let ?c = "\<lparr>c_execution = x, c_id = i, c_body = body, c_result = Accepted, c_claimed = False\<rparr>"
  define s1 where "s1 = s\<lparr>x_commands := x_commands s @ [?c]\<rparr>"
  have "good s s1" if none: "find_command x i s = None" and r: "find_exec x s = Some r" "x_state r = X_Running" for r
  proof -
    have "(x, i) \<notin> set (map command_key (x_commands s))"
      using none by (auto simp: find_command_def command_key_def find_None_iff)
    moreover have "x_state q = X_Running" if "q \<in> set (x_rows s)" "x_id q = x" for q
      using row_unique[OF _ that(1), of r] find_exec_Some[OF r(1)] that(2) r(2) ok by (auto simp: xs_ok_def)
    ultimately have "commands_ok s1" using ok by (auto simp: commands_ok_def s1_def xs_ok_def command_key_def)
    moreover have "commands_evolve s s1" unfolding commands_evolve_def s1_def using command_evolves_refl by fastforce
    ultimately show ?thesis using ok
      by (simp add: good_def xs_ok_def logs_ok_def log_of_def s1_def store_evolves_def log_extends_def ids_stay_def)
  qed
  then show ?thesis using good_refl[OF ok]
    by (auto simp: enqueue_def s1_def get_exec_def split: option.split)
qed

lemma pending_good: "xs_ok s \<Longrightarrow> good s (snd (pending_commands x s))"
proof -
  assume ok: "xs_ok s"
  show ?thesis
    by (rule commands_map_good[OF ok, where g = "\<lambda>c. if unclaimed x c then c\<lparr>c_claimed := True\<rparr> else c"])
      (auto simp: pending_commands_def Let_def command_evolves_def command_key_def)
qed

lemma set_result_good:
  assumes ok: "xs_ok s" and c: "find_command x i s = Some c" "c_result c = Accepted"
  shows "good s (set_command_result x i res s)"
proof (rule commands_map_good[OF ok, where g = "\<lambda>c. if c_execution c = x \<and> c_id c = i then c\<lparr>c_result := res\<rparr> else c"])
  fix d assume d: "d \<in> set (x_commands s)"
  have "d = c" if "c_execution d = x" "c_id d = i"
    using find_command_unique[of s d] ok d c(1) that by (simp add: xs_ok_def)
  then show "command_evolves d (if c_execution d = x \<and> c_id d = i then d\<lparr>c_result := res\<rparr> else d)"
    using c(2) by (auto simp: command_evolves_def command_key_def)
qed (simp_all add: set_command_result_def)

lemma settle_good:
  assumes ok: "xs_ok s"
  shows "good s (settle x i res s)"
proof (cases "find_command x i s")
  case (Some c)
  show ?thesis
  proof (cases "c_result c = Accepted")
    case True
    let ?s1 = "set_command_result x i res s"
    have g: "good s ?s1" using set_result_good[OF ok Some True] .
    have g2: "good s (snd (append_event x e (clearQuestion x q ?s1)))" for q e
    proof -
      have c: "good ?s1 (clearQuestion x q ?s1)" using g by (intro clearQuestion_good) (simp add: good_def)
      then have "good (clearQuestion x q ?s1) (snd (append_event x e (clearQuestion x q ?s1)))"
        by (intro append_good) (simp add: good_def)
      with g c show ?thesis using good_trans by blast
    qed
    show ?thesis
    proof (cases "c_body c")
      case (Cmd_Answer a)
      obtain r s2 where r: "append_event x (plain_event (Xb_Answer a)) (clearQuestion x (xa_requestId a) ?s1) = (r, s2)" by fastforce
      have "good s s2" using g2[of "plain_event (Xb_Answer a)" "xa_requestId a"] r by simp
      moreover have "settle x i res s = (if res = Delivered then (case r of Inl _ \<Rightarrow> s | Inr _ \<Rightarrow> s2) else ?s1)"
        unfolding settle_def Some option.case True Let_def Cmd_Answer exec_command.case r prod.case by (cases r) simp_all
      ultimately show ?thesis using g good_refl[OF ok] by (simp split: sum.split)
    qed (use g in \<open>simp_all add: settle_def Some True Let_def\<close>)
  qed (simp add: settle_def Some good_refl ok)
qed (simp add: settle_def good_refl ok)

lemma stop_events_good: "xs_ok s \<Longrightarrow> good s (stop_events i session why s)"
proof -
  assume ok: "xs_ok s"
  have a: "good s (snd (append_event i e s))" for e by (rule append_good[OF ok])
  then have "good (snd (append_event i e s)) (snd (append_event i e' (snd (append_event i e s))))" for e e'
    by (intro append_good) (simp add: good_def)
  with a show ?thesis unfolding stop_events_def using good_trans by blast
qed

lemma persist_good:
  assumes ok: "xs_ok s"
  shows "good s (snd (persistEvent sha i session e s))"
proof -
  have b: "good s (snd (bindSession sha i n s))" for n using bind_good[OF ok] .
  have b2: "good s (snd (append_event i e (snd (bindSession sha i n s))))" for n
    using b[of n] append_good good_trans unfolding good_def by meson
  have b3: "good s (stop_events i None why (snd (bindSession sha i n s)))" for n why
    using b[of n] stop_events_good good_trans unfolding good_def by meson
  show ?thesis
  proof (cases "xe_sessionId e")
    case None
    then show ?thesis using append_good[OF ok] by (simp add: persistEvent_def)
  next
    case (Some n)
    obtain r s1 where r: "bindSession sha i n s = (r, s1)" by (cases "bindSession sha i n s")
    show ?thesis
    proof (cases session)
      case None
      then show ?thesis using Some r b[of n] b2[of n] b3[where n = n] by (cases r) (auto simp: persistEvent_def)
    next
      case (Some k)
      then show ?thesis using \<open>xe_sessionId e = Some n\<close> append_good[OF ok] stop_events_good[OF ok] by (simp add: persistEvent_def)
    qed
  qed
qed

lemma detect_loss_good: "xs_ok s \<Longrightarrow> good s (detect_loss identity r s)"
  using append_good[of s "x_id r" "plain_event (Xb_Exit (- 1))"] finish_good good_trans good_refl
  unfolding detect_loss_def by (auto simp: good_def)

section \<open>All the clients of the store\<close>

definition fresh_id :: "string \<Rightarrow> xstore \<Rightarrow> bool" where
  "fresh_id i s \<longleftrightarrow> i \<notin> x_id ` set (x_rows s) \<and> i \<notin> c_execution ` set (x_commands s)"

text \<open>
  One operation of a server, of a host or of the operator on the store; with it go the keys
  of the commands that were handed to a host, in that order. A reservation draws a random id.
\<close>

type_synonym xworld = "xstore \<times> (string \<times> string) list"

inductive exec_step :: "(string list \<Rightarrow> string) \<Rightarrow> xworld \<Rightarrow> xworld \<Rightarrow> bool" for sha where
  X_Reserve: "fresh_id i s \<Longrightarrow> exec_step sha (s, h) (snd (reserve sha i a release node skills s), h)"
| X_Capacity: "exec_step sha (s, h) (snd (setCapacity n s), h)"
| X_Control: "exec_step sha (s, h) (saveControl t b s, h)"
| X_Admit: "exec_step sha (s, h) (snd (admit limit s), h)"
| X_Claim: "exec_step sha (s, h) (snd (claim i pid identity s), h)"
| X_Bind: "exec_step sha (s, h) (snd (bindSession sha i session s), h)"
| X_Append: "exec_step sha (s, h) (snd (append_event i e s), h)"
| X_Persist: "exec_step sha (s, h) (snd (persistEvent sha i bound e s), h)"
| X_Cancel: "exec_step sha (s, h) (snd (cancelBeforeStart i s), h)"
| X_Finish: "exec_step sha (s, h) (finish_exec i lost s, h)"
| X_Loss: "exec_step sha (s, h) (detect_loss identities r s, h)"
| X_Enqueue: "exec_step sha (s, h) (snd (enqueue i c body s), h)"
| X_Pending: "exec_step sha (s, h) (snd (pending_commands i s), h @ map command_key (fst (pending_commands i s)))"
| X_Settle: "exec_step sha (s, h) (settle i c res s, h)"

inductive_cases exec_stepE: "exec_step sha (s, h) w"

abbreviation exec_steps :: "(string list \<Rightarrow> string) \<Rightarrow> xworld \<Rightarrow> xworld \<Rightarrow> bool" where
  "exec_steps sha \<equiv> (exec_step sha)\<^sup>*\<^sup>*"

abbreviation exec_reach :: "(string list \<Rightarrow> string) \<Rightarrow> xworld \<Rightarrow> bool" where
  "exec_reach sha \<equiv> exec_steps sha (empty_store, [])"

definition handed_ok :: "xworld \<Rightarrow> bool" where
  "handed_ok w \<longleftrightarrow> distinct (snd w) \<and>
     (\<forall>k \<in> set (snd w). \<exists>c \<in> set (x_commands (fst w)). command_key c = k \<and> c_claimed c)"

lemma saveControl_good: "xs_ok s \<Longrightarrow> good s (saveControl t b s)"
  by (auto simp: good_def saveControl_def xs_ok_def logs_ok_def log_of_def commands_ok_def intro!: store_evolves_same)

lemma setCapacity_good: "xs_ok s \<Longrightarrow> good s (snd (setCapacity n s))"
  by (auto simp: good_def setCapacity_def xs_ok_def logs_ok_def log_of_def commands_ok_def intro!: store_evolves_same)

lemmas store_good = reserve_good setCapacity_good saveControl_good admit_good claim_good bind_good append_good persist_good
  cancel_good finish_good detect_loss_good enqueue_good pending_good settle_good

lemma exec_step_good: "exec_step sha w w' \<Longrightarrow> xs_ok (fst w) \<Longrightarrow> good (fst w) (fst w')"
proof (induction rule: exec_step.induct)
  case (X_Reserve i s h a release node skills)
  then have "\<forall>c \<in> set (x_commands s). c_execution c \<noteq> i \<or> c_result c \<noteq> Accepted" "i \<notin> x_id ` set (x_rows s)"
    by (auto simp: fresh_id_def)
  then show ?case using X_Reserve by (simp add: reserve_good)
qed (simp_all add: store_good)

lemma handed_stays: "handed_ok (s, h) \<Longrightarrow> store_evolves s s' \<Longrightarrow> handed_ok (s', h)"
  unfolding handed_ok_def store_evolves_def commands_evolve_def command_evolves_def by simp metis

lemma pending_handed:
  assumes "xs_ok s" "handed_ok (s, h)"
  shows "handed_ok (snd (pending_commands i s), h @ map command_key (fst (pending_commands i s)))"
proof -
  let ?s = "snd (pending_commands i s)" and ?new = "map command_key (filter (unclaimed i) (x_commands s))"
  have keys: "map command_key (fst (pending_commands i s)) = ?new"
    by (simp add: pending_commands_def Let_def command_key_def comp_def)
  have dist: "distinct (map command_key (x_commands s))" using assms(1) by (simp add: xs_ok_def commands_ok_def)
  have old: "handed_ok (?s, h)" using pending_good[OF assms(1)] handed_stays[OF assms(2)] by (simp add: good_def)
  have apart: "set h \<inter> set ?new = {}"
  proof (rule equals0I)
    fix k assume "k \<in> set h \<inter> set ?new"
    then obtain c d where c: "c \<in> set (x_commands s)" "command_key c = k" "c_claimed c"
      and d: "d \<in> set (x_commands s)" "command_key d = k" "\<not> c_claimed d"
      using assms(2) by (auto simp: handed_ok_def unclaimed_def)
    have "c = d" using dist c d by (metis distinct_map inj_onD)
    with c d show False by simp
  qed
  have claimed: "\<exists>c \<in> set (x_commands ?s). command_key c = k \<and> c_claimed c" if "k \<in> set ?new" for k
  proof -
    obtain c where c: "c \<in> set (x_commands s)" "unclaimed i c" "command_key c = k" using \<open>k \<in> set ?new\<close> by auto
    then have "c\<lparr>c_claimed := True\<rparr> \<in> set (x_commands ?s)" by (force simp: pending_commands_def Let_def)
    with c(3) show ?thesis by (intro bexI[of _ "c\<lparr>c_claimed := True\<rparr>"]) (simp_all add: command_key_def)
  qed
  show ?thesis unfolding keys using old apart claimed dist
    by (simp add: handed_ok_def distinct_map_filter ball_Un del: set_map)
qed

lemma exec_step_ok:
  assumes step: "exec_step sha w w'" and ok: "xs_ok (fst w)" and handed: "handed_ok w"
  shows "xs_ok (fst w') \<and> handed_ok w' \<and> store_evolves (fst w) (fst w')"
proof -
  have g: "good (fst w) (fst w')" by (rule exec_step_good[OF step ok])
  have "handed_ok w'"
  proof (cases "snd w' = snd w")
    case True
    then show ?thesis using g handed_stays[of "fst w" "snd w" "fst w'"] handed by (cases w, cases w') (simp add: good_def)
  next
    case False
    with step show ?thesis using ok handed by cases (simp_all add: pending_handed)
  qed
  with g show ?thesis by (simp add: good_def)
qed

lemma exec_steps_ok:
  assumes "exec_steps sha w w'" "xs_ok (fst w)" "handed_ok w"
  shows "xs_ok (fst w') \<and> handed_ok w' \<and> store_evolves (fst w) (fst w')"
  using assms
proof (induction rule: rtranclp_induct)
  case (step x y)
  then show ?case using exec_step_ok[of sha x y] store_evolves_trans by blast
qed simp

lemma exec_reach_ok: "exec_reach sha w \<Longrightarrow> xs_ok (fst w) \<and> handed_ok w"
proof -
  assume r: "exec_reach sha w"
  have "xs_ok empty_store" "handed_ok (empty_store, [])"
    by (simp_all add: xs_ok_def empty_store_def unique_live_def logs_ok_def commands_ok_def handed_ok_def)
  then show ?thesis using exec_steps_ok[OF r] by simp
qed

end
