(* ===== verification/Execution_Views.thy ===== *)
theory Execution_Views
  imports Execution_Laws
begin

text \<open>
  The view client over the store: which receipts are backed by the log, and what a view has
  emitted while servers, hosts and its own requests interleave.
\<close>

lemma count_list_distinct: "distinct xs \<Longrightarrow> count_list xs x \<le> 1"
  by (induction xs) (auto simp: count_list_0_iff[THEN iffD2])

section \<open>Receipts of answers\<close>

definition logged_answer :: "xstore \<Rightarrow> command_row \<Rightarrow> bool" where
  "logged_answer s c \<longleftrightarrow> (\<forall>a. c_body c = Cmd_Answer a \<longrightarrow> (\<exists>n. (c_execution c, n, plain_event (Xb_Answer a)) \<in> set (x_events s)))"

definition receipts_ok :: "xstore \<Rightarrow> bool" where
  "receipts_ok s \<longleftrightarrow> (\<forall>c \<in> set (x_commands s). c_result c = Delivered \<longrightarrow> logged_answer s c)"

text \<open>Delivered commands of the second store were delivered in the first.\<close>

definition no_new_receipt :: "command_row list \<Rightarrow> command_row list \<Rightarrow> bool" where
  "no_new_receipt cs cs' \<longleftrightarrow> (\<forall>c' \<in> set cs'. c_result c' = Delivered \<longrightarrow>
     (\<exists>c \<in> set cs. c_execution c = c_execution c' \<and> c_body c = c_body c' \<and> c_result c = Delivered))"

lemma no_new_receipt_refl [simp]: "no_new_receipt cs cs"
  by (auto simp: no_new_receipt_def)

lemma no_new_receipt_map:
  "(\<And>c. c \<in> set cs \<Longrightarrow> c_result (g c) = Delivered \<Longrightarrow> c_execution (g c) = c_execution c \<and> c_body (g c) = c_body c \<and> c_result c = Delivered) \<Longrightarrow>
   no_new_receipt cs (map g cs)"
  unfolding no_new_receipt_def by auto

lemma receipts_keep:
  assumes ok: "receipts_ok s" and more: "store_evolves s s'" and none: "no_new_receipt (x_commands s) (x_commands s')"
  shows "receipts_ok s'"
  unfolding receipts_ok_def
proof (intro ballI impI)
  fix c' assume "c' \<in> set (x_commands s')" "c_result c' = Delivered"
  then obtain c where c: "c \<in> set (x_commands s)" "c_execution c = c_execution c'" "c_body c = c_body c'" "c_result c = Delivered"
    using none unfolding no_new_receipt_def by blast
  have "set (x_events s) \<subseteq> set (x_events s')" using more by (auto simp: store_evolves_def log_extends_def)
  moreover have "logged_answer s c" using ok c(1,4) by (simp add: receipts_ok_def)
  ultimately show "logged_answer s' c'" unfolding logged_answer_def c(2,3) by blast
qed

lemma append_commands [simp]: "x_commands (snd (append_event i e s)) = x_commands s"
  by (simp add: append_event_def note_question_def clearQuestion_def Let_def split: sum.split exec_event_body.split)

lemma bind_commands [simp]: "x_commands (snd (bindSession sha i n s)) = x_commands s"
  by (simp add: bindSession_def Let_def split: sum.split)

lemma stop_commands [simp]: "x_commands (stop_events i session why s) = x_commands s"
  by (simp add: stop_events_def)

lemma admit_fold_commands [simp]: "x_commands (fold (\<lambda>i. on_exec i f) ids s) = x_commands s"
  by (induction ids arbitrary: s) simp_all

lemma insert_commands [simp]: "x_commands (snd (insert_execution sha i a release node skills s)) = x_commands s"
  by (simp add: insert_execution_def Let_def)

lemma reserve_commands [simp]: "x_commands (snd (reserve sha i a release node skills s)) = x_commands s"
  by (simp add: reserve_def split: option.split)

lemma admit_commands [simp]: "x_commands (snd (admit limit s)) = x_commands s"
  by (simp add: admit_def Let_def)

lemma claim_commands [simp]: "x_commands (snd (claim i pid identity s)) = x_commands s"
  by (simp add: claim_def split: option.split)

lemma persist_commands [simp]: "x_commands (snd (persistEvent sha i bound e s)) = x_commands s"
proof (cases "xe_sessionId e")
  case (Some n)
  show ?thesis
  proof (cases bound)
    case None
    obtain r s1 where r: "bindSession sha i n s = (r, s1)" by fastforce
    then have "x_commands s1 = x_commands s" using bind_commands[of sha i n s] by simp
    then show ?thesis using Some None r by (cases r) (simp_all add: persistEvent_def)
  qed (simp add: persistEvent_def Some)
qed (simp add: persistEvent_def)

lemma finish_no_receipt: "no_new_receipt (x_commands s) (x_commands (finish_exec i lost s))"
  unfolding finish_exec_def by (simp, rule no_new_receipt_map) (auto split: if_splits)

lemma settle_receipts:
  assumes ok: "receipts_ok s" and xs: "xs_ok s"
  shows "receipts_ok (settle x i res s)"
proof (cases "find_command x i s")
  case (Some c)
  let ?s1 = "set_command_result x i res s"
  have s1: "x_events ?s1 = x_events s" by (simp add: set_command_result_def)
  have key: "d = c" if "d \<in> set (x_commands s)" "c_execution d = x" "c_id d = i" for d
    using find_command_unique[of s d] xs that Some by (simp add: xs_ok_def)
  have in1: "c' = c\<lparr>c_result := res\<rparr> \<and> c_execution c = x \<or> c' \<in> set (x_commands s)" if l: "c' \<in> set (x_commands ?s1)" for c'
  proof -
    have "x_commands ?s1 = map (\<lambda>d. if c_execution d = x \<and> c_id d = i then d\<lparr>c_result := res\<rparr> else d) (x_commands s)"
      by (simp add: set_command_result_def)
    then have "c' \<in> set (map (\<lambda>d. if c_execution d = x \<and> c_id d = i then d\<lparr>c_result := res\<rparr> else d) (x_commands s))"
      using l by (simp only:)
    then obtain d where d: "d \<in> set (x_commands s)" "c' = (if c_execution d = x \<and> c_id d = i then d\<lparr>c_result := res\<rparr> else d)"
      unfolding in_map_if by blast
    show ?thesis
    proof (cases "c_execution d = x \<and> c_id d = i")
      case True
      then show ?thesis using key[of d] d by simp
    next
      case False
      then have "c' = d" using d(2) by (simp only: if_False)
      with d(1) show ?thesis by simp
    qed
  qed
  have plain: "receipts_ok ?s1" if l: "res \<noteq> Delivered \<or> (\<forall>a. c_body c \<noteq> Cmd_Answer a)"
    unfolding receipts_ok_def
  proof (intro ballI impI)
    fix c' assume c': "c' \<in> set (x_commands ?s1)" "c_result c' = Delivered"
    from in1[OF c'(1)] show "logged_answer ?s1 c'"
    proof
      assume "c' = c\<lparr>c_result := res\<rparr> \<and> c_execution c = x"
      with l c'(2) show ?thesis by (auto simp: logged_answer_def)
    next
      assume "c' \<in> set (x_commands s)"
      with ok c'(2) show ?thesis by (simp add: receipts_ok_def logged_answer_def s1)
    qed
  qed
  show ?thesis
  proof (cases "c_result c = Accepted \<and> res = Delivered \<and> (\<exists>a. c_body c = Cmd_Answer a)")
    case True
    then obtain a where t: "c_result c = Accepted" "res = Delivered" and a: "c_body c = Cmd_Answer a" by blast
    obtain r s2 where r: "append_event x (plain_event (Xb_Answer a)) (clearQuestion x (xa_requestId a) ?s1) = (r, s2)" by fastforce
    have settle: "settle x i res s = (case r of Inl _ \<Rightarrow> s | Inr _ \<Rightarrow> s2)"
      using r unfolding settle_def Some option.case t(1) Let_def a exec_command.case t(2) by (cases r) simp_all
    show ?thesis
    proof (cases r)
      case (Inr n)
      have ev: "x_events s2 = x_events s @ [(x, n, plain_event (Xb_Answer a))]"
        using r Inr by (auto simp: append_event_def note_question_def plain_event_def clearQuestion_def Let_def s1 split: sum.splits)
      have cm: "x_commands s2 = x_commands ?s1"
        using append_commands[of x "plain_event (Xb_Answer a)" "clearQuestion x (xa_requestId a) ?s1"] unfolding r snd_conv
        by (simp add: clearQuestion_def)
      have "logged_answer s2 c'" if l: "c' \<in> set (x_commands s2)" "c_result c' = Delivered" for c'
        using in1[OF l(1)[unfolded cm]]
      proof
        assume "c' = c\<lparr>c_result := res\<rparr> \<and> c_execution c = x"
        with a show ?thesis by (auto simp: logged_answer_def ev)
      next
        assume "c' \<in> set (x_commands s)"
        with ok l(2) have "logged_answer s c'" by (simp add: receipts_ok_def)
        then show ?thesis unfolding logged_answer_def ev by auto
      qed
      then show ?thesis using settle Inr by (simp add: receipts_ok_def)
    qed (use settle ok in simp)
  next
    case False
    show ?thesis
    proof (cases "c_result c = Accepted")
      case True
      have "settle x i res s = ?s1"
        using False True unfolding settle_def Some option.case Let_def by (auto split: exec_command.split)
      with plain False True show ?thesis by auto
    qed (simp add: settle_def Some ok)
  qed
qed (simp add: settle_def ok)

lemma exec_step_receipts:
  assumes "exec_step sha w w'" "xs_ok (fst w)" "receipts_ok (fst w)"
  shows "receipts_ok (fst w')"
proof -
  have ev: "store_evolves (fst w) (fst w')" using exec_step_good[OF assms(1,2)] by (simp add: good_def)
  have "no_new_receipt (x_commands (fst w)) (x_commands (fst w')) \<or> (\<exists>i c res. fst w' = settle i c res (fst w))"
    using assms(1)
  proof (induction rule: exec_step.induct)
    case (X_Cancel s h i)
    then show ?case using finish_no_receipt[of "snd (append_event i (plain_event (Xb_Exit (- 1))) s)" i False]
      by (simp add: cancelBeforeStart_def split: sum.split)
  next
    case (X_Loss s h identities r)
    then show ?case using finish_no_receipt[of "snd (append_event (x_id r) (plain_event (Xb_Exit (- 1))) s)" "x_id r" True]
      by (simp add: detect_loss_def)
  next
    case (X_Enqueue s h i c body)
    then show ?case by (auto simp: enqueue_def no_new_receipt_def split: option.split sum.split)
  next
    case (X_Pending s h i)
    have "no_new_receipt (x_commands s) (map (\<lambda>c. if unclaimed i c then c\<lparr>c_claimed := True\<rparr> else c) (x_commands s))"
      by (rule no_new_receipt_map) (auto simp: unclaimed_def split: if_splits)
    then show ?case by (simp add: pending_commands_def Let_def)
  next
    case (X_Settle s h i c res)
    then show ?case by auto
  qed (simp_all add: finish_no_receipt setCapacity_def saveControl_def)
  then show ?thesis
  proof
    assume "no_new_receipt (x_commands (fst w)) (x_commands (fst w'))"
    then show ?thesis using receipts_keep[OF assms(3) ev] by simp
  qed (use settle_receipts[OF assms(3,2)] in auto)
qed

definition world_ok :: "xworld \<Rightarrow> bool" where
  "world_ok w \<longleftrightarrow> xs_ok (fst w) \<and> handed_ok w \<and> receipts_ok (fst w)"

lemma exec_steps_world:
  assumes "exec_steps sha w w'" "world_ok w"
  shows "world_ok w' \<and> store_evolves (fst w) (fst w')"
  using assms
proof (induction rule: rtranclp_induct)
  case (step x y)
  then show ?case
    using exec_step_ok[of sha x y] exec_step_receipts[of sha x y] store_evolves_trans by (simp add: world_ok_def) blast
qed simp

lemma exec_reach_world: "exec_reach sha w \<Longrightarrow> world_ok w"
proof -
  assume r: "exec_reach sha w"
  have "world_ok (empty_store, [])"
    by (simp add: world_ok_def xs_ok_def empty_store_def unique_live_def logs_ok_def commands_ok_def handed_ok_def receipts_ok_def)
  then show ?thesis using exec_steps_world[OF r] by simp
qed

section \<open>A view\<close>

lemma log_fst: "xs_ok s \<Longrightarrow> find_exec i s = Some r \<Longrightarrow> map fst (log_of i s) = [1..<Suc (x_lastSeq r)]"
  using find_exec_Some[of i s r] by (auto simp: xs_ok_def logs_ok_def)

lemma log_length: "xs_ok s \<Longrightarrow> find_exec i s = Some r \<Longrightarrow> length (log_of i s) = x_lastSeq r"
  using arg_cong[where f = length, OF log_fst[of s i r]] by simp

lemma log_prefix: "store_evolves s s' \<Longrightarrow> \<exists>more. log_of i s' = log_of i s @ more"
  by (auto simp: store_evolves_def log_extends_def log_of_def)

text \<open>The part of a numbered log after a cursor.\<close>

lemma filter_numbered:
  "map fst xs = [Suc k..<Suc (k + length xs)] \<Longrightarrow> filter (\<lambda>e. n < fst e) xs = drop (n - k) xs"
proof (induction xs arbitrary: k)
  case (Cons x xs)
  have u: "[Suc k..<Suc (k + length (x # xs))] = Suc k # [Suc (Suc k)..<Suc (Suc k + length xs)]"
    by (subst upt_conv_Cons) simp_all
  with Cons.prems have x: "fst x = Suc k" and xs: "map fst xs = [Suc (Suc k)..<Suc (Suc k + length xs)]" by (simp_all only: list.map list.inject)
  show ?case
  proof (cases "n \<le> k")
    case True
    with Cons.IH[OF xs] x show ?thesis by simp
  next
    case False
    then have "n - k = Suc (n - Suc k)" by simp
    with False Cons.IH[OF xs] x show ?thesis by simp
  qed
qed simp

lemma events_page:
  assumes "xs_ok s" "find_exec i s = Some r"
  shows "events_after i n s = take page_size (drop n (log_of i s))"
proof -
  have f: "map fst (log_of i s) = [1..<Suc (x_lastSeq r)]" using log_fst[OF assms] .
  have l: "length (log_of i s) = x_lastSeq r" using log_length[OF assms] .
  have d: "filter (\<lambda>e. n < fst e) (log_of i s) = drop n (log_of i s)"
    using filter_numbered[of "log_of i s" 0 n] f l by simp
  have "sorted (map fst (drop n (log_of i s)))" by (simp flip: drop_map add: f del: upt_Suc)
  then have "sort_key fst (drop n (log_of i s)) = drop n (log_of i s)" by (rule sort_key_id_if_sorted)
  then show ?thesis by (simp add: events_after_def d)
qed

definition in_sync :: "view \<Rightarrow> xstore \<Rightarrow> bool" where
  "in_sync v s \<longleftrightarrow> (\<exists>r. find_exec (v_exec v) s = Some r \<and> v_cursor v \<le> x_lastSeq r) \<and>
     v_emitted v = take (v_cursor v) (log_of (v_exec v) s)"

lemma find_exec_stays:
  assumes "xs_ok s'" "store_evolves s s'" "find_exec i s = Some r"
  shows "\<exists>r'. find_exec i s' = Some r'"
proof -
  have "i \<in> x_id ` set (x_rows s')" using assms(2,3) find_exec_Some[of i s r] by (auto simp: store_evolves_def ids_stay_def)
  then obtain r' where "r' \<in> set (x_rows s')" "x_id r' = i" by auto
  then show ?thesis using find_exec_unique[of s' r'] assms(1) by (auto simp: xs_ok_def)
qed

lemma in_sync_evolves:
  assumes "xs_ok s" "xs_ok s'" "store_evolves s s'" "in_sync v s"
  shows "in_sync v s'"
proof -
  obtain r where r: "find_exec (v_exec v) s = Some r" "v_cursor v \<le> x_lastSeq r" using assms(4) by (auto simp: in_sync_def)
  obtain r' where r': "find_exec (v_exec v) s' = Some r'" using find_exec_stays[OF assms(2,3) r(1)] by blast
  obtain more where more: "log_of (v_exec v) s' = log_of (v_exec v) s @ more" using log_prefix[OF assms(3)] by blast
  have l: "length (log_of (v_exec v) s) = x_lastSeq r" "length (log_of (v_exec v) s') = x_lastSeq r'"
    using log_length assms r r' by blast+
  then have "v_cursor v \<le> length (log_of (v_exec v) s)" using r(2) by simp
  then have "take (v_cursor v) (log_of (v_exec v) s') = take (v_cursor v) (log_of (v_exec v) s)" unfolding more by simp
  moreover have "x_lastSeq r \<le> x_lastSeq r'" using l more by simp
  ultimately show ?thesis using assms(4) r r' unfolding in_sync_def by force
qed

lemma emit_page_sync:
  assumes ok: "xs_ok s" and sync: "in_sync v s" and cur: "find_exec (v_exec v) s = Some cur"
  defines "v' \<equiv> emit_page (events_after (x_id cur) (v_cursor v) s) v"
  shows "in_sync v' s" "v_exec v' = v_exec v" "v_cursor v' = min (v_cursor v + page_size) (x_lastSeq cur)"
    "v_waiters v' = v_waiters v" "v_resolved v' = v_resolved v" "v_ended v' = v_ended v"
proof -
  let ?log = "log_of (v_exec v) s" and ?n = "v_cursor v"
  have id: "x_id cur = v_exec v" using find_exec_Some[OF cur] by simp
  have page: "events_after (x_id cur) ?n s = take page_size (drop ?n ?log)" unfolding id by (rule events_page[OF ok cur])
  have len: "length ?log = x_lastSeq cur" and num: "map fst ?log = [1..<Suc (x_lastSeq cur)]"
    using log_length[OF ok cur] log_fst[OF ok cur] by blast+
  have le: "?n \<le> x_lastSeq cur" using sync cur by (auto simp: in_sync_def)
  have em: "v_emitted v = take ?n ?log" using sync by (simp add: in_sync_def)
  show c: "v_cursor v' = min (?n + page_size) (x_lastSeq cur)"
  proof (cases "?n = x_lastSeq cur")
    case True
    then have "drop ?n ?log = []" using len by simp
    then have none: "events_after (x_id cur) ?n s = []" unfolding page by simp
    show ?thesis unfolding v'_def none using True by (simp add: emit_page_def)
  next
    case False
    let ?k = "min page_size (x_lastSeq cur - ?n)"
    have k: "0 < ?k" "length (take page_size (drop ?n ?log)) = ?k" using False le len by (auto simp: page_size_def)
    then have ne: "take page_size (drop ?n ?log) \<noteq> []" by auto
    have "last (take page_size (drop ?n ?log)) = ?log ! (?n + (?k - 1))"
    proof -
      have "?k - 1 < page_size" "?k - 1 < length (drop ?n ?log)" using k(1) len le by (auto simp: min_def page_size_def)
      then have "take page_size (drop ?n ?log) ! (?k - 1) = ?log ! (?n + (?k - 1))" using len le by simp
      moreover have "last (take page_size (drop ?n ?log)) = take page_size (drop ?n ?log) ! (?k - 1)"
        unfolding last_conv_nth[OF ne] k(2) ..
      ultimately show ?thesis by (rule trans[rotated])
    qed
    moreover have "fst (?log ! (?n + (?k - 1))) = Suc (?n + (?k - 1))"
    proof -
      have b: "?n + (?k - 1) < length ?log" using k(1) le len by (auto simp: min_def page_size_def)
      have "fst (?log ! (?n + (?k - 1))) = map fst ?log ! (?n + (?k - 1))" using b by simp
      also have "\<dots> = Suc (?n + (?k - 1))" unfolding num using b len by (simp del: upt_Suc)
      finally show ?thesis .
    qed
    ultimately have "fst (last (take page_size (drop ?n ?log))) = ?n + ?k" using k by simp
    then show ?thesis using ne le by (simp add: v'_def emit_page_def page)
  qed
  show "v_exec v' = v_exec v" "v_waiters v' = v_waiters v" "v_resolved v' = v_resolved v" "v_ended v' = v_ended v"
    by (simp_all add: v'_def emit_page_def)
  have "v_emitted v' = take (?n + page_size) ?log" by (simp add: v'_def emit_page_def page em take_add)
  also have "\<dots> = take (v_cursor v') ?log" unfolding c using len by (simp add: min_def)
  finally show "in_sync v' s" using cur by (simp add: in_sync_def c \<open>v_exec v' = v_exec v\<close>)
qed

text \<open>Whatever a request was answered with is the final receipt of its command, and all of its events were emitted before.\<close>

definition answered_as :: "string \<Rightarrow> (nat \<times> exec_event) list \<Rightarrow> xstore \<Rightarrow> string \<times> command_result \<Rightarrow> bool" where
  "answered_as x emitted s p \<longleftrightarrow> snd p \<noteq> Accepted \<and> (snd p = Unknown \<or>
     (\<exists>c. find_command x (fst p) s = Some c \<and> c_result c = snd p \<and>
       (snd p = Delivered \<longrightarrow> (\<forall>a. c_body c = Cmd_Answer a \<longrightarrow> plain_event (Xb_Answer a) \<in> snd ` set emitted))))"

definition answered_ok :: "view \<Rightarrow> xstore \<Rightarrow> bool" where
  "answered_ok v s \<longleftrightarrow> (\<forall>p \<in> set (v_resolved v). answered_as (v_exec v) (v_emitted v) s p)"

lemma find_command_evolves:
  fixes s s' :: xstore
  assumes "xs_ok s" "xs_ok s'" "store_evolves s s'" "find_command x i s = Some c"
  shows "\<exists>c'. find_command x i s' = Some c' \<and> command_evolves c c'"
proof -
  have c: "c \<in> set (x_commands s)" "command_key c = (x, i)" using find_command_Some[OF assms(4)] by simp_all
  then obtain c' where c': "c' \<in> set (x_commands s')" "command_evolves c c'"
    using assms(3) unfolding store_evolves_def commands_evolve_def by blast
  then have "c_execution c' = x" "c_id c' = i" using c(2) by (simp_all add: command_evolves_def command_key_def)
  then show ?thesis using find_command_unique[of s' c'] assms(2) c' by (auto simp: xs_ok_def)
qed

lemma answered_ok_evolves:
  fixes s s' :: xstore
  assumes "xs_ok s" "xs_ok s'" "store_evolves s s'" "answered_ok v s"
  shows "answered_ok v s'"
  unfolding answered_ok_def
proof
  fix p assume "p \<in> set (v_resolved v)"
  then have old: "answered_as (v_exec v) (v_emitted v) s p" using assms(4) by (auto simp: answered_ok_def)
  show "answered_as (v_exec v) (v_emitted v) s' p"
  proof (cases "snd p = Unknown")
    case False
    with old obtain c where c: "find_command (v_exec v) (fst p) s = Some c" "c_result c = snd p" "snd p \<noteq> Accepted"
      "snd p = Delivered \<longrightarrow> (\<forall>a. c_body c = Cmd_Answer a \<longrightarrow> plain_event (Xb_Answer a) \<in> snd ` set (v_emitted v))"
      unfolding answered_as_def by blast
    obtain c' where "find_command (v_exec v) (fst p) s' = Some c'" "command_evolves c c'"
      using find_command_evolves[OF assms(1,2,3) c(1)] by blast
    with c show ?thesis by (auto simp: command_evolves_def answered_as_def)
  qed (simp add: answered_as_def)
qed

lemma emit_answered: "answered_ok v s \<Longrightarrow> answered_ok (emit_page es v) s"
proof -
  assume ok: "answered_ok v s"
  have more: "answered_as x (es1 @ es2) s p" if "answered_as x es1 s p" for x es1 es2 p
    using that unfolding answered_as_def set_append image_Un Un_iff by metis
  show ?thesis unfolding answered_ok_def
  proof
    fix p assume "p \<in> set (v_resolved (emit_page es v))"
    then have "answered_as (v_exec v) (v_emitted v) s p" using ok by (simp add: answered_ok_def emit_page_def)
    from more[OF this, of es] show "answered_as (v_exec (emit_page es v)) (v_emitted (emit_page es v)) s p" by (simp add: emit_page_def)
  qed
qed

lemma answer_waiters_frame:
  "answer_waiters ws n s v = (early, v') \<Longrightarrow> v_exec v' = v_exec v \<and> v_cursor v' = v_cursor v \<and> v_emitted v' = v_emitted v \<and> v_ended v' = v_ended v"
proof (induction ws arbitrary: v)
  case (Cons w ws)
  show ?case
  proof (cases "find_command (v_exec v) w s")
    case None
    then show ?thesis using Cons.IH[of v] Cons.prems by simp
  next
    case (Some c)
    consider "c_result c = Accepted" | "c_result c \<noteq> Accepted" "v_cursor v < n" | "c_result c \<noteq> Accepted" "\<not> v_cursor v < n" by blast
    then show ?thesis
    proof cases
      case 1
      then show ?thesis using Cons.IH[of v] Cons.prems Some by simp
    next
      case 2
      then show ?thesis using Cons.prems Some by simp
    next
      case 3
      let ?u = "v\<lparr>v_waiters := filter (\<lambda>x. x \<noteq> w) (v_waiters v), v_resolved := v_resolved v @ [(w, c_result c)]\<rparr>"
      have "answer_waiters ws n s ?u = (early, v')" using 3 Cons.prems Some by simp
      from Cons.IH[OF this] show ?thesis by simp
    qed
  qed
qed simp

lemma answer_waiters_early: "fst (answer_waiters ws n s v) \<Longrightarrow> v_cursor v < n"
proof (induction ws arbitrary: v)
  case (Cons w ws)
  show ?case
  proof (cases "find_command (v_exec v) w s")
    case None
    then show ?thesis using Cons by simp
  next
    case (Some c)
    show ?thesis
    proof (cases "c_result c = Accepted \<or> v_cursor v < n")
      case True
      then show ?thesis using Cons Some by (auto split: if_splits)
    next
      case False
      then show ?thesis
        using Cons.IH[of "v\<lparr>v_waiters := filter (\<lambda>x. x \<noteq> w) (v_waiters v), v_resolved := v_resolved v @ [(w, c_result c)]\<rparr>"] Cons.prems Some
        by simp
    qed
  qed
qed simp

lemma answer_waiters_ok:
  assumes "answer_waiters ws n s v = (early, v')" "answered_ok v s" "receipts_ok s" "xs_ok s" "in_sync v s"
    and "\<exists>r. find_exec (v_exec v) s = Some r \<and> x_lastSeq r = n"
  shows "answered_ok v' s"
  using assms
proof (induction ws n s v arbitrary: v' rule: answer_waiters.induct)
  case (2 w ws n s v)
  show ?case
  proof (cases "find_command (v_exec v) w s")
    case None
    then have "answer_waiters ws n s v = (early, v')" using "2.prems"(1) by simp
    then show ?thesis using "2.IH"(1)[OF None] "2.prems" by blast
  next
    case (Some c)
    show ?thesis
    proof (cases "c_result c = Accepted \<or> v_cursor v < n")
      case True
      show ?thesis
      proof (cases "c_result c = Accepted")
        case acc: True
        then have "answer_waiters ws n s v = (early, v')" using "2.prems"(1) Some by simp
        then show ?thesis using "2.IH"(2)[OF Some acc] "2.prems" by blast
      next
        case False
        with True have "v' = v" using "2.prems"(1) Some by simp
        then show ?thesis using "2.prems" by simp
      qed
    next
      case False
      define u where "u = v\<lparr>v_waiters := filter (\<lambda>x. x \<noteq> w) (v_waiters v), v_resolved := v_resolved v @ [(w, c_result c)]\<rparr>"
      obtain r where r: "find_exec (v_exec v) s = Some r" "x_lastSeq r = n" using "2.prems"(6) by blast
      have full: "v_emitted v = log_of (v_exec v) s"
        using "2.prems"(5) False r log_length[OF "2.prems"(4) r(1)] by (auto simp: in_sync_def)
      have c: "c \<in> set (x_commands s)" "c_execution c = v_exec v" using find_command_Some[OF Some] by (auto simp: command_key_def)
      have "plain_event (Xb_Answer a) \<in> snd ` set (v_emitted v)" if l: "c_result c = Delivered" "c_body c = Cmd_Answer a" for a
      proof -
        obtain k where "(c_execution c, k, plain_event (Xb_Answer a)) \<in> set (x_events s)"
          using "2.prems"(3) c(1) l by (auto simp: receipts_ok_def logged_answer_def)
        then have "(k, plain_event (Xb_Answer a)) \<in> set (log_of (v_exec v) s)" using c(2) by (force simp: log_of_def)
        then show ?thesis unfolding full by force
      qed
      then have "answered_as (v_exec v) (v_emitted v) s (w, c_result c)" using False Some by (simp add: answered_as_def)
      then have "answered_ok u s" using "2.prems"(2) by (simp add: answered_ok_def u_def ball_Un)
      moreover have "answer_waiters ws n s u = (early, v')" using "2.prems"(1) Some False by (simp add: u_def)
      moreover have "in_sync u s" using "2.prems"(5) by (simp add: in_sync_def u_def)
      moreover have "\<exists>r. find_exec (v_exec u) s = Some r \<and> x_lastSeq r = n" using r by (simp add: u_def)
      ultimately show ?thesis
        using "2.IH"(3)[OF Some, folded u_def] False "2.prems"(3,4) by blast
    qed
  qed
qed simp

text \<open>
  One step of a view, or of the other clients of the store. Between the two halves of a
  reconciliation other processes write.
\<close>

inductive view_step :: "(string list \<Rightarrow> string) \<Rightarrow> view \<times> xworld \<Rightarrow> view \<times> xworld \<Rightarrow> bool" for sha where
  VS_Store: "exec_step sha w w' \<Longrightarrow> view_step sha (v, w) (v, w')"
| VS_Reconcile: "reconcile_read identity (v, s) = (cur, v1, s1) \<Longrightarrow> exec_steps sha (s1, h) (s2, h2) \<Longrightarrow>
    reconcile_rest cur (v1, s2) = (again, v2) \<Longrightarrow> view_step sha (v, (s, h)) (v2, (s2, h2))"
| VS_Command: "deliveredCommand body i (v, s) = (r, v1, s1) \<Longrightarrow> view_step sha (v, (s, h)) (v1, (s1, h))"
| VS_Timeout: "view_step sha (v, w) (waiter_timeout i v, w)"
| VS_Close: "view_step sha (v, w) (close_view v, w)"

definition view_ok :: "view \<times> xworld \<Rightarrow> bool" where
  "view_ok vw \<longleftrightarrow> world_ok (snd vw) \<and> in_sync (fst vw) (fst (snd vw)) \<and> answered_ok (fst vw) (fst (snd vw))"

lemma view_ok_same:
  "view_ok (v, w) \<Longrightarrow> v_exec v' = v_exec v \<and> v_cursor v' = v_cursor v \<and> v_emitted v' = v_emitted v \<and> v_resolved v' = v_resolved v \<Longrightarrow>
   view_ok (v', w)"
proof -
  assume v: "view_ok (v, w)" and same: "v_exec v' = v_exec v \<and> v_cursor v' = v_cursor v \<and> v_emitted v' = v_emitted v \<and> v_resolved v' = v_resolved v"
  have "in_sync v (fst w) \<Longrightarrow> in_sync v' (fst w)" using same by (simp add: in_sync_def)
  moreover have "answered_ok v (fst w) \<Longrightarrow> answered_ok v' (fst w)" using same by (simp add: answered_ok_def)
  ultimately show ?thesis using v by (simp add: view_ok_def)
qed

lemma view_ok_unknown:
  assumes "view_ok (v, w)"
  shows "view_ok (v\<lparr>v_resolved := v_resolved v @ map (\<lambda>i. (i, Unknown)) ids\<rparr>, w)"
proof -
  let ?u = "v\<lparr>v_resolved := v_resolved v @ map (\<lambda>i. (i, Unknown)) ids\<rparr>"
  have "in_sync v (fst w) \<Longrightarrow> in_sync ?u (fst w)" by (simp add: in_sync_def)
  moreover have "answered_ok v (fst w) \<Longrightarrow> answered_ok ?u (fst w)" by (auto simp: answered_ok_def answered_as_def)
  ultimately show ?thesis using assms by (simp add: view_ok_def)
qed

lemma world_steps_view:
  assumes "exec_steps sha w w'" "view_ok (v, w)"
  shows "view_ok (v, w')"
  using exec_steps_world[OF assms(1)] assms(2) in_sync_evolves answered_ok_evolves unfolding view_ok_def world_ok_def by fastforce

lemma reconcile_read_ok:
  assumes read: "reconcile_read identity (v, s) = (cur, v1, s1)" and ok: "view_ok (v, (s, h))"
  shows "view_ok (v1, (s1, h))" "exec_steps sha (s, h) (s1, h)"
    "\<forall>r. cur = Some r \<longrightarrow> \<not> v_ended v \<and> v_exec v1 = v_exec v \<and> find_exec (v_exec v) s1 = Some r \<and>
       v_cursor v1 = min (v_cursor v + page_size) (x_lastSeq r)"
proof -
  have "view_ok (v1, (s1, h)) \<and> exec_steps sha (s, h) (s1, h) \<and>
    (\<forall>r. cur = Some r \<longrightarrow> \<not> v_ended v \<and> v_exec v1 = v_exec v \<and> find_exec (v_exec v) s1 = Some r \<and>
       v_cursor v1 = min (v_cursor v + page_size) (x_lastSeq r))"
  proof (cases "v_ended v \<or> find_exec (v_exec v) s = None")
    case True
    then have "cur = None" "v1 = v" "s1 = s" using read unfolding reconcile_read_def by (cases "v_ended v"; simp)+
    then show ?thesis using ok by simp
  next
    case False
    then obtain r where r: "find_exec (v_exec v) s = Some r" by blast
    define t where "t = detect_loss identity r s"
    have st: "exec_steps sha (s, h) (t, h)" unfolding t_def by (intro r_into_rtranclp X_Loss)
    then have vt: "view_ok (v, (t, h))" using world_steps_view[OF _ ok] by blast
    show ?thesis
    proof (cases "find_exec (v_exec v) t")
      case None
      then have "cur = None" "v1 = v" "s1 = t" using read False r by (auto simp: reconcile_read_def t_def)
      then show ?thesis using vt st by simp
    next
      case (Some q)
      then have q: "cur = Some q" "v1 = emit_page (events_after (x_id q) (v_cursor v) t) v" "s1 = t"
        using read False r by (auto simp: reconcile_read_def t_def Let_def)
      have "xs_ok t" "in_sync v t" "answered_ok v t" using vt by (simp_all add: view_ok_def world_ok_def)
      then have "in_sync v1 t" "answered_ok v1 t" "v_exec v1 = v_exec v" "v_cursor v1 = min (v_cursor v + page_size) (x_lastSeq q)"
        unfolding q(2) using emit_page_sync[OF _ _ Some] emit_answered by blast+
      then show ?thesis using vt st q False Some by (simp add: view_ok_def)
    qed
  qed
  then show "view_ok (v1, (s1, h))" "exec_steps sha (s, h) (s1, h)"
    "\<forall>r. cur = Some r \<longrightarrow> \<not> v_ended v \<and> v_exec v1 = v_exec v \<and> find_exec (v_exec v) s1 = Some r \<and>
       v_cursor v1 = min (v_cursor v + page_size) (x_lastSeq r)" by simp_all
qed

lemma reconcile_rest_ok:
  assumes rest: "reconcile_rest cur (v, s) = (again, v')" and ok: "view_ok (v, (s, h))"
  shows "view_ok (v', (s, h))" "v_exec v' = v_exec v \<and> v_cursor v' = v_cursor v \<and> v_emitted v' = v_emitted v"
    "v_ended v' \<longrightarrow> v_ended v \<or> (\<exists>r. cur = Some r \<and> x_lastSeq r \<le> v_cursor v)"
proof -
  have "view_ok (v', (s, h)) \<and> (v_exec v' = v_exec v \<and> v_cursor v' = v_cursor v \<and> v_emitted v' = v_emitted v) \<and>
    (v_ended v' \<longrightarrow> v_ended v \<or> (\<exists>r. cur = Some r \<and> x_lastSeq r \<le> v_cursor v))"
  proof (cases cur)
    case None
    then show ?thesis using rest ok by (simp add: reconcile_rest_def)
  next
    case (Some r)
    obtain now where now: "find_exec (v_exec v) s = Some now" using ok by (auto simp: view_ok_def in_sync_def)
    obtain early u where u: "answer_waiters (v_waiters v) (x_lastSeq now) s v = (early, u)" by fastforce
    have f: "v_exec u = v_exec v \<and> v_cursor u = v_cursor v \<and> v_emitted u = v_emitted v \<and> v_ended u = v_ended v"
      using answer_waiters_frame[OF u] .
    have a: "answered_ok u s" using answer_waiters_ok[OF u] ok now by (auto simp: view_ok_def world_ok_def)
    have v': "v' = (if \<not> early \<and> \<not> v_cursor u < x_lastSeq r \<and> (x_state r = X_Finished \<or> x_state r = X_Lost) then u\<lparr>v_ended := True\<rparr> else u)"
      using rest Some now u by (auto simp: reconcile_rest_def Let_def split: if_splits)
    have "in_sync v s \<Longrightarrow> in_sync u s" using f by (simp add: in_sync_def)
    then have "view_ok (u, (s, h))" using ok a by (simp add: view_ok_def)
    then have "view_ok (v', (s, h))" using v' by (cases "v' = u") (auto elim: view_ok_same)
    then show ?thesis using f v' Some by (auto split: if_splits)
  qed
  then show "view_ok (v', (s, h))" "v_exec v' = v_exec v \<and> v_cursor v' = v_cursor v \<and> v_emitted v' = v_emitted v"
    "v_ended v' \<longrightarrow> v_ended v \<or> (\<exists>r. cur = Some r \<and> x_lastSeq r \<le> v_cursor v)" by simp_all
qed

lemma view_step_ok: "view_step sha x y \<Longrightarrow> view_ok x \<Longrightarrow> view_ok y"
proof (induction rule: view_step.induct)
  case (VS_Store w w' v)
  then show ?case using world_steps_view[of sha w w' v] by blast
next
  case (VS_Reconcile identity v s cur v1 s1 h s2 h2 again v2)
  have "view_ok (v1, (s1, h))" using reconcile_read_ok(1)[OF VS_Reconcile(1,4)] .
  then have "view_ok (v1, (s2, h2))" using world_steps_view[OF VS_Reconcile(2)] by blast
  then show ?case using reconcile_rest_ok(1)[OF VS_Reconcile(3)] by blast
next
  case (VS_Command body i v s r v1 s1 h)
  have s1: "s1 = s \<or> s1 = snd (enqueue (v_exec v) i body s)" and v1: "v1 = v \<or> v1 = v\<lparr>v_waiters := v_waiters v @ [i]\<rparr>"
    using VS_Command(1) by (auto simp: deliveredCommand_def command_view_def Let_def split: if_splits prod.splits)
  have "exec_steps sha (s, h) (s1, h)" using s1 X_Enqueue[of sha s h "v_exec v" i body] by auto
  then have "view_ok (v, (s1, h))" using world_steps_view VS_Command(2) by blast
  then show ?case using v1 view_ok_same[of v _ v1] by auto
next
  case (VS_Timeout v w i)
  let ?u = "v\<lparr>v_resolved := v_resolved v @ [(i, Unknown)]\<rparr>"
  have "view_ok (?u, w)" using view_ok_unknown[OF VS_Timeout, of "[i]"] by simp
  then have "view_ok (v\<lparr>v_waiters := filter (\<lambda>x. x \<noteq> i) (v_waiters v), v_resolved := v_resolved v @ [(i, Unknown)]\<rparr>, w)"
    by (rule view_ok_same) simp
  then show ?case using VS_Timeout unfolding waiter_timeout_def by simp
next
  case (VS_Close v w)
  let ?u = "v\<lparr>v_resolved := v_resolved v @ map (\<lambda>w. (w, Unknown)) (v_waiters v)\<rparr>"
  have "view_ok (?u, w)" by (rule view_ok_unknown[OF VS_Close])
  then show ?case unfolding close_view_def by (rule view_ok_same) simp
qed

lemma view_steps_ok: "(view_step sha)\<^sup>*\<^sup>* x y \<Longrightarrow> view_ok x \<Longrightarrow> view_ok y"
  by (induction rule: rtranclp_induct) (auto dest: view_step_ok)

lemma open_view_ok: "world_ok w \<Longrightarrow> find_exec i (fst w) = Some r \<Longrightarrow> view_ok (open_view i, w)"
  by (simp add: view_ok_def in_sync_def answered_ok_def open_view_def)

lemma view_steps_exec: "(view_step sha)\<^sup>*\<^sup>* x y \<Longrightarrow> view_ok x \<Longrightarrow> v_exec (fst y) = v_exec (fst x) \<and> view_ok y"
proof (induction rule: rtranclp_induct)
  case (step y z)
  then have y: "view_ok y" "v_exec (fst y) = v_exec (fst x)" by simp_all
  have "v_exec (fst z) = v_exec (fst y)"
    using step(2) y(1)
  proof cases
    case (VS_Reconcile identity v s cur v1 s1 h s2 h2 again v2)
    have v: "view_ok (v, (s, h))" using y(1) VS_Reconcile(1) by simp
    have v1: "view_ok (v1, (s2, h2))"
      using reconcile_read_ok(1)[OF VS_Reconcile(3) v] world_steps_view[OF VS_Reconcile(4)] by blast
    have "v_exec v1 = v_exec v"
      using VS_Reconcile(3) unfolding reconcile_read_def
      by (cases "v_ended v") (auto simp: emit_page_def Let_def split: option.splits)
    then show ?thesis using reconcile_rest_ok(2)[OF VS_Reconcile(5) v1] VS_Reconcile(1,2) by simp
  next
    case (VS_Command body i v s r v1 s1 h)
    then show ?thesis by (auto simp: deliveredCommand_def command_view_def Let_def split: if_splits prod.splits)
  qed (auto simp: waiter_timeout_def close_view_def)
  then show ?case using y view_step_ok[OF step(2)] by simp
qed simp

text \<open>A reconciliation of an execution that has ended, while nobody writes.\<close>

lemma reconcile_ended:
  assumes ok: "view_ok (v, (s, h))" and r: "find_exec (v_exec v) s = Some r" "x_state r = X_Finished \<or> x_state r = X_Lost"
    and live: "\<not> v_ended v" and rec: "reconcile_view identity (v, s) = (again, v', s')"
  shows "s' = s" "view_ok (v', (s, h))" "v_exec v' = v_exec v" "v_cursor v' = min (v_cursor v + page_size) (x_lastSeq r)"
    "again \<longleftrightarrow> \<not> v_ended v'" "v_ended v' \<longleftrightarrow> v_cursor v' = x_lastSeq r"
proof -
  obtain cur v1 s1 where rd: "reconcile_read identity (v, s) = (cur, v1, s1)" by (cases "reconcile_read identity (v, s)")
  have "detect_loss identity r s = s" using r(2) by (auto simp: detect_loss_def)
  then have c: "cur = Some r" "s1 = s" using rd live r(1) by (auto simp: reconcile_read_def Let_def)
  have v1: "view_ok (v1, (s, h))" "v_exec v1 = v_exec v" "v_cursor v1 = min (v_cursor v + page_size) (x_lastSeq r)"
    using reconcile_read_ok[OF rd ok] c by simp_all
  have e1: "\<not> v_ended v1" using rd live r(1) c by (auto simp: reconcile_read_def Let_def emit_page_def split: option.splits)
  have rest: "reconcile_rest cur (v1, s) = (again, v')" "s' = s" using rec rd c by (auto simp: reconcile_view_def Let_def split: prod.splits)
  have rr: "view_ok (v', (s, h))" "v_exec v' = v_exec v1 \<and> v_cursor v' = v_cursor v1" using reconcile_rest_ok[OF rest(1) v1(1)] by auto
  obtain early u where u: "answer_waiters (v_waiters v1) (x_lastSeq r) s v1 = (early, u)" by fastforce
  have f: "v_cursor u = v_cursor v1" "v_ended u = v_ended v1" using answer_waiters_frame[OF u] by auto
  have early: "early \<Longrightarrow> v_cursor v1 < x_lastSeq r" using answer_waiters_early[of "v_waiters v1" "x_lastSeq r" s v1] u by simp
  have "(again, v') = (if early \<or> v_cursor u < x_lastSeq r then (True, u) else (False, u\<lparr>v_ended := True\<rparr>))"
    using rest(1) c(1) v1(2) r u by (auto simp: reconcile_rest_def Let_def)
  then have ag: "again \<longleftrightarrow> \<not> v_ended v'" "v_ended v' \<longleftrightarrow> \<not> v_cursor v1 < x_lastSeq r" using f e1 early by (auto split: if_splits)
  show "s' = s" "view_ok (v', (s, h))" "v_exec v' = v_exec v" "v_cursor v' = min (v_cursor v + page_size) (x_lastSeq r)"
    "again \<longleftrightarrow> \<not> v_ended v'" using rest rr v1 ag by simp_all
  show "v_ended v' \<longleftrightarrow> v_cursor v' = x_lastSeq r" using ag rr v1(3) by (auto simp: min_def)
qed

text \<open>Repeated reconciliation.\<close>

definition reconcile_times :: "(nat \<Rightarrow> string option) \<Rightarrow> nat \<Rightarrow> view \<times> xstore \<Rightarrow> view \<times> xstore" where
  "reconcile_times identity n = (\<lambda>w. snd (reconcile_view identity w)) ^^ n"

lemma reconcile_times_end:
  assumes ok: "view_ok (v, (s, h))" and r: "find_exec (v_exec v) s = Some r" "x_state r = X_Finished \<or> x_state r = X_Lost"
    and live: "\<not> v_ended v" and n: "0 < n" "x_lastSeq r \<le> v_cursor v + n * page_size"
  shows "\<exists>v'. reconcile_times identity n (v, s) = (v', s) \<and> v_ended v' \<and> v_emitted v' = log_of (v_exec v) s"
  using assms
proof (induction n arbitrary: v)
  case (Suc n)
  obtain again v' s' where rec: "reconcile_view identity (v, s) = (again, v', s')" by (cases "reconcile_view identity (v, s)")
  note one = reconcile_ended[OF Suc.prems(1-4) rec]
  have times: "reconcile_times identity (Suc n) (v, s) = reconcile_times identity n (v', s)"
    using rec one(1) by (simp add: reconcile_times_def funpow_Suc_right del: funpow.simps)
  show ?case
  proof (cases "v_ended v'")
    case True
    have stay: "reconcile_times identity m (v', s) = (v', s)" for m
      using True by (induction m) (simp_all add: reconcile_times_def reconcile_view_def reconcile_read_def reconcile_rest_def)
    have "v_emitted v' = take (x_lastSeq r) (log_of (v_exec v) s)" using one(2,3,6) True by (simp add: view_ok_def in_sync_def)
    moreover have "length (log_of (v_exec v) s) = x_lastSeq r"
      using Suc.prems(1,2) by (intro log_length) (simp_all add: view_ok_def world_ok_def)
    ultimately show ?thesis using stay True times by simp
  next
    case False
    then have lt: "v_cursor v + page_size < x_lastSeq r" using one(4,6) by (auto simp: min_def split: if_splits)
    then have c: "v_cursor v' = v_cursor v + page_size" using one(4) by simp
    have n0: "0 < n" using lt Suc.prems(6) by (cases n) auto
    have "x_lastSeq r \<le> v_cursor v' + n * page_size" using c Suc.prems(6) by simp
    with Suc.IH[OF one(2) _ Suc.prems(3) False n0] Suc.prems(2) one(3) show ?thesis by (simp add: times)
  qed
qed simp

section \<open>Admission\<close>

lemma fold_on_exec:
  assumes "\<And>r. x_id (f r) = x_id r" "\<And>r. f (f r) = f r"
  shows "x_rows (fold (\<lambda>i. on_exec i f) ids s) = map (\<lambda>r. if x_id r \<in> set ids then f r else r) (x_rows s)"
proof (induction ids arbitrary: s)
  case (Cons i ids)
  have "(if x_id (if x_id r = i then f r else r) \<in> set ids then f (if x_id r = i then f r else r) else (if x_id r = i then f r else r)) =
      (if x_id r \<in> set (i # ids) then f r else r)" for r
    using assms by simp
  then show ?case unfolding fold_simps comp_apply Cons.IH unfolding on_exec_def by simp
qed simp

lemma filter_not_taken:
  assumes "distinct (map f xs)"
  shows "filter (\<lambda>x. f x \<notin> f ` set (take k xs)) xs = drop k xs"
proof -
  have d: "distinct (map f (take k xs @ drop k xs))" using assms by simp
  then have "f ` set (take k xs) \<inter> f ` set (drop k xs) = {}" unfolding map_append distinct_append set_map by blast
  then have "filter (\<lambda>x. f x \<notin> f ` set (take k xs)) (drop k xs) = drop k xs" by (auto simp: filter_id_conv)
  moreover have "filter (\<lambda>x. f x \<notin> f ` set (take k xs)) (take k xs) = []" by (auto simp: filter_empty_conv)
  ultimately show ?thesis by (metis append_take_drop_id filter_append self_append_conv2)
qed

lemma filter_taken:
  assumes "distinct (map f xs)"
  shows "filter (\<lambda>x. x \<in> set (take k (filter p xs))) xs = take k (filter p xs)"
proof -
  have d: "distinct (filter p xs)" using assms by (simp add: distinct_map)
  have "filter (\<lambda>x. x \<in> set (take k (filter p xs))) xs = filter (\<lambda>x. x \<in> set (take k (filter p xs))) (filter p xs)"
    by (auto simp: filter_filter intro!: filter_cong dest: in_set_takeD)
  also have "\<dots> = filter (\<lambda>x. x \<in> set (take k (filter p xs))) (take k (filter p xs) @ drop k (filter p xs))" by simp
  also have "\<dots> = take k (filter p xs)"
    unfolding filter_append using d by (simp add: filter_id_conv filter_empty_conv) (metis append_take_drop_id disjoint_iff distinct_append)
  finally show ?thesis .
qed

lemma admit_spec:
  fixes limit :: nat
  assumes ok: "xs_ok s"
  defines "rs \<equiv> fst (admit limit s)" and "s' \<equiv> snd (admit limit s)"
  shows "map x_id (filter queued (x_rows s)) = map x_id rs @ map x_id (filter queued (x_rows s')) \<and>
    count_if occupied (x_rows s') = count_if occupied (x_rows s) + length rs \<and>
    count_if occupied (x_rows s') \<le> max (effective_limit limit s) (count_if occupied (x_rows s)) \<and>
    (filter queued (x_rows s') = [] \<or> effective_limit limit s \<le> count_if occupied (x_rows s'))"
proof (cases "filter queued (x_rows s) = []")
  case True
  then show ?thesis by (simp add: rs_def s'_def admit_def)
next
  case False
  let ?rows = "x_rows s" and ?q = "filter queued (x_rows s)"
  define k where "k = effective_limit limit s - count_if occupied ?rows"
  define T where "T = take k ?q"
  have ids: "admitted limit s = map x_id T" by (simp add: admitted_def T_def k_def)
  define g :: "execution \<Rightarrow> execution" where "g = (\<lambda>r. if x_id r \<in> x_id ` set T then r\<lparr>x_state := X_Starting\<rparr> else r)"
  have s': "s' = fold (\<lambda>i. on_exec i (\<lambda>r. r\<lparr>x_state := X_Starting\<rparr>)) (map x_id T) s"
    and rs: "rs = List.map_filter (\<lambda>i. find_exec i s') (map x_id T)"
    using False by (simp_all add: rs_def s'_def admit_def ids Let_def)
  have rows: "x_rows s' = map g ?rows" unfolding s' g_def by (subst fold_on_exec) auto
  have dist: "distinct (map x_id ?rows)" using ok by (simp add: xs_ok_def unique_live_def)
  then have dq: "distinct (map x_id ?q)" by (simp add: distinct_map_filter)
  have Tq: "r \<in> set T \<Longrightarrow> r \<in> set ?rows \<and> queued r" for r by (auto simp: T_def dest: in_set_takeD)
  have inT: "x_id r \<in> x_id ` set T \<longleftrightarrow> r \<in> set T" if "r \<in> set ?rows" for r
    using that Tq dist by (auto simp: distinct_map dest: inj_onD)
  have gid: "x_id (g r) = x_id r" for r by (simp add: g_def)
  have "filter queued (map g ?rows) = map g (filter (\<lambda>r. x_id r \<notin> x_id ` set T) ?q)"
  proof -
    have "queued (g r) \<longleftrightarrow> queued r \<and> x_id r \<notin> x_id ` set T" for r by (simp add: g_def)
    then show ?thesis by (simp add: filter_map comp_def)
  qed
  also have "filter (\<lambda>r. x_id r \<notin> x_id ` set T) ?q = drop k ?q" unfolding T_def by (rule filter_not_taken[OF dq])
  finally have left: "filter queued (x_rows s') = map g (drop k ?q)" unfolding rows .
  have xs': "xs_ok s'" using admit_good[OF ok, of limit] by (simp add: good_def s'_def)
  have "find_exec (x_id r) s' = Some (g r)" if "r \<in> set T" for r
    using find_exec_unique[of s' "g r"] xs' Tq[OF that] by (simp add: xs_ok_def rows gid)
  then have rsT: "rs = map g T" unfolding rs by (induction T) (simp_all add: List.map_filter_simps)
  have occ: "count_if occupied (map g ?rows) = count_if occupied ?rows + length T"
  proof -
    have step: "occupied (g r) \<longleftrightarrow> occupied r \<or> r \<in> set T" "\<not> (occupied r \<and> r \<in> set T)" if "r \<in> set ?rows" for r
      using that inT[OF that] Tq[of r] by (auto simp: g_def occupied_def)
    have "count_if occupied (map g xs) = count_if occupied xs + count_if (\<lambda>r. r \<in> set T) xs" if "set xs \<subseteq> set ?rows" for xs
      using that
    proof (induction xs)
      case (Cons r xs)
      then have "count_if occupied (map g xs) = count_if occupied xs + count_if (\<lambda>r. r \<in> set T) xs" "r \<in> set ?rows" by simp_all
      with step[of r] show ?case by (cases "r \<in> set T") simp_all
    qed simp
    from this[of ?rows] have "count_if occupied (map g ?rows) = count_if occupied ?rows + count_if (\<lambda>r. r \<in> set T) ?rows" by simp
    moreover have "filter (\<lambda>r. r \<in> set T) ?rows = T"
      using dist unfolding T_def by (rule filter_taken)
    ultimately show ?thesis by simp
  qed
  have lenT: "length T = min k (length ?q)" by (simp add: T_def min.commute)
  show ?thesis
  proof (intro conjI)
    show "map x_id ?q = map x_id rs @ map x_id (filter queued (x_rows s'))"
      unfolding left rsT T_def by (simp add: comp_def gid flip: map_append)
    show "count_if occupied (x_rows s') = count_if occupied ?rows + length rs" unfolding rows occ rsT by simp
    show "count_if occupied (x_rows s') \<le> max (effective_limit limit s) (count_if occupied ?rows)"
    proof -
      have "length T \<le> effective_limit limit s - count_if occupied ?rows" using lenT by (simp add: k_def)
      then show ?thesis unfolding rows occ by linarith
    qed
    show "filter queued (x_rows s') = [] \<or> effective_limit limit s \<le> count_if occupied (x_rows s')"
    proof (cases "length ?q \<le> k")
      case True
      then show ?thesis unfolding left by simp
    next
      case False
      then have "length T = k" using lenT by simp
      then show ?thesis unfolding rows occ k_def by linarith
    qed
  qed
qed

lemma enqueue_accepted:
  "enqueue x i body s = (Inr Accepted, s1) \<Longrightarrow> \<exists>c. find_command x i s1 = Some c \<and> c_body c = body"
  by (auto simp: enqueue_def find_command_def find_append get_exec_def split: option.splits if_splits)

lemma reconcile_end:
  assumes ok: "view_ok (v, (s, h))" and read: "reconcile_read identity (v, s) = (cur, v1, s1)" and steps: "exec_steps sha (s1, h) (s2, h2)"
    and rest: "reconcile_rest cur (v1, s2) = (again, v2)" and ends: "\<not> v_ended v" "v_ended v2"
  shows "v_emitted v2 = log_of (v_exec v) s1 \<and> \<not> again"
proof -
  have v1: "view_ok (v1, (s1, h))" using reconcile_read_ok(1)[OF read ok] .
  have e1: "\<not> v_ended v1" using read ends(1) by (auto simp: reconcile_read_def emit_page_def Let_def split: option.splits)
  have v2: "view_ok (v1, (s2, h2))" using world_steps_view[OF steps v1] .
  obtain r where r: "cur = Some r" "x_lastSeq r \<le> v_cursor v1" using reconcile_rest_ok(3)[OF rest v2] ends(2) e1 by blast
  then have f: "v_exec v1 = v_exec v" "find_exec (v_exec v) s1 = Some r" "v_cursor v1 = x_lastSeq r"
    using reconcile_read_ok(3)[OF read ok] by auto
  have "length (log_of (v_exec v) s1) = x_lastSeq r" using v1 f by (intro log_length) (simp_all add: view_ok_def world_ok_def)
  then have "v_emitted v1 = log_of (v_exec v) s1" using v1 f by (simp add: view_ok_def in_sync_def)
  moreover have "\<not> again" using rest r(1) ends(2) e1 answer_waiters_frame[of "v_waiters v1" _ s2 v1]
    by (auto simp: reconcile_rest_def Let_def split: prod.splits if_splits)
  ultimately show ?thesis using reconcile_rest_ok(2)[OF rest v2] by simp
qed

end
