(* ===== verification/Execution_Properties.thy ===== *)
theory Execution_Properties
  imports Execution_Views
begin

text \<open>
  What the execution store and its clients guarantee, with a run of one execution at which
  the guarantees apply.
\<close>

section \<open>A run\<close>

definition sample_start :: "string \<Rightarrow> exec_start" where
  "sample_start t = \<lparr>xs_taskId = t, xs_agent = Claude, xs_cwd = ''/w'', xs_prompt = ''p'', xs_resumeId = None, xs_providerHome = None,
     xs_permission = None, xs_model = None, xs_effort = None, xs_images = None, xs_messageId = None, xs_interactive = None, xs_compact = False\<rparr>"

definition sample_reserved :: xstore where
  "sample_reserved = snd (reserve concat ''a'' (sample_start ''t'') ''r'' ''n'' None empty_store)"

definition sample_admitted :: xstore where "sample_admitted = snd (admit 1 sample_reserved)"

definition sample_running :: xstore where "sample_running = snd (claim ''a'' 7 (Some ''p'') sample_admitted)"

definition sample_asked :: xstore where
  "sample_asked = snd (persistEvent concat ''a'' None (plain_event (Xb_Question ''q'' ''which'')) sample_running)"

definition sample_answer :: exec_answer where
  "sample_answer = \<lparr>xa_requestId = ''q'', xa_answers = [''yes''], xa_response = None\<rparr>"

definition sample_answered :: xstore where
  "sample_answered = snd (enqueue ''a'' ''c'' (Cmd_Answer sample_answer) sample_asked)"

definition sample_handed :: xstore where "sample_handed = snd (pending_commands ''a'' sample_answered)"

definition sample_settled :: xstore where "sample_settled = settle ''a'' ''c'' Delivered sample_handed"

definition sample_finished :: xstore where "sample_finished = finish_exec ''a'' False sample_settled"

lemma sample_asked_reach: "exec_reach concat (sample_asked, [])"
proof -
  have "exec_reach concat (sample_reserved, [])"
    unfolding sample_reserved_def by (intro r_into_rtranclp X_Reserve) (simp add: fresh_id_def empty_store_def)
  then have "exec_reach concat (sample_admitted, [])"
    unfolding sample_admitted_def by (rule rtranclp.rtrancl_into_rtrancl) (rule X_Admit)
  then have "exec_reach concat (sample_running, [])"
    unfolding sample_running_def by (rule rtranclp.rtrancl_into_rtrancl) (rule X_Claim)
  then show ?thesis
    unfolding sample_asked_def by (rule rtranclp.rtrancl_into_rtrancl) (rule X_Persist)
qed

lemma sample_answered_handed:
  "exec_steps concat (sample_answered, []) (sample_handed, map command_key (fst (pending_commands ''a'' sample_answered)))"
  unfolding sample_handed_def using X_Pending[of concat sample_answered "[]" "''a''"] by auto

lemma sample_answered_settled:
  "exec_steps concat (sample_answered, []) (sample_settled, map command_key (fst (pending_commands ''a'' sample_answered)))"
  using sample_answered_handed unfolding sample_settled_def by (rule rtranclp.rtrancl_into_rtrancl) (rule X_Settle)

section \<open>Commands\<close>

text \<open>
  C20. A command is taken once. After the store has accepted a command, a client that lost
  the answer may send it again at any later time: it gets the recorded result, nothing is
  stored, and a different content under the same id is refused. The host is handed the
  command at most once, and a result other than "accepted" is final.
\<close>

theorem command_exactly_once:
  assumes "exec_reach sha (s, h)" and "enqueue x i body s = (Inr Accepted, s1)" and "exec_steps sha (s1, h) (s2, h2)"
  shows "\<exists>res. enqueue x i body s2 = (Inr res, s2) \<and>
      (\<forall>other. other \<noteq> body \<longrightarrow> enqueue x i other s2 = (Inl (Js_Error ''Command identity was reused with different content''), s2)) \<and>
      count_list h2 (x, i) \<le> 1 \<and>
      (\<forall>s3 h3. res \<noteq> Accepted \<and> exec_steps sha (s2, h2) (s3, h3) \<longrightarrow> enqueue x i body s3 = (Inr res, s3))"
proof -
  have r1: "exec_reach sha (s1, h)"
    using assms(1) X_Enqueue[of sha s h x i body] assms(2) by (simp add: rtranclp.rtrancl_into_rtrancl)
  have w1: "world_ok (s1, h)" using exec_reach_world[OF r1] .
  obtain c where c: "find_command x i s1 = Some c" "c_body c = body"
    using enqueue_accepted[OF assms(2)] by blast
  have later: "world_ok w \<and> (\<exists>c'. find_command x i (fst w) = Some c' \<and> command_evolves c c')" if l: "exec_steps sha (s1, h) w" for w
    using exec_steps_world[OF l w1] find_command_evolves[OF _ _ _ c(1)] w1 by (simp add: world_ok_def)
  obtain c2 where c2: "find_command x i s2 = Some c2" "command_evolves c c2" using later[OF assms(3)] by auto
  have "c_body c2 = body" using c2(2) c(2) by (simp add: command_evolves_def)
  moreover have "distinct h2" using later[OF assms(3)] by (simp add: world_ok_def handed_ok_def)
  then have "count_list h2 (x, i) \<le> 1" by (rule count_list_distinct)
  moreover have "enqueue x i body s3 = (Inr (c_result c2), s3)"
    if l: "c_result c2 \<noteq> Accepted" "exec_steps sha (s2, h2) (s3, h3)" for s3 h3
  proof -
    have "world_ok (s2, h2)" using later[OF assms(3)] by blast
    then obtain c3 where "find_command x i s3 = Some c3" "command_evolves c2 c3"
      using exec_steps_world[OF l(2)] find_command_evolves[OF _ _ _ c2(1)] by (auto simp: world_ok_def)
    then show ?thesis using l(1) \<open>c_body c2 = body\<close> by (simp add: enqueue_def command_evolves_def)
  qed
  ultimately show ?thesis using c2(1) by (intro exI[of _ "c_result c2"]) (auto simp: enqueue_def)
qed

lemma command_exactly_once_witness:
  "\<exists>res. enqueue ''a'' ''c'' (Cmd_Answer sample_answer) sample_settled = (Inr res, sample_settled) \<and>
     count_list (map command_key (fst (pending_commands ''a'' sample_answered))) (''a'', ''c'') \<le> 1"
proof -
  have "enqueue ''a'' ''c'' (Cmd_Answer sample_answer) sample_asked = (Inr Accepted, sample_answered)"
    unfolding sample_answered_def by code_simp
  from command_exactly_once[OF sample_asked_reach this sample_answered_settled] show ?thesis by blast
qed

text \<open>
  C21. In every reachable state each task and each provider session is owned by at most one
  live execution, and only a running execution has commands that may still be delivered.
\<close>

theorem one_live_execution:
  assumes "exec_reach sha (s, h)"
  shows "(\<forall>r \<in> set (x_rows s). \<forall>q \<in> set (x_rows s).
      live r \<and> live q \<and> (x_taskId r = x_taskId q \<or> x_ownerKey r = x_ownerKey q) \<longrightarrow> r = q) \<and>
    (\<forall>c \<in> set (x_commands s). c_result c = Accepted \<longrightarrow>
      (\<forall>r \<in> set (x_rows s). x_id r = c_execution c \<longrightarrow> x_state r = X_Running))"
proof -
  have ok: "xs_ok s" using exec_reach_ok[OF assms] by simp
  then have "unique_live (x_rows s)" by (simp add: xs_ok_def)
  then have "r = q" if "r \<in> set (x_rows s)" "q \<in> set (x_rows s)" "live r" "live q" "x_taskId r = x_taskId q \<or> x_ownerKey r = x_ownerKey q" for r q
    using that row_unique[of s r q] unfolding unique_live_def by blast
  with ok show ?thesis unfolding xs_ok_def commands_ok_def by blast
qed

lemma one_live_execution_witness: "\<exists>r. r \<in> set (x_rows sample_answered) \<and> x_id r = ''a'' \<and> x_state r = X_Running"
proof -
  have reach: "exec_reach concat (sample_answered, [])"
    using X_Enqueue[of concat sample_asked "[]" "''a''" "''c''" "Cmd_Answer sample_answer"] sample_asked_reach
    unfolding sample_answered_def by (simp add: rtranclp.rtrancl_into_rtrancl)
  have "map (\<lambda>c. (c_execution c, c_result c)) (x_commands sample_answered) = [(''a'', Accepted)]" by code_simp
  moreover have "map x_id (x_rows sample_answered) = [''a'']" by code_simp
  ultimately obtain c r where c: "c \<in> set (x_commands sample_answered)" "c_execution c = ''a''" "c_result c = Accepted"
    and r: "r \<in> set (x_rows sample_answered)" "x_id r = ''a''" by auto
  then show ?thesis using one_live_execution[OF reach] by metis
qed

section \<open>The view of an execution\<close>

text \<open>
  C22. Whatever servers, hosts and the view's own requests do in between, a view has
  emitted exactly the first events of its execution's log, each once and in order. A
  request was answered with the final receipt of its command (or with "unknown"), and when
  that says an answer was delivered the event of the answer was emitted before. When a
  reconciliation ends the view, the whole log that it read was emitted.
\<close>

theorem view_emits_log_in_order:
  assumes "exec_reach sha w" and "find_exec i (fst w) = Some r0" and "(view_step sha)\<^sup>*\<^sup>* (open_view i, w) (v, (s, h))"
  shows "v_emitted v = take (v_cursor v) (log_of i s) \<and> v_cursor v \<le> length (log_of i s) \<and>
    (\<forall>p \<in> set (v_resolved v). answered_as i (v_emitted v) s p) \<and>
    (\<forall>identity cur v1 s1 s2 h2 again v2. reconcile_read identity (v, s) = (cur, v1, s1) \<and> exec_steps sha (s1, h) (s2, h2) \<and>
       reconcile_rest cur (v1, s2) = (again, v2) \<and> \<not> v_ended v \<and> v_ended v2 \<longrightarrow>
         v_emitted v2 = log_of i s1 \<and> \<not> again)"
proof -
  have "view_ok (open_view i, w)" using open_view_ok[OF exec_reach_world[OF assms(1)] assms(2)] .
  from view_steps_exec[OF assms(3) this] have ok: "view_ok (v, (s, h))" and i: "v_exec v = i" by (simp_all add: open_view_def)
  obtain r where r: "find_exec i s = Some r" "v_cursor v \<le> x_lastSeq r" using ok i by (auto simp: view_ok_def in_sync_def)
  have len: "length (log_of i s) = x_lastSeq r" using ok r(1) by (intro log_length) (simp_all add: view_ok_def world_ok_def)
  have main: "v_emitted v = take (v_cursor v) (log_of i s)" using ok i by (simp add: view_ok_def in_sync_def)
  have resolved: "\<forall>p \<in> set (v_resolved v). answered_as i (v_emitted v) s p" using ok i unfolding view_ok_def answered_ok_def by simp
  have "v_emitted v2 = log_of i s1 \<and> \<not> again"
    if l: "reconcile_read identity (v, s) = (cur, v1, s1)" "exec_steps sha (s1, h) (s2, h2)" "reconcile_rest cur (v1, s2) = (again, v2)"
      "\<not> v_ended v" "v_ended v2" for identity cur v1 s1 s2 h2 again v2
    using reconcile_end[OF ok l] i by simp
  moreover have "v_cursor v \<le> length (log_of i s)" using r len by simp
  ultimately show ?thesis using main resolved by blast
qed

lemma view_emits_log_in_order_witness:
  "v_emitted (fst (snd (reconcile_view (\<lambda>p. Some ''p'') (open_view ''a'', sample_asked)))) =
     take 2 (log_of ''a'' sample_asked)"
proof -
  let ?id = "\<lambda>p::nat. Some ''p''" and ?sum = "\<lambda>w. (v_cursor (fst (snd (snd w))), v_ended (fst (snd (snd w))), snd (snd (snd w)))"
  obtain cur v1 s1 where rd: "reconcile_read ?id (open_view ''a'', sample_asked) = (cur, v1, s1)"
    by (cases "reconcile_read ?id (open_view ''a'', sample_asked)")
  obtain again v2 where rest: "reconcile_rest cur (v1, s1) = (again, v2)" by (cases "reconcile_rest cur (v1, s1)")
  have both: "reconcile_view ?id (open_view ''a'', sample_asked) = (again, v2, s1)" using rd rest by (simp add: reconcile_view_def)
  have "snd (snd (reconcile_view ?id (open_view ''a'', sample_asked))) = sample_asked" by code_simp
  then have s1: "s1 = sample_asked" using both by simp
  have "v_cursor (fst (snd (reconcile_view ?id (open_view ''a'', sample_asked)))) = 2" by code_simp
  then have c2: "v_cursor v2 = 2" using both by simp
  have "view_step concat (open_view ''a'', (sample_asked, [])) (v2, (s1, []))"
    by (rule VS_Reconcile[OF rd _ rest]) simp
  then have st: "(view_step concat)\<^sup>*\<^sup>* (open_view ''a'', (sample_asked, [])) (v2, (sample_asked, []))" using s1 by auto
  have "find_exec ''a'' (fst (sample_asked, [] :: (string \<times> string) list)) = Some (hd (x_rows sample_asked))" by code_simp
  from view_emits_log_in_order[OF sample_asked_reach this st] show ?thesis using both c2 by simp
qed

text \<open>
  C23. A view of an execution that has ended reads it to the end: while nothing else is
  written, as many reconciliations as the unread part of the log has pages (and at least
  one) emit the rest of the log and end the view, and each one before asks for the next.
\<close>

theorem view_reads_to_the_end:
  assumes "exec_reach sha w" and "find_exec i (fst w) = Some r0" and "(view_step sha)\<^sup>*\<^sup>* (open_view i, w) (v, (s, h))"
    and "find_exec i s = Some r" and "x_state r = X_Finished \<or> x_state r = X_Lost" and "\<not> v_ended v"
    and "0 < n" and "x_lastSeq r \<le> v_cursor v + n * page_size"
  shows "(\<exists>v'. reconcile_times identity n (v, s) = (v', s) \<and> v_ended v' \<and> v_emitted v' = log_of i s) \<and>
    (\<forall>again v' s'. reconcile_view identity (v, s) = (again, v', s') \<longrightarrow> (again \<longleftrightarrow> \<not> v_ended v'))"
proof -
  have "view_ok (open_view i, w)" using open_view_ok[OF exec_reach_world[OF assms(1)] assms(2)] .
  from view_steps_exec[OF assms(3) this] have ok: "view_ok (v, (s, h))" and i: "v_exec v = i" by (simp_all add: open_view_def)
  have r: "find_exec (v_exec v) s = Some r" using assms(4) i by simp
  show ?thesis using reconcile_times_end[OF ok r assms(5-8)] reconcile_ended(5)[OF ok r assms(5,6)] i by blast
qed

lemma sample_finished_reach: "exec_reach concat (sample_finished, map command_key (fst (pending_commands ''a'' sample_answered)))"
proof -
  have "exec_reach concat (sample_answered, [])"
    using sample_asked_reach unfolding sample_answered_def by (rule rtranclp.rtrancl_into_rtrancl) (rule X_Enqueue)
  then have "exec_reach concat (sample_settled, map command_key (fst (pending_commands ''a'' sample_answered)))"
    using sample_answered_settled by (rule rtranclp_trans)
  then show ?thesis unfolding sample_finished_def by (rule rtranclp.rtrancl_into_rtrancl) (rule X_Finish)
qed

lemma view_reads_to_the_end_witness:
  "\<exists>v'. reconcile_times (\<lambda>p. None) 1 (open_view ''a'', sample_finished) = (v', sample_finished) \<and>
     v_ended v' \<and> v_emitted v' = log_of ''a'' sample_finished"
proof -
  let ?h = "map command_key (fst (pending_commands ''a'' sample_answered))"
  let ?r = "hd (x_rows sample_finished)"
  have f: "find_exec ''a'' (fst (sample_finished, ?h)) = Some ?r" "find_exec ''a'' sample_finished = Some ?r" by code_simp+
  have "x_state ?r = X_Finished" "x_lastSeq ?r \<le> 256" by code_simp+
  then show ?thesis
    using view_reads_to_the_end[OF sample_finished_reach f(1) rtranclp.rtrancl_refl f(2), of 1 "\<lambda>p. None"]
    by (simp add: open_view_def page_size_def)
qed

section \<open>Admission\<close>

text \<open>
  C24. Admission is first come, first served and bounded: the admitted executions are the
  oldest queued ones, the others stay queued in their order, the number of executions under
  way never exceeds the limit by an admission, and no execution stays queued while there is room.
\<close>

theorem admission_in_order:
  assumes "exec_reach sha (s, h)" and "admit limit s = (rs, s')"
  shows "map x_id (filter queued (x_rows s)) = map x_id rs @ map x_id (filter queued (x_rows s')) \<and>
    count_if occupied (x_rows s') = count_if occupied (x_rows s) + length rs \<and>
    count_if occupied (x_rows s') \<le> max (effective_limit limit s) (count_if occupied (x_rows s)) \<and>
    (filter queued (x_rows s') = [] \<or> effective_limit limit s \<le> count_if occupied (x_rows s'))"
proof -
  have "xs_ok s" using exec_reach_ok[OF assms(1)] by simp
  from admit_spec[OF this, of limit] show ?thesis unfolding assms(2) fst_conv snd_conv .
qed

lemma admission_in_order_witness:
  "map x_id (filter queued (x_rows sample_reserved)) = map x_id (fst (admit 1 sample_reserved)) @ []"
proof -
  have r: "exec_reach concat (sample_reserved, [])"
    unfolding sample_reserved_def by (intro r_into_rtranclp X_Reserve) (simp add: fresh_id_def empty_store_def)
  have "filter queued (x_rows (snd (admit 1 sample_reserved))) = []" by code_simp
  then show ?thesis using admission_in_order[OF r, of 1 "fst (admit 1 sample_reserved)" "snd (admit 1 sample_reserved)"] by simp
qed

end
