(* ===== verification/Auth.thy ===== *)
theory Auth
  imports Prelude
begin

text \<open>
  Sign-in of the one owner: modules/auth (application/use-cases/auth-service.ts and
  adapters/outbound/sqlite-auth.ts) and the request filter of platform/http/middleware.ts.
  An operation that awaits the passkey library is two or three operations here, one up to
  each await; what it holds on to in between is a value of \<open>ceremony\<close>. Times, random
  tokens and the answers of the passkey library are arguments. Error messages end before
  a dash.
\<close>

section \<open>Data\<close>

datatype auth_action = Enroll | Revoke_Sessions | Remove_Passkey

record auth_credentials =
  ac_session :: "string option"
  ac_challenge :: "string option"

record passkey =
  pk_id :: string
  pk_key :: string
  pk_counter :: int
  pk_transports :: "string list option"
  pk_label :: "string option"
  pk_created :: int
  pk_used :: "int option"

record auth_session =
  as_token :: string
  as_created :: int
  as_expires :: int
  as_label :: "string option"

record enroll_row =
  er_token :: string
  er_expires :: int
  er_used :: "int option"
  er_session :: "string option"

datatype challenge_kind = K_Reg | K_Auth | K_Reauth | K_Grant

record challenge_entry =
  ch_challenge :: string
  ch_expires :: int
  ch_kind :: challenge_kind
  ch_enroll :: "string option"
  ch_session :: "string option"
  ch_action :: "auth_action option"
  ch_credential :: "string option"

record auth =
  a_ttl :: int
  a_passkeys :: "passkey list"
  a_sessions :: "auth_session list"
  a_enroll :: "enroll_row list"
  a_challenges :: "(string \<times> challenge_entry) list"
  a_generation :: nat

definition new_auth :: "int \<Rightarrow> auth" where
  "new_auth ttl = \<lparr>a_ttl = ttl, a_passkeys = [], a_sessions = [], a_enroll = [], a_challenges = [], a_generation = 0\<rparr>"

definition CHALLENGE_TTL_MS :: int where "CHALLENGE_TTL_MS = 5 * 60 * 1000"
definition MAX_CHALLENGES :: nat where "MAX_CHALLENGES = 2000"

text \<open>An optional string that JavaScript counts as true.\<close>

definition given :: "string option \<Rightarrow> bool" where "given t \<longleftrightarrow> t \<noteq> None \<and> t \<noteq> Some []"

section \<open>The tables\<close>

definition insertCredential :: "passkey \<Rightarrow> auth \<Rightarrow> unit result \<times> auth" where
  "insertCredential c a = (if pk_id c \<in> pk_id ` set (a_passkeys a) then (Inl (Js_Error ''SQLITE_CONSTRAINT_PRIMARYKEY''), a)
     else (Inr (), a\<lparr>a_passkeys := a_passkeys a @ [c]\<rparr>))"

definition getCredential :: "string \<Rightarrow> auth \<Rightarrow> passkey option" where
  "getCredential i a = find (\<lambda>c. pk_id c = i) (a_passkeys a)"

definition listCredentials :: "auth \<Rightarrow> passkey list" where
  "listCredentials a = sort_key pk_created (a_passkeys a)"

definition countCredentials :: "auth \<Rightarrow> nat" where "countCredentials a = length (a_passkeys a)"

definition bumpCredentialCounter :: "string \<Rightarrow> int \<Rightarrow> int \<Rightarrow> auth \<Rightarrow> auth" where
  "bumpCredentialCounter i n now a = a\<lparr>a_passkeys := map (\<lambda>c. if pk_id c = i then c\<lparr>pk_counter := n, pk_used := Some now\<rparr> else c) (a_passkeys a)\<rparr>"

definition deleteCredential :: "string \<Rightarrow> auth \<Rightarrow> bool \<times> auth" where
  "deleteCredential i a = (i \<in> pk_id ` set (a_passkeys a), a\<lparr>a_passkeys := filter (\<lambda>c. pk_id c \<noteq> i) (a_passkeys a)\<rparr>)"

definition createSession :: "string \<Rightarrow> int \<Rightarrow> int \<Rightarrow> string option \<Rightarrow> auth \<Rightarrow> auth" where
  "createSession t created expires label a = a\<lparr>a_sessions := a_sessions a @ [\<lparr>as_token = t, as_created = created, as_expires = expires, as_label = label\<rparr>]\<rparr>"

definition getSession :: "string \<Rightarrow> auth \<Rightarrow> auth_session option" where
  "getSession t a = find (\<lambda>s. as_token s = t) (a_sessions a)"

definition deleteSession :: "string \<Rightarrow> auth \<Rightarrow> auth" where
  "deleteSession t a = a\<lparr>a_sessions := filter (\<lambda>s. as_token s \<noteq> t) (a_sessions a)\<rparr>"

definition refreshSession :: "string \<Rightarrow> int \<Rightarrow> auth \<Rightarrow> auth" where
  "refreshSession t expires a = a\<lparr>a_sessions := map (\<lambda>s. if as_token s = t then s\<lparr>as_expires := expires\<rparr> else s) (a_sessions a)\<rparr>"

definition pruneExpiredSessions :: "int \<Rightarrow> auth \<Rightarrow> auth" where
  "pruneExpiredSessions now a = a\<lparr>a_sessions := filter (\<lambda>s. now < as_expires s) (a_sessions a)\<rparr>"

definition createEnrollRow :: "string \<Rightarrow> int \<Rightarrow> string option \<Rightarrow> auth \<Rightarrow> auth" where
  "createEnrollRow t expires session a = a\<lparr>a_enroll := a_enroll a @ [\<lparr>er_token = t, er_expires = expires, er_used = None, er_session = session\<rparr>]\<rparr>"

definition usable_enroll :: "string \<Rightarrow> int \<Rightarrow> enroll_row \<Rightarrow> bool" where
  "usable_enroll t now r \<longleftrightarrow> er_token r = t \<and> er_used r = None \<and> now < er_expires r"

definition getEnrollToken :: "string \<Rightarrow> int \<Rightarrow> auth \<Rightarrow> enroll_row option" where
  "getEnrollToken t now a = find (usable_enroll t now) (a_enroll a)"

definition consumeEnrollToken :: "string \<Rightarrow> int \<Rightarrow> auth \<Rightarrow> bool \<times> auth" where
  "consumeEnrollToken t now a = (\<exists>r \<in> set (a_enroll a). usable_enroll t now r,
     a\<lparr>a_enroll := map (\<lambda>r. if usable_enroll t now r then r\<lparr>er_used := Some now\<rparr> else r) (a_enroll a)\<rparr>)"

definition revokeRows :: "auth \<Rightarrow> auth" where "revokeRows a = a\<lparr>a_sessions := [], a_enroll := []\<rparr>"

section \<open>Sessions\<close>

definition sessionValid :: "string option \<Rightarrow> int \<Rightarrow> auth \<Rightarrow> bool" where
  "sessionValid t now a \<longleftrightarrow> given t \<and>
     (case getSession (the t) a of None \<Rightarrow> False | Some s \<Rightarrow> now < as_expires s \<and> now < as_created s + a_ttl a)"

definition verifySession :: "string option \<Rightarrow> int \<Rightarrow> auth \<Rightarrow> bool \<times> auth" where
  "verifySession t now a = (let valid = sessionValid t now a in
     (valid, if given t \<and> \<not> valid then deleteSession (the t) a else a))"

definition status :: "bool \<Rightarrow> auth_credentials \<Rightarrow> int \<Rightarrow> auth \<Rightarrow> (bool \<times> bool \<times> nat) \<times> auth" where
  "status enabled cr now a = (let (valid, a) = verifySession (ac_session cr) now a in ((valid, enabled, countCredentials a), a))"

definition requireSession :: "auth_credentials \<Rightarrow> int \<Rightarrow> auth \<Rightarrow> string result" where
  "requireSession cr now a = (if \<not> given (ac_session cr) \<or> \<not> sessionValid (ac_session cr) now a
     then Inl (App_Error Unauthorized ''Sign in again to continue'') else Inr (the (ac_session cr)))"

definition issueSession :: "string \<Rightarrow> string option \<Rightarrow> int \<Rightarrow> auth \<Rightarrow> (string \<times> int) \<times> auth" where
  "issueSession t label now a = ((t, a_ttl a div 1000), createSession t now (now + a_ttl a) label a)"

definition logout :: "auth_credentials \<Rightarrow> auth \<Rightarrow> auth" where
  "logout cr a = (if \<not> given (ac_session cr) then a
     else (deleteSession (the (ac_session cr)) a)
       \<lparr>a_challenges := filter (\<lambda>c. ch_session (snd c) \<noteq> ac_session cr) (a_challenges a)\<rparr>)"

definition revokeSessions :: "auth \<Rightarrow> auth" where
  "revokeSessions a = (revokeRows a)\<lparr>a_generation := Suc (a_generation a), a_challenges := []\<rparr>"

definition listPasskeys :: "auth_credentials \<Rightarrow> int \<Rightarrow> auth \<Rightarrow> (string \<times> string option \<times> int \<times> int option) list result" where
  "listPasskeys cr now a = bind_result (requireSession cr now a)
     (\<lambda>_. Inr (map (\<lambda>c. (pk_id c, pk_label c, pk_created c, pk_used c)) (listCredentials a)))"

section \<open>Challenges\<close>

text \<open>\<open>Map.set\<close>: a new key goes to the end, a known one keeps its place.\<close>

definition js_set :: "'k \<Rightarrow> 'v \<Rightarrow> ('k \<times> 'v) list \<Rightarrow> ('k \<times> 'v) list" where
  "js_set k v m = (if k \<in> fst ` set m then map (\<lambda>p. if fst p = k then (k, v) else p) m else m @ [(k, v)])"

definition evict :: "('k \<times> 'v) list \<Rightarrow> ('k \<times> 'v) list" where
  "evict m = drop (Suc (length m) - MAX_CHALLENGES) m"

definition putChallenge :: "string \<Rightarrow> challenge_entry \<Rightarrow> int \<Rightarrow> auth \<Rightarrow> auth" where
  "putChallenge i e now a = a\<lparr>a_challenges := js_set i e (evict (filter (\<lambda>c. now < ch_expires (snd c)) (a_challenges a)))\<rparr>"

definition takeChallenge :: "string option \<Rightarrow> challenge_kind \<Rightarrow> int \<Rightarrow> auth \<Rightarrow> challenge_entry result \<times> auth" where
  "takeChallenge i k now a = (
    let e = (if given i then map_of (a_challenges a) (the i) else None);
        a = (if given i then a\<lparr>a_challenges := filter (\<lambda>c. fst c \<noteq> the i) (a_challenges a)\<rparr> else a)
    in (case e of
         Some e \<Rightarrow> if ch_kind e = k \<and> now < ch_expires e then Inr e
           else Inl (App_Error Bad_Request ''challenge expired'')
       | None \<Rightarrow> Inl (App_Error Bad_Request ''challenge expired''), a))"

definition takeAuthorization :: "auth_credentials \<Rightarrow> string \<Rightarrow> auth_action \<Rightarrow> int \<Rightarrow> auth \<Rightarrow> challenge_entry result \<times> auth" where
  "takeAuthorization cr grant action now a = (case requireSession cr now a of
      Inl e \<Rightarrow> (Inl e, a)
    | Inr t \<Rightarrow> (case takeChallenge (Some grant) K_Grant now a of
          (Inl e, a) \<Rightarrow> (Inl e, a)
        | (Inr g, a) \<Rightarrow> (if ch_session g \<noteq> Some t \<or> ch_action g \<noteq> Some action
              then Inl (App_Error Forbidden ''Verify your passkey again for this action'') else Inr g, a)))"

section \<open>Operations without a ceremony\<close>

definition logoutAll :: "auth_credentials \<Rightarrow> string \<Rightarrow> int \<Rightarrow> auth \<Rightarrow> unit result \<times> auth" where
  "logoutAll cr grant now a = (case takeAuthorization cr grant Revoke_Sessions now a of
      (Inl e, a) \<Rightarrow> (Inl e, a)
    | (Inr _, a) \<Rightarrow> (Inr (), revokeSessions a))"

definition removePasskey :: "auth_credentials \<Rightarrow> string \<Rightarrow> string \<Rightarrow> int \<Rightarrow> auth \<Rightarrow> unit result \<times> auth" where
  "removePasskey cr grant i now a = (case takeAuthorization cr grant Remove_Passkey now a of
      (Inl e, a) \<Rightarrow> (Inl e, a)
    | (Inr g, a) \<Rightarrow>
        if ch_credential g = Some i then (Inl (App_Error Forbidden ''Use a different passkey to authorize removing this one''), a)
        else case deleteCredential i a of
          (False, _) \<Rightarrow> (Inl (App_Error Not_Found ''Passkey not found''), a)
        | (True, a) \<Rightarrow> (Inr (), revokeSessions a))"

definition createEnrollToken :: "string \<Rightarrow> string option \<Rightarrow> int \<Rightarrow> auth \<Rightarrow> (string \<times> int) \<times> auth" where
  "createEnrollToken t session now a = (let expires = now + 15 * 60 * 1000 in ((t, expires), createEnrollRow t expires session a))"

definition mintEnrollToken :: "string \<Rightarrow> int \<Rightarrow> auth \<Rightarrow> (string \<times> int) \<times> auth" where
  "mintEnrollToken t now a = createEnrollToken t None now a"

definition authorizeEnrollment :: "string \<Rightarrow> auth_credentials \<Rightarrow> string \<Rightarrow> int \<Rightarrow> auth \<Rightarrow> (string \<times> int) result \<times> auth" where
  "authorizeEnrollment t cr grant now a = (case takeAuthorization cr grant Enroll now a of
      (Inl e, a) \<Rightarrow> (Inl e, a)
    | (Inr _, a) \<Rightarrow> (let (r, a) = createEnrollToken t (ac_session cr) now a in (Inr r, a)))"

section \<open>Ceremonies\<close>

definition new_challenge :: "challenge_kind \<Rightarrow> string \<Rightarrow> int \<Rightarrow> string option \<Rightarrow> string option \<Rightarrow> auth_action option \<Rightarrow> challenge_entry" where
  "new_challenge k challenge now enroll session action = \<lparr>ch_challenge = challenge, ch_expires = now + CHALLENGE_TTL_MS, ch_kind = k,
     ch_enroll = enroll, ch_session = session, ch_action = action, ch_credential = None\<rparr>"

text \<open>What the caller of \<open>verifyAssertion\<close> does with the verified passkey.\<close>

datatype assertion_use = For_Grant auth_credentials challenge_entry | For_Login auth_credentials nat

datatype ceremony =
    Reauth_Options auth_credentials string auth_action
  | Login_Options
  | Enroll_Options "string option" "string option"
  | Registration auth_credentials challenge_entry nat "string option"
  | Assertion passkey nat assertion_use
  | Asserted passkey assertion_use

text \<open>\<open>ceremony result\<close> says how the operation begins; the rest waits for the passkey library.\<close>

definition beginReauthentication :: "auth_credentials \<Rightarrow> auth_action \<Rightarrow> int \<Rightarrow> auth \<Rightarrow> ceremony result \<times> auth" where
  "beginReauthentication cr action now a = (map_sum id (\<lambda>t. Reauth_Options cr t action) (requireSession cr now a), a)"

definition reauth_options :: "auth_credentials \<Rightarrow> string \<Rightarrow> auth_action \<Rightarrow> string \<Rightarrow> string \<Rightarrow> int \<Rightarrow> auth \<Rightarrow> string result \<times> auth" where
  "reauth_options cr t action i challenge now a = (case requireSession cr now a of
      Inl e \<Rightarrow> (Inl e, a)
    | Inr _ \<Rightarrow> (Inr i, putChallenge i (new_challenge K_Reauth challenge now None (Some t) (Some action)) now a))"

definition verifyAssertion :: "string \<Rightarrow> assertion_use \<Rightarrow> auth \<Rightarrow> ceremony result" where
  "verifyAssertion i use a = (case getCredential i a of
      None \<Rightarrow> Inl (App_Error Bad_Request ''unknown passkey'')
    | Some c \<Rightarrow> Inr (Assertion c (a_generation a) use))"

definition finishReauthentication :: "auth_credentials \<Rightarrow> string \<Rightarrow> int \<Rightarrow> auth \<Rightarrow> ceremony result \<times> auth" where
  "finishReauthentication cr i now a = (case requireSession cr now a of
      Inl e \<Rightarrow> (Inl e, a)
    | Inr t \<Rightarrow> (case takeChallenge (ac_challenge cr) K_Reauth now a of
          (Inl e, a) \<Rightarrow> (Inl e, a)
        | (Inr c, a) \<Rightarrow>
            if ch_session c \<noteq> Some t then (Inl (App_Error Forbidden ''Passkey verification belongs to another session''), a)
            else (verifyAssertion i (For_Grant cr c) a, a)))"

text \<open>The passkey library's answer is the new counter, or none when the assertion is not valid.\<close>

definition assertion_verified :: "passkey \<Rightarrow> nat \<Rightarrow> assertion_use \<Rightarrow> int option \<Rightarrow> int \<Rightarrow> auth \<Rightarrow> ceremony result \<times> auth" where
  "assertion_verified c gen use counter now a = (case counter of
      None \<Rightarrow> (Inl (App_Error Unauthorized ''passkey assertion failed''), a)
    | Some n \<Rightarrow> (case getCredential (pk_id c) a of
          Some cur \<Rightarrow>
            if gen \<noteq> a_generation a \<or> pk_counter cur \<noteq> pk_counter c
            then (Inl (App_Error Unauthorized ''Passkey changed''), a)
            else (Inr (Asserted c use), bumpCredentialCounter (pk_id c) n now a)
        | None \<Rightarrow> (Inl (App_Error Unauthorized ''Passkey changed''), a)))"

text \<open>The end of \<open>finishReauthentication\<close>, \<open>i\<close> being the id of the grant.\<close>

definition grant_authorization :: "auth_credentials \<Rightarrow> challenge_entry \<Rightarrow> passkey \<Rightarrow> string \<Rightarrow> int \<Rightarrow> auth \<Rightarrow> string result \<times> auth" where
  "grant_authorization cr e c i now a = (case requireSession cr now a of
      Inl err \<Rightarrow> (Inl err, a)
    | Inr _ \<Rightarrow> (Inr i, putChallenge i (e\<lparr>ch_kind := K_Grant, ch_credential := Some (pk_id c), ch_expires := now + CHALLENGE_TTL_MS\<rparr>) now a))"

definition beginAuthentication :: "auth \<Rightarrow> ceremony result \<times> auth" where
  "beginAuthentication a = (Inr Login_Options, a)"

definition login_options :: "string \<Rightarrow> string \<Rightarrow> int \<Rightarrow> auth \<Rightarrow> string result \<times> auth" where
  "login_options i challenge now a = (Inr i, putChallenge i (new_challenge K_Auth challenge now None None None) now a)"

definition finishAuthentication :: "auth_credentials \<Rightarrow> string \<Rightarrow> int \<Rightarrow> auth \<Rightarrow> ceremony result \<times> auth" where
  "finishAuthentication cr i now a = (case takeChallenge (ac_challenge cr) K_Auth now a of
      (Inl e, a) \<Rightarrow> (Inl e, a)
    | (Inr _, a) \<Rightarrow> (verifyAssertion i (For_Login cr (a_generation a)) a, a))"

definition signed_in :: "auth_credentials \<Rightarrow> nat \<Rightarrow> passkey \<Rightarrow> string \<Rightarrow> int \<Rightarrow> auth \<Rightarrow> string result \<times> auth" where
  "signed_in cr gen c t now a = (
    if gen \<noteq> a_generation a then (Inl (App_Error Unauthorized ''Sign in again to continue''), a)
    else (Inr t, snd (issueSession t (pk_label c) now (logout cr a))))"

definition beginRegistration :: "auth_credentials \<Rightarrow> string option \<Rightarrow> string option \<Rightarrow> int \<Rightarrow> auth \<Rightarrow> ceremony result \<times> auth" where
  "beginRegistration cr enroll grant now a = (
    if given enroll then (case getEnrollToken (the enroll) now a of
        None \<Rightarrow> (Inl (App_Error Forbidden ''Enrollment link is invalid or expired''), a)
      | Some r \<Rightarrow>
          if given (er_session r) \<and> \<not> sessionValid (er_session r) now a
          then (Inl (App_Error Forbidden ''Enrollment link has been revoked''), a)
          else (Inr (Enroll_Options enroll (er_session r)), a))
    else (case takeAuthorization cr (case grant of None \<Rightarrow> [] | Some g \<Rightarrow> g) Enroll now a of
        (Inl e, a) \<Rightarrow> (Inl e, a)
      | (Inr _, a) \<Rightarrow> (Inr (Enroll_Options enroll (ac_session cr)), a)))"

definition enroll_options :: "string option \<Rightarrow> string option \<Rightarrow> string \<Rightarrow> string \<Rightarrow> int \<Rightarrow> auth \<Rightarrow> string result \<times> auth" where
  "enroll_options enroll session i challenge now a = (
    if given session \<and> \<not> sessionValid session now a then (Inl (App_Error Forbidden ''Enrollment authorization has been revoked''), a)
    else (Inr i, putChallenge i (new_challenge K_Reg challenge now enroll session None) now a))"

definition enrollment_authorized :: "auth_credentials \<Rightarrow> challenge_entry \<Rightarrow> nat \<Rightarrow> int \<Rightarrow> auth \<Rightarrow> bool" where
  "enrollment_authorized cr e gen now a \<longleftrightarrow> gen = a_generation a \<and>
     (given (ch_session e) \<longrightarrow> sessionValid (ch_session e) now a \<and> (given (ch_enroll e) \<or> ac_session cr = ch_session e))"

definition finishRegistration :: "auth_credentials \<Rightarrow> string option \<Rightarrow> int \<Rightarrow> auth \<Rightarrow> ceremony result \<times> auth" where
  "finishRegistration cr label now a = (case takeChallenge (ac_challenge cr) K_Reg now a of
      (Inl e, a) \<Rightarrow> (Inl e, a)
    | (Inr e, a) \<Rightarrow>
        if \<not> enrollment_authorized cr e (a_generation a) now a
        then (Inl (App_Error Forbidden ''Enrollment authorization has been revoked''), a)
        else (Inr (Registration cr e (a_generation a) label), a))"

text \<open>
  The passkey library's answer is the id, key, counter and transports of the new passkey. An
  exception rolls the transaction back, except for the challenges, which are in memory only;
  none is raised after they change.
\<close>

definition registered :: "auth_credentials \<Rightarrow> challenge_entry \<Rightarrow> nat \<Rightarrow> string option \<Rightarrow> (string \<times> string \<times> int \<times> string list option) option \<Rightarrow>
    string \<Rightarrow> int \<Rightarrow> auth \<Rightarrow> string result \<times> auth" where
  "registered cr e gen label answer t now a = (case answer of
      None \<Rightarrow> (Inl (App_Error Bad_Request ''passkey registration could not be verified''), a)
    | Some (i, key, counter, transports) \<Rightarrow>
        if \<not> enrollment_authorized cr e gen now a then (Inl (App_Error Forbidden ''Enrollment authorization has been revoked''), a)
        else let used = (if given (ch_enroll e) then consumeEnrollToken (the (ch_enroll e)) now a else (True, a)) in
          if \<not> fst used then (Inl (App_Error Bad_Request ''enroll token already used or expired''), a)
          else let short = map_option (take 64) label in
            (case insertCredential \<lparr>pk_id = i, pk_key = key, pk_counter = counter, pk_transports = transports,
                pk_label = (if given short then short else None), pk_created = now, pk_used = Some now\<rparr> (snd used) of
              (Inl err, _) \<Rightarrow> (Inl err, a)
            | (Inr _, b) \<Rightarrow> (Inr t, snd (issueSession t label now (if given (ac_session cr) then logout cr b else b)))))"

section \<open>The request filter\<close>

datatype http_answer = Answer nat string | Proceed

definition safe_method :: "string \<Rightarrow> bool" where
  "safe_method m \<longleftrightarrow> m = ''GET'' \<or> m = ''HEAD'' \<or> m = ''OPTIONS''"

definition public_route :: "string \<Rightarrow> string \<Rightarrow> bool" where
  "public_route m path \<longleftrightarrow> path = ''/api/health'' \<and> m = ''GET'' \<or> prefix ''/api/auth/'' path"

text \<open>\<open>origin\<close> is the request's Origin header, \<open>here\<close> the configured origin.\<close>

definition authenticate :: "bool \<Rightarrow> string \<Rightarrow> string \<Rightarrow> string \<Rightarrow> string option \<Rightarrow> string option \<Rightarrow> int \<Rightarrow> auth \<Rightarrow> http_answer \<times> auth" where
  "authenticate enabled here m path origin token now a = (
    if enabled \<and> prefix ''/api/'' path
    then if \<not> safe_method m \<and> origin \<noteq> Some here then (Answer 403 ''Same-origin request required'', a)
         else if public_route m path then (Proceed, a)
         else let (valid, a) = verifySession token now a in (if valid then Proceed else Answer 401 ''unauthorized'', a)
    else (Proceed, a))"

end
