(* ===== verification/Auth_Laws.thy ===== *)
theory Auth_Laws
  imports Auth
begin

text \<open>
  Every interleaving of sign-in requests and of the answers they wait for: the step relation
  and its invariant, which ties the open challenges and ceremonies to the sessions, passkeys
  and grants they were made for.
\<close>

section \<open>Steps\<close>

text \<open>
  Beside the service's state: the ceremonies that wait for the passkey library, the random
  tokens drawn so far, the grants (with session, action and passkey) that a verified
  assertion has earned, and the grants that were spent.
\<close>

record auth_world =
  w_auth :: auth
  w_open :: "ceremony list"
  w_tokens :: "string list"
  w_verified :: "(string \<times> string \<times> auth_action \<times> string) list"
  w_spent :: "string list"

definition new_world :: "int \<Rightarrow> auth_world" where
  "new_world ttl = \<lparr>w_auth = new_auth ttl, w_open = [], w_tokens = [], w_verified = [], w_spent = []\<rparr>"

definition opened :: "ceremony result \<Rightarrow> ceremony list \<Rightarrow> ceremony list" where
  "opened r cs = (case r of Inl _ \<Rightarrow> cs | Inr c \<Rightarrow> c # cs)"

definition spend :: "auth_credentials \<Rightarrow> string \<Rightarrow> auth_action \<Rightarrow> int \<Rightarrow> auth_world \<Rightarrow> string list" where
  "spend cr g action now w = (case fst (takeAuthorization cr g action now (w_auth w)) of Inl _ \<Rightarrow> w_spent w | Inr _ \<Rightarrow> g # w_spent w)"

definition earned :: "string result \<Rightarrow> challenge_entry \<Rightarrow> passkey \<Rightarrow> auth_world \<Rightarrow> (string \<times> string \<times> auth_action \<times> string) list" where
  "earned r e c w = (case (r, ch_session e, ch_action e) of
     (Inr i, Some t, Some action) \<Rightarrow> (i, t, action, pk_id c) # w_verified w | _ \<Rightarrow> w_verified w)"

definition fresh_token :: "string \<Rightarrow> auth_world \<Rightarrow> bool" where
  "fresh_token t w \<longleftrightarrow> t \<notin> set (w_tokens w)"

inductive auth_step :: "auth_world \<Rightarrow> auth_world \<Rightarrow> bool" where
  A_Verify: "auth_step w (w\<lparr>w_auth := snd (verifySession t now (w_auth w))\<rparr>)"
| A_Prune: "auth_step w (w\<lparr>w_auth := pruneExpiredSessions now (w_auth w)\<rparr>)"
| A_Logout: "auth_step w (w\<lparr>w_auth := logout cr (w_auth w)\<rparr>)"
| A_Logout_All: "auth_step w (w\<lparr>w_auth := snd (logoutAll cr g now (w_auth w)), w_spent := spend cr g Revoke_Sessions now w\<rparr>)"
| A_Remove: "auth_step w (w\<lparr>w_auth := snd (removePasskey cr g i now (w_auth w)), w_spent := spend cr g Remove_Passkey now w\<rparr>)"
| A_Mint: "fresh_token t w \<Longrightarrow>
    auth_step w (w\<lparr>w_auth := snd (mintEnrollToken t now (w_auth w)), w_tokens := t # w_tokens w\<rparr>)"
| A_Authorize: "fresh_token t w \<Longrightarrow>
    auth_step w (w\<lparr>w_auth := snd (authorizeEnrollment t cr g now (w_auth w)), w_tokens := t # w_tokens w, w_spent := spend cr g Enroll now w\<rparr>)"
| A_Begin_Reauth: "beginReauthentication cr action now (w_auth w) = (r, a) \<Longrightarrow> auth_step w (w\<lparr>w_auth := a, w_open := opened r (w_open w)\<rparr>)"
| A_Finish_Reauth: "finishReauthentication cr i now (w_auth w) = (r, a) \<Longrightarrow> auth_step w (w\<lparr>w_auth := a, w_open := opened r (w_open w)\<rparr>)"
| A_Begin_Login: "beginAuthentication (w_auth w) = (r, a) \<Longrightarrow> auth_step w (w\<lparr>w_auth := a, w_open := opened r (w_open w)\<rparr>)"
| A_Finish_Login: "finishAuthentication cr i now (w_auth w) = (r, a) \<Longrightarrow> auth_step w (w\<lparr>w_auth := a, w_open := opened r (w_open w)\<rparr>)"
| A_Begin_Enroll: "beginRegistration cr enroll g now (w_auth w) = (r, a) \<Longrightarrow>
    auth_step w (w\<lparr>w_auth := a, w_open := opened r (w_open w),
      w_spent := (if given enroll then w_spent w else spend cr (case g of None \<Rightarrow> [] | Some g \<Rightarrow> g) Enroll now w)\<rparr>)"
| A_Finish_Enroll: "finishRegistration cr label now (w_auth w) = (r, a) \<Longrightarrow> auth_step w (w\<lparr>w_auth := a, w_open := opened r (w_open w)\<rparr>)"
| A_Reauth_Options: "Reauth_Options cr t action \<in> set (w_open w) \<Longrightarrow> fresh_token i w \<Longrightarrow>
    auth_step w (w\<lparr>w_auth := snd (reauth_options cr t action i challenge now (w_auth w)), w_tokens := i # w_tokens w,
      w_open := remove1 (Reauth_Options cr t action) (w_open w)\<rparr>)"
| A_Login_Options: "Login_Options \<in> set (w_open w) \<Longrightarrow> fresh_token i w \<Longrightarrow>
    auth_step w (w\<lparr>w_auth := snd (login_options i challenge now (w_auth w)), w_tokens := i # w_tokens w, w_open := remove1 Login_Options (w_open w)\<rparr>)"
| A_Enroll_Options: "Enroll_Options enroll session \<in> set (w_open w) \<Longrightarrow> fresh_token i w \<Longrightarrow>
    auth_step w (w\<lparr>w_auth := snd (enroll_options enroll session i challenge now (w_auth w)), w_tokens := i # w_tokens w,
      w_open := remove1 (Enroll_Options enroll session) (w_open w)\<rparr>)"
| A_Registered: "Registration cr e gen label \<in> set (w_open w) \<Longrightarrow> fresh_token t w \<Longrightarrow>
    auth_step w (w\<lparr>w_auth := snd (registered cr e gen label answer t now (w_auth w)), w_tokens := t # w_tokens w,
      w_open := remove1 (Registration cr e gen label) (w_open w)\<rparr>)"
| A_Asserted: "Assertion c gen use \<in> set (w_open w) \<Longrightarrow> assertion_verified c gen use counter now (w_auth w) = (r, a) \<Longrightarrow>
    auth_step w (w\<lparr>w_auth := a, w_open := opened r (remove1 (Assertion c gen use) (w_open w))\<rparr>)"
| A_Granted: "Asserted c (For_Grant cr e) \<in> set (w_open w) \<Longrightarrow> fresh_token i w \<Longrightarrow> grant_authorization cr e c i now (w_auth w) = (r, a) \<Longrightarrow>
    auth_step w (w\<lparr>w_auth := a, w_tokens := i # w_tokens w, w_verified := earned r e c w,
      w_open := remove1 (Asserted c (For_Grant cr e)) (w_open w)\<rparr>)"
| A_Signed_In: "Asserted c (For_Login cr gen) \<in> set (w_open w) \<Longrightarrow> fresh_token t w \<Longrightarrow>
    auth_step w (w\<lparr>w_auth := snd (signed_in cr gen c t now (w_auth w)), w_tokens := t # w_tokens w,
      w_open := remove1 (Asserted c (For_Login cr gen)) (w_open w)\<rparr>)"
| A_Abandoned: "auth_step w (w\<lparr>w_open := remove1 p (w_open w)\<rparr>)"

abbreviation auth_steps :: "auth_world \<Rightarrow> auth_world \<Rightarrow> bool" where "auth_steps \<equiv> auth_step\<^sup>*\<^sup>*"

abbreviation auth_reach :: "auth_world \<Rightarrow> bool" where "auth_reach w \<equiv> \<exists>ttl. auth_steps (new_world ttl) w"

section \<open>What an operation may do to the service's state\<close>

abbreviation session_tokens :: "auth \<Rightarrow> string set" where "session_tokens a \<equiv> as_token ` set (a_sessions a)"

abbreviation passkey_ids :: "auth \<Rightarrow> string set" where "passkey_ids a \<equiv> pk_id ` set (a_passkeys a)"

text \<open>
  \<open>moves new a a'\<close>: sessions are only kept, dropped or new; challenges are only
  kept, dropped or the given ones; passkeys stay unless every session and challenge goes.
\<close>

definition moves :: "string set \<Rightarrow> (string \<times> challenge_entry) set \<Rightarrow> auth \<Rightarrow> auth \<Rightarrow> bool" where
  "moves ts cs a a' \<longleftrightarrow> session_tokens a' \<subseteq> session_tokens a \<union> ts \<and> set (a_challenges a') \<subseteq> set (a_challenges a) \<union> cs \<and>
     (length (a_challenges a) \<le> MAX_CHALLENGES \<longrightarrow> length (a_challenges a') \<le> MAX_CHALLENGES) \<and>
     (passkey_ids a \<subseteq> passkey_ids a' \<and> a_generation a' = a_generation a \<or>
      a_sessions a' = [] \<and> a_enroll a' = [] \<and> a_challenges a' = [] \<and> a_generation a' = Suc (a_generation a))"

lemma moves_refl [simp]: "moves ts cs a a"
  by (auto simp: moves_def)

lemma moves_mono: "moves ts cs a a' \<Longrightarrow> ts \<subseteq> ts' \<Longrightarrow> cs \<subseteq> cs' \<Longrightarrow> moves ts' cs' a a'"
  unfolding moves_def by blast

lemma subset_un_trans: "A \<subseteq> B \<union> T \<Longrightarrow> B \<subseteq> C \<union> T \<Longrightarrow> A \<subseteq> C \<union> T"
  by blast

lemma moves_trans_quiet:
  assumes "moves ts cs a b" "moves ts cs b c" "a_generation b = a_generation a"
  shows "moves ts cs a c"
proof -
  have p: "passkey_ids a \<subseteq> passkey_ids b" using assms(1,3) unfolding moves_def by simp
  have s: "session_tokens b \<subseteq> session_tokens a \<union> ts" "session_tokens c \<subseteq> session_tokens b \<union> ts" 
    and h: "set (a_challenges b) \<subseteq> set (a_challenges a) \<union> cs" "set (a_challenges c) \<subseteq> set (a_challenges b) \<union> cs"
    using assms(1,2) unfolding moves_def by simp_all
  have l: "length (a_challenges a) \<le> MAX_CHALLENGES \<longrightarrow> length (a_challenges c) \<le> MAX_CHALLENGES"
    using assms(1,2) unfolding moves_def by simp
  have g: "passkey_ids a \<subseteq> passkey_ids c \<and> a_generation c = a_generation a \<or>
      a_sessions c = [] \<and> a_enroll c = [] \<and> a_challenges c = [] \<and> a_generation c = Suc (a_generation a)"
  proof -
    have "passkey_ids b \<subseteq> passkey_ids c \<and> a_generation c = a_generation b \<or>
      a_sessions c = [] \<and> a_enroll c = [] \<and> a_challenges c = [] \<and> a_generation c = Suc (a_generation b)"
      using assms(2) unfolding moves_def by blast
    then show ?thesis using p unfolding assms(3) by (elim disjE) (blast, simp)
  qed
  have "session_tokens c \<subseteq> session_tokens a \<union> ts" "set (a_challenges c) \<subseteq> set (a_challenges a) \<union> cs"
    by (rule subset_un_trans[OF s(2,1)], rule subset_un_trans[OF h(2,1)])
  then show ?thesis unfolding moves_def using l g by (intro conjI)
qed

lemma filter_challenges_moves: "moves ts cs a (a\<lparr>a_challenges := filter p (a_challenges a)\<rparr>)"
  by (auto simp: moves_def intro: order_trans[OF length_filter_le])

lemma takeChallenge_moves [simp]: "moves ts cs a (snd (takeChallenge i k now a))"
  by (auto simp: takeChallenge_def Let_def filter_challenges_moves)

lemma takeChallenge_keeps [simp]:
  "a_generation (snd (takeChallenge i k now a)) = a_generation a" "a_sessions (snd (takeChallenge i k now a)) = a_sessions a"
  "a_passkeys (snd (takeChallenge i k now a)) = a_passkeys a" "a_ttl (snd (takeChallenge i k now a)) = a_ttl a"
  "a_enroll (snd (takeChallenge i k now a)) = a_enroll a"
  by (simp_all add: takeChallenge_def Let_def)

lemma takeAuthorization_snd:
  "snd (takeAuthorization cr g action now a) = a \<or> snd (takeAuthorization cr g action now a) = snd (takeChallenge (Some g) K_Grant now a)"
  by (simp add: takeAuthorization_def split: sum.split prod.split)

lemma takeAuthorization_moves [simp]: "moves ts cs a (snd (takeAuthorization cr g action now a))"
  using takeAuthorization_snd[of cr g action now a] by (elim disjE) (simp_all only: moves_refl takeChallenge_moves)

lemma takeAuthorization_keeps [simp]:
  "a_generation (snd (takeAuthorization cr g action now a)) = a_generation a" "a_sessions (snd (takeAuthorization cr g action now a)) = a_sessions a"
  "a_passkeys (snd (takeAuthorization cr g action now a)) = a_passkeys a"
  using takeAuthorization_snd[of cr g action now a] by (elim disjE; simp)+

lemma revoke_moves: "moves ts cs a (revokeSessions a)"
  by (auto simp: moves_def revokeSessions_def revokeRows_def)

lemma deleteSession_moves: "moves ts cs a (deleteSession t a)"
  by (auto simp: moves_def deleteSession_def)

lemma logout_moves: "moves ts cs a (logout cr a)"
  by (auto simp: moves_def logout_def deleteSession_def intro: order_trans[OF length_filter_le])

lemma evict_length: "length (evict m) < MAX_CHALLENGES"
  by (simp add: evict_def MAX_CHALLENGES_def)

lemma js_set_length: "length (js_set k v m) \<le> Suc (length m)"
  by (simp add: js_set_def)

lemma js_set_in: "set (js_set k v m) \<subseteq> insert (k, v) (set m)"
  by (auto simp: js_set_def)

lemma putChallenge_moves: "moves ts {(i, e)} a (putChallenge i e now a)"
proof -
  let ?m = "evict (filter (\<lambda>c. now < ch_expires (snd c)) (a_challenges a))"
  have "set ?m \<subseteq> set (a_challenges a)" by (auto simp: evict_def dest: in_set_dropD)
  then have "set (js_set i e ?m) \<subseteq> set (a_challenges a) \<union> {(i, e)}" using js_set_in[of i e ?m] by blast
  moreover have "length (js_set i e ?m) \<le> MAX_CHALLENGES"
    using js_set_length[of i e ?m] evict_length[of "filter (\<lambda>c. now < ch_expires (snd c)) (a_challenges a)"] by linarith
  ultimately show ?thesis by (auto simp: moves_def putChallenge_def)
qed

lemma putChallenge_keeps [simp]:
  "a_sessions (putChallenge i e now a) = a_sessions a" "a_passkeys (putChallenge i e now a) = a_passkeys a"
  "a_generation (putChallenge i e now a) = a_generation a"
  by (simp_all add: putChallenge_def)

lemma issue_moves: "moves {t} cs a (snd (issueSession t label now a))"
  by (auto simp: moves_def issueSession_def createSession_def)

lemma verify_moves: "moves ts cs a (snd (verifySession t now a))"
  by (simp add: verifySession_def Let_def deleteSession_moves)

lemma prune_moves: "moves ts cs a (pruneExpiredSessions now a)"
  by (auto simp: moves_def pruneExpiredSessions_def)

lemma logoutAll_moves: "moves ts cs a (snd (logoutAll cr g now a))"
proof -
  obtain r b where rb: "takeAuthorization cr g Revoke_Sessions now a = (r, b)" by fastforce
  have m: "moves ts cs a b" "a_generation b = a_generation a"
    using takeAuthorization_moves[of ts cs a cr g Revoke_Sessions now] takeAuthorization_keeps(1)[of cr g Revoke_Sessions now a] rb by simp_all
  show ?thesis using m moves_trans_quiet[OF m(1) revoke_moves m(2)] by (cases r) (simp_all add: logoutAll_def rb)
qed

lemma removePasskey_moves: "moves ts cs a (snd (removePasskey cr g i now a))"
proof -
  obtain r b where rb: "takeAuthorization cr g Remove_Passkey now a = (r, b)" by fastforce
  have m: "moves ts cs a b" "a_generation b = a_generation a"
    using takeAuthorization_moves[of ts cs a cr g Remove_Passkey now] takeAuthorization_keeps(1)[of cr g Remove_Passkey now a] rb by simp_all
  have "moves ts cs a (revokeSessions (snd (deleteCredential i b)))"
    using m by (auto simp: moves_def revokeSessions_def revokeRows_def deleteCredential_def)
  then show ?thesis using m by (cases r) (simp_all add: removePasskey_def rb deleteCredential_def split: bool.split)
qed

lemma enroll_row_moves: "moves ts cs a (snd (createEnrollToken t session now a))"
  by (auto simp: moves_def createEnrollToken_def createEnrollRow_def Let_def)

lemma authorizeEnrollment_moves: "moves ts cs a (snd (authorizeEnrollment t cr g now a))"
proof -
  obtain r b where rb: "takeAuthorization cr g Enroll now a = (r, b)" by fastforce
  have m: "moves ts cs a b" "a_generation b = a_generation a"
    using takeAuthorization_moves[of ts cs a cr g Enroll now] takeAuthorization_keeps(1)[of cr g Enroll now a] rb by simp_all
  show ?thesis using m moves_trans_quiet[OF m(1) enroll_row_moves m(2)]
    by (cases r) (simp_all add: authorizeEnrollment_def rb case_prod_beta)
qed

lemma registered_moves: "moves {t} cs a (snd (registered cr e gen label answer t now a))"
proof -
  define u where "u = (if given (ch_enroll e) then consumeEnrollToken (the (ch_enroll e)) now a else (True, a))"
  have u: "moves {t} cs a (snd u)" "a_generation (snd u) = a_generation a"
    by (auto simp: u_def consumeEnrollToken_def moves_def)
  have ins: "moves {t} cs (snd u) b \<and> a_generation b = a_generation (snd u)" if "insertCredential k (snd u) = (r, b)" for k r b
    using that by (auto simp: insertCredential_def moves_def split: if_splits)
  have "moves {t} cs a (snd (issueSession t label now (if given (ac_session cr) then logout cr b else b)))"
    if l: "insertCredential k (snd u) = (r, b)" for k r b
  proof -
    have b: "moves {t} cs a b" "a_generation b = a_generation a"
      using moves_trans_quiet[OF u(1) _ u(2)] ins[OF l] u(2) by auto
    have lo: "a_generation (logout cr b) = a_generation b" by (simp add: logout_def deleteSession_def)
    have c: "moves {t} cs a (if given (ac_session cr) then logout cr b else b)" "a_generation (if given (ac_session cr) then logout cr b else b) = a_generation a"
      using moves_trans_quiet[OF b(1) logout_moves b(2)] b lo by auto
    show ?thesis using moves_trans_quiet[OF c(1) issue_moves c(2)] .
  qed
  note quiet = this
  show ?thesis
  proof (cases "answer = None \<or> \<not> enrollment_authorized cr e gen now a \<or> \<not> fst u")
    case True
    have "snd (registered cr e gen label answer t now a) = a"
    proof (cases answer)
      case (Some x)
      obtain i key counter transports where x: "x = (i, key, counter, transports)" by (cases x)
      show ?thesis
        using True Some unfolding registered_def Some option.case x prod.case Let_def u_def[symmetric] by simp
    qed (simp add: registered_def)
    then show ?thesis by simp
  next
    case False
    then obtain i key counter transports where ans: "answer = Some (i, key, counter, transports)" by auto
    define short where "short = map_option (take 64) label"
    obtain r b where rb: "insertCredential \<lparr>pk_id = i, pk_key = key, pk_counter = counter, pk_transports = transports,
        pk_label = (if given short then short else None), pk_created = now, pk_used = Some now\<rparr> (snd u) = (r, b)" by fastforce
    have "registered cr e gen label answer t now a = (case r of Inl err \<Rightarrow> (Inl err, a)
      | Inr _ \<Rightarrow> (Inr t, snd (issueSession t label now (if given (ac_session cr) then logout cr b else b))))"
      using False unfolding registered_def ans option.case prod.case Let_def u_def[symmetric] short_def[symmetric] rb
      by (simp split: sum.split)
    then show ?thesis using quiet[OF rb] by (cases r) simp_all
  qed
qed

lemma signed_in_moves: "moves {t} cs a (snd (signed_in cr gen c t now a))"
proof -
  have "a_generation (logout cr a) = a_generation a" by (simp add: logout_def deleteSession_def)
  then show ?thesis using moves_trans_quiet[OF logout_moves issue_moves] by (simp add: signed_in_def)
qed

lemma assertion_moves: "moves ts cs a (snd (assertion_verified c gen use counter now a))"
proof -
  have "moves ts cs a (bumpCredentialCounter i n now a)" for i n
  proof -
    have "map pk_id (a_passkeys (bumpCredentialCounter i n now a)) = map pk_id (a_passkeys a)"
      by (simp add: bumpCredentialCounter_def)
    then have "passkey_ids (bumpCredentialCounter i n now a) = passkey_ids a" by (metis set_map)
    then show ?thesis by (simp add: moves_def) (simp add: bumpCredentialCounter_def)
  qed
  then show ?thesis by (auto simp: assertion_verified_def split: option.split)
qed

section \<open>The invariant\<close>

fun use_ok :: "auth_world \<Rightarrow> assertion_use \<Rightarrow> bool" where
  "use_ok w (For_Grant cr e) \<longleftrightarrow> (\<exists>t action. ac_session cr = Some t \<and> t \<in> set (w_tokens w) \<and> ch_session e = Some t \<and> ch_action e = Some action)"
| "use_ok w (For_Login cr gen) \<longleftrightarrow> gen \<le> a_generation (w_auth w)"

text \<open>A passkey that was verified for a grant exists as long as the session does.\<close>

fun grantee_ok :: "auth_world \<Rightarrow> passkey \<Rightarrow> assertion_use \<Rightarrow> bool" where
  "grantee_ok w c (For_Grant cr e) \<longleftrightarrow>
     (\<forall>t. ac_session cr = Some t \<and> t \<in> session_tokens (w_auth w) \<longrightarrow> pk_id c \<in> passkey_ids (w_auth w))"
| "grantee_ok w c (For_Login cr gen) \<longleftrightarrow> True"

fun ceremony_ok :: "auth_world \<Rightarrow> ceremony \<Rightarrow> bool" where
  "ceremony_ok w (Reauth_Options cr t action) \<longleftrightarrow> ac_session cr = Some t \<and> t \<in> set (w_tokens w)"
| "ceremony_ok w Login_Options \<longleftrightarrow> True"
| "ceremony_ok w (Enroll_Options enroll session) \<longleftrightarrow> True"
| "ceremony_ok w (Registration cr e gen label) \<longleftrightarrow> gen \<le> a_generation (w_auth w)"
| "ceremony_ok w (Assertion c gen use) \<longleftrightarrow> gen \<le> a_generation (w_auth w) \<and> use_ok w use"
| "ceremony_ok w (Asserted c use) \<longleftrightarrow> use_ok w use \<and> grantee_ok w c use"

definition challenge_ok :: "auth_world \<Rightarrow> string \<times> challenge_entry \<Rightarrow> bool" where
  "challenge_ok w p \<longleftrightarrow> fst p \<in> set (w_tokens w) \<and>
     (ch_kind (snd p) = K_Reauth \<longrightarrow> ch_session (snd p) \<noteq> None \<and> ch_action (snd p) \<noteq> None) \<and>
     (ch_kind (snd p) = K_Grant \<longrightarrow> fst p \<notin> set (w_spent w) \<and> (\<exists>t action c. ch_session (snd p) = Some t \<and> ch_action (snd p) = Some action \<and>
        ch_credential (snd p) = Some c \<and> (fst p, t, action, c) \<in> set (w_verified w) \<and> c \<in> passkey_ids (w_auth w)))"

definition spent_ok :: "auth_world \<Rightarrow> bool" where
  "spent_ok w \<longleftrightarrow> distinct (w_spent w) \<and> set (w_spent w) \<subseteq> set (w_tokens w) \<and> set (w_spent w) \<subseteq> fst ` set (w_verified w)"

definition aw_ok :: "auth_world \<Rightarrow> bool" where
  "aw_ok w \<longleftrightarrow> session_tokens (w_auth w) \<subseteq> set (w_tokens w) \<and> (\<forall>c \<in> set (a_challenges (w_auth w)). challenge_ok w c) \<and>
     (\<forall>p \<in> set (w_open w). ceremony_ok w p) \<and> spent_ok w \<and> length (a_challenges (w_auth w)) \<le> MAX_CHALLENGES"

text \<open>What a step spends is a grant that was open before and is gone after.\<close>

definition spends :: "auth_world \<Rightarrow> auth_world \<Rightarrow> bool" where
  "spends w w' \<longleftrightarrow> w_spent w' = w_spent w \<or>
     (\<exists>g e. w_spent w' = g # w_spent w \<and> (g, e) \<in> set (a_challenges (w_auth w)) \<and> ch_kind e = K_Grant \<and>
        g \<notin> fst ` set (a_challenges (w_auth w')))"

text \<open>The part of a step that its effect on the service leaves to prove.\<close>

definition advances :: "string set \<Rightarrow> (string \<times> challenge_entry) set \<Rightarrow> auth_world \<Rightarrow> auth_world \<Rightarrow> bool" where
  "advances ts cs w w' \<longleftrightarrow> moves ts cs (w_auth w) (w_auth w') \<and> ts \<inter> set (w_tokens w) = {} \<and>
     set (w_tokens w) \<union> ts \<subseteq> set (w_tokens w') \<and> set (w_verified w) \<subseteq> set (w_verified w') \<and> spends w w'"

lemma advances_generation: "advances ts cs w w' \<Longrightarrow> a_generation (w_auth w) \<le> a_generation (w_auth w')"
  by (auto simp: advances_def moves_def)

lemma advances_session:
  "advances ts cs w w' \<Longrightarrow> t \<in> set (w_tokens w) \<Longrightarrow> t \<in> session_tokens (w_auth w') \<Longrightarrow>
   t \<in> session_tokens (w_auth w) \<and> passkey_ids (w_auth w) \<subseteq> passkey_ids (w_auth w')"
  unfolding advances_def moves_def by auto

lemma use_ok_advances: "advances ts cs w w' \<Longrightarrow> use_ok w u \<Longrightarrow> use_ok w' u"
  using advances_generation[of ts cs w w'] by (cases u) (auto simp: advances_def)

lemma ceremony_ok_advances:
  assumes adv: "advances ts cs w w'" and p: "ceremony_ok w p"
  shows "ceremony_ok w' p"
proof (cases p)
  case (Asserted c use)
  have "grantee_ok w' c use"
  proof (cases use)
    case (For_Grant cr e)
    then have "use_ok w (For_Grant cr e)" "grantee_ok w c (For_Grant cr e)" using p Asserted by simp_all
    then obtain t where t: "ac_session cr = Some t" "t \<in> set (w_tokens w)"
      "t \<in> session_tokens (w_auth w) \<longrightarrow> pk_id c \<in> passkey_ids (w_auth w)" by auto
    have "t \<in> session_tokens (w_auth w') \<longrightarrow> pk_id c \<in> passkey_ids (w_auth w')"
      using advances_session[OF adv t(2)] t(3) by (meson subsetD)
    then show ?thesis using t(1) For_Grant by simp
  qed simp
  then show ?thesis using use_ok_advances[OF adv] p Asserted by simp
qed (use p use_ok_advances[OF adv] advances_generation[OF adv] adv in \<open>auto simp: advances_def\<close>)

lemma challenge_ok_advances:
  assumes adv: "advances ts cs w w'" and ok: "challenge_ok w c" and stays: "c \<in> set (a_challenges (w_auth w'))"
  shows "challenge_ok w' c"
proof -
  have "passkey_ids (w_auth w) \<subseteq> passkey_ids (w_auth w')" using adv stays by (auto simp: advances_def moves_def)
  then have pk: "c' \<in> passkey_ids (w_auth w')" if "c' \<in> passkey_ids (w_auth w)" for c' using that by (rule subsetD)
  have sp: "fst c \<notin> set (w_spent w')" if "fst c \<notin> set (w_spent w)"
  proof -
    have "fst c \<in> fst ` set (a_challenges (w_auth w'))" using stays by (rule imageI)
    with adv that show ?thesis unfolding advances_def spends_def by (metis set_ConsD)
  qed
  have "fst c \<in> set (w_tokens w')" "x \<in> set (w_verified w) \<Longrightarrow> x \<in> set (w_verified w')" for x
    using adv ok unfolding advances_def challenge_ok_def by auto
  then have "fst c \<in> set (w_tokens w')" and vf: "\<And>x. x \<in> set (w_verified w) \<Longrightarrow> x \<in> set (w_verified w')" by blast+
  moreover have "fst c \<notin> set (w_spent w') \<and> (\<exists>t action i. ch_session (snd c) = Some t \<and> ch_action (snd c) = Some action \<and>
        ch_credential (snd c) = Some i \<and> (fst c, t, action, i) \<in> set (w_verified w') \<and> i \<in> passkey_ids (w_auth w'))"
    if k: "ch_kind (snd c) = K_Grant"
  proof -
    from ok k obtain t action i where "fst c \<notin> set (w_spent w)" "ch_session (snd c) = Some t" "ch_action (snd c) = Some action"
      "ch_credential (snd c) = Some i" "(fst c, t, action, i) \<in> set (w_verified w)" "i \<in> passkey_ids (w_auth w)"
      unfolding challenge_ok_def by blast
    with sp pk[of i] vf show ?thesis by blast
  qed
  ultimately show ?thesis using ok unfolding challenge_ok_def by simp
qed

lemma spent_ok_advances:
  assumes adv: "advances ts cs w w'" and ok: "aw_ok w"
  shows "spent_ok w'"
proof -
  have mono: "set (w_tokens w) \<subseteq> set (w_tokens w')" "set (w_verified w) \<subseteq> set (w_verified w')" using adv by (simp_all add: advances_def)
  have old: "spent_ok w" using ok by (simp add: aw_ok_def)
  consider "w_spent w' = w_spent w"
    | g e where "w_spent w' = g # w_spent w" "(g, e) \<in> set (a_challenges (w_auth w))" "ch_kind e = K_Grant"
    using adv by (auto simp: advances_def spends_def)
  then show ?thesis
  proof cases
    case 1
    then show ?thesis using old subset_trans[OF _ mono(1)] subset_trans[OF _ image_mono[OF mono(2), of fst]]
      unfolding spent_ok_def by simp
  next
    case 2
    then have "challenge_ok w (g, e)" using ok by (simp add: aw_ok_def)
    then have g: "g \<in> set (w_tokens w)" "g \<notin> set (w_spent w)" "g \<in> fst ` set (w_verified w)"
      using 2(3) unfolding challenge_ok_def by force+
    then have "g \<in> set (w_tokens w')" "g \<in> fst ` set (w_verified w')" using mono(1) image_mono[OF mono(2), of fst] by (blast, blast)
    then show ?thesis using old g(2) subset_trans[OF _ mono(1)] subset_trans[OF _ image_mono[OF mono(2), of fst]]
      unfolding spent_ok_def 2(1) by simp
  qed
qed

lemma aw_ok_advances:
  assumes adv: "advances ts cs w w'" and ok: "aw_ok w"
    and new: "\<And>c. c \<in> cs \<Longrightarrow> challenge_ok w' c"
    and open_new: "\<And>p. p \<in> set (w_open w') \<Longrightarrow> p \<in> set (w_open w) \<or> ceremony_ok w' p"
  shows "aw_ok w'"
proof -
  have mv: "moves ts cs (w_auth w) (w_auth w')" and toks: "set (w_tokens w) \<union> ts \<subseteq> set (w_tokens w')"
    using adv by (simp_all add: advances_def)
  have "session_tokens (w_auth w') \<subseteq> session_tokens (w_auth w) \<union> ts" using mv unfolding moves_def by simp
  then have "session_tokens (w_auth w') \<subseteq> set (w_tokens w')" using ok toks unfolding aw_ok_def by (meson Un_mono order_refl order_trans)
  moreover have "challenge_ok w' c" if c: "c \<in> set (a_challenges (w_auth w'))" for c
  proof (cases "c \<in> cs")
    case False
    then have "c \<in> set (a_challenges (w_auth w))" using mv c unfolding moves_def by auto
    then show ?thesis using challenge_ok_advances[OF adv _ c] ok by (simp add: aw_ok_def)
  qed (use new in blast)
  moreover have "ceremony_ok w' p" if p: "p \<in> set (w_open w')" for p
    using open_new[OF p] ceremony_ok_advances[OF adv] ok by (auto simp: aw_ok_def)
  moreover have "length (a_challenges (w_auth w')) \<le> MAX_CHALLENGES" using mv ok by (simp add: moves_def aw_ok_def)
  ultimately show ?thesis using spent_ok_advances[OF adv ok] by (simp add: aw_ok_def)
qed

section \<open>Every step keeps it\<close>

lemma requireSession_Inr:
  "requireSession cr now a = Inr t \<Longrightarrow> ac_session cr = Some t \<and> sessionValid (Some t) now a \<and> t \<in> session_tokens a"
  by (auto simp: requireSession_def sessionValid_def given_def getSession_def split: if_splits option.splits dest!: find_Some_in)

lemma takeChallenge_Inr:
  "takeChallenge (Some g) k now a = (Inr e, b) \<Longrightarrow> (g, e) \<in> set (a_challenges a) \<and> ch_kind e = k \<and> now < ch_expires e \<and>
     b = a\<lparr>a_challenges := filter (\<lambda>c. fst c \<noteq> g) (a_challenges a)\<rparr>"
  by (auto simp: takeChallenge_def Let_def dest: map_of_SomeD split: option.splits if_splits)

lemma takeAuthorization_Inr:
  assumes "takeAuthorization cr g action now a = (Inr e, b)"
  shows "\<exists>t. ac_session cr = Some t \<and> sessionValid (Some t) now a \<and> t \<in> session_tokens a \<and> (g, e) \<in> set (a_challenges a) \<and> ch_kind e = K_Grant \<and>
    ch_session e = Some t \<and> ch_action e = Some action \<and> b = a\<lparr>a_challenges := filter (\<lambda>c. fst c \<noteq> g) (a_challenges a)\<rparr>"
proof (cases "requireSession cr now a")
  case (Inr t)
  obtain r c where rc: "takeChallenge (Some g) K_Grant now a = (r, c)" by fastforce
  show ?thesis
  proof (cases r)
    case (Inl x)
    then show ?thesis using assms \<open>requireSession cr now a = Inr t\<close> rc by (simp add: takeAuthorization_def)
  next
    case e: (Inr x)
    then have "x = e" "c = b" "ch_session e = Some t" "ch_action e = Some action"
      using assms Inr rc by (auto simp: takeAuthorization_def split: if_splits)
    then show ?thesis using requireSession_Inr[OF Inr] takeChallenge_Inr[of g K_Grant now a e b] rc e by simp
  qed
qed (use assms in \<open>simp add: takeAuthorization_def\<close>)

lemma spends_take:
  assumes "w_spent w' = spend cr g action now w"
    and "\<And>e b. takeAuthorization cr g action now (w_auth w) = (Inr e, b) \<Longrightarrow> set (a_challenges (w_auth w')) \<subseteq> set (a_challenges b)"
  shows "spends w w'"
proof (cases "takeAuthorization cr g action now (w_auth w)")
  case (Pair r b)
  show ?thesis
  proof (cases r)
    case (Inl x)
    then show ?thesis using assms(1) Pair by (simp add: spends_def spend_def)
  next
    case (Inr e)
    then have "takeAuthorization cr g action now (w_auth w) = (Inr e, b)" using Pair by simp
    from takeAuthorization_Inr[OF this] assms(2)[OF this] have "(g, e) \<in> set (a_challenges (w_auth w))" "ch_kind e = K_Grant"
      "g \<notin> fst ` set (a_challenges (w_auth w'))" by auto
    moreover have "w_spent w' = g # w_spent w" using assms(1) Pair Inr by (simp add: spend_def)
    ultimately show ?thesis unfolding spends_def by blast
  qed
qed

lemma spends_same: "w_spent w' = w_spent w \<Longrightarrow> spends w w'"
  by (simp add: spends_def)

lemma removed_ceremony: "p \<in> set (remove1 q ps) \<Longrightarrow> p \<in> set ps"
  by (rule set_remove1_subset[THEN subsetD])

lemma opened_cases: "p \<in> set (opened r ps) \<Longrightarrow> p \<in> set ps \<or> r = Inr p"
  by (auto simp: opened_def split: sum.splits)

definition step_ok :: "auth_world \<Rightarrow> auth_world \<Rightarrow> bool" where
  "step_ok w w' \<longleftrightarrow> (\<exists>ts cs. advances ts cs w w' \<and> (\<forall>c \<in> cs. challenge_ok w' c) \<and>
     (\<forall>p \<in> set (w_open w'). p \<in> set (w_open w) \<or> ceremony_ok w' p))"

lemma auth_step_okI:
  assumes "moves ts cs (w_auth w) (w_auth w')" "ts \<inter> set (w_tokens w) = {}" "set (w_tokens w) \<union> ts \<subseteq> set (w_tokens w')"
    "set (w_verified w) \<subseteq> set (w_verified w')" "spends w w'" "\<And>c. c \<in> cs \<Longrightarrow> challenge_ok w' c"
    "\<And>p. p \<in> set (w_open w') \<Longrightarrow> p \<in> set (w_open w) \<or> ceremony_ok w' p"
  shows "step_ok w w'"
  using assms unfolding step_ok_def advances_def by blast

lemma quiet_step:
  assumes "moves {} {} (w_auth w) (w_auth w')" "w_tokens w' = w_tokens w" "w_verified w' = w_verified w" "spends w w'"
    "\<And>p. p \<in> set (w_open w') \<Longrightarrow> p \<in> set (w_open w) \<or> ceremony_ok w' p"
  shows "step_ok w w'"
  using assms by (intro auth_step_okI[of "{}" "{}"]) auto

lemma token_step:
  assumes "moves {t} {} (w_auth w) (w_auth w')" "fresh_token t w" "w_tokens w' = t # w_tokens w" "w_verified w' = w_verified w" "spends w w'"
    "set (w_open w') \<subseteq> set (w_open w)"
  shows "step_ok w w'"
  using assms by (intro auth_step_okI[of "{t}" "{}"]) (auto simp: fresh_token_def)

lemma takeChallenge_given:
  "takeChallenge i k now a = (Inr e, b) \<Longrightarrow> \<exists>g. i = Some g \<and> (g, e) \<in> set (a_challenges a) \<and> ch_kind e = k"
  by (auto simp: takeChallenge_def Let_def given_def dest: map_of_SomeD split: option.splits if_splits)

lemma finishReauthentication_Inr:
  assumes "finishReauthentication cr i now a = (Inr p, b)"
  shows "\<exists>t c e g. ac_session cr = Some t \<and> t \<in> session_tokens a \<and> p = Assertion c (a_generation a) (For_Grant cr e) \<and>
    (g, e) \<in> set (a_challenges a) \<and> ch_kind e = K_Reauth \<and> ch_session e = Some t"
proof (cases "requireSession cr now a")
  case (Inr t)
  obtain r d where rd: "takeChallenge (ac_challenge cr) K_Reauth now a = (r, d)" by fastforce
  show ?thesis
  proof (cases r)
    case (Inl x)
    then show ?thesis using assms \<open>requireSession cr now a = Inr t\<close> rd by (simp add: finishReauthentication_def)
  next
    case e: (Inr e)
    have gen: "a_generation d = a_generation a" using takeChallenge_keeps(1)[of "ac_challenge cr" K_Reauth now a] rd by simp
    have "ch_session e = Some t" "verifyAssertion i (For_Grant cr e) d = Inr p"
      using assms Inr rd e by (auto simp: finishReauthentication_def split: if_splits)
    then have "\<exists>c. p = Assertion c (a_generation a) (For_Grant cr e)" using gen by (auto simp: verifyAssertion_def split: option.splits)
    moreover obtain g where "(g, e) \<in> set (a_challenges a)" "ch_kind e = K_Reauth" using takeChallenge_given rd e by blast
    ultimately show ?thesis using requireSession_Inr[OF Inr] \<open>ch_session e = Some t\<close> by blast
  qed
qed (use assms in \<open>simp add: finishReauthentication_def\<close>)

lemma take_moves_eq:
  "takeChallenge i k now a = (r, b) \<Longrightarrow> moves ts cs a b"
  "takeAuthorization cr g action now a = (r', b) \<Longrightarrow> moves ts cs a b"
  by (metis snd_conv takeChallenge_moves, metis snd_conv takeAuthorization_moves)

lemma begin_moves:
  "finishReauthentication cr i now a = (r, b) \<Longrightarrow> moves ts cs a b"
  "finishAuthentication cr i now a = (r, b) \<Longrightarrow> moves ts cs a b"
  "finishRegistration cr label now a = (r, b) \<Longrightarrow> moves ts cs a b"
  by (auto simp: finishReauthentication_def finishAuthentication_def finishRegistration_def intro: take_moves_eq
      split: sum.splits prod.splits if_splits)

lemma begin_generation:
  "finishAuthentication cr i now a = (Inr p, b) \<Longrightarrow> \<exists>c. p = Assertion c (a_generation b) (For_Login cr (a_generation b))"
  "finishRegistration cr label now a = (Inr p, b) \<Longrightarrow> \<exists>e. p = Registration cr e (a_generation b) label"
  by (auto simp: finishAuthentication_def finishRegistration_def verifyAssertion_def split: sum.splits prod.splits if_splits option.splits)

lemma beginRegistration_moves: "beginRegistration cr enroll g now a = (r, b) \<Longrightarrow> moves ts cs a b"
  by (auto simp: beginRegistration_def intro: take_moves_eq split: sum.splits prod.splits if_splits option.splits)

lemma beginRegistration_ceremony: "beginRegistration cr enroll g now a = (Inr p, b) \<Longrightarrow> \<exists>e s. p = Enroll_Options e s"
  by (auto simp: beginRegistration_def split: sum.splits prod.splits if_splits option.splits)

lemma revoke_no_challenges [simp]: "a_challenges (revokeSessions a) = []"
  by (simp add: revokeSessions_def)

lemma logoutAll_spends:
  "takeAuthorization cr g Revoke_Sessions now a = (Inr e, b) \<Longrightarrow> a_challenges (snd (logoutAll cr g now a)) = []"
  by (simp add: logoutAll_def)

lemma removePasskey_spends:
  "takeAuthorization cr g Remove_Passkey now a = (Inr e, b) \<Longrightarrow> set (a_challenges (snd (removePasskey cr g i now a))) \<subseteq> set (a_challenges b)"
  by (simp add: removePasskey_def deleteCredential_def split: bool.split)

lemma authorizeEnrollment_spends:
  "takeAuthorization cr g Enroll now a = (Inr e, b) \<Longrightarrow> a_challenges (snd (authorizeEnrollment t cr g now a)) = a_challenges b"
  by (simp add: authorizeEnrollment_def createEnrollToken_def createEnrollRow_def Let_def)

lemma beginRegistration_spends:
  "takeAuthorization cr (case g of None \<Rightarrow> [] | Some g \<Rightarrow> g) Enroll now a = (Inr e, b) \<Longrightarrow> \<not> given enroll \<Longrightarrow>
   beginRegistration cr enroll g now a = (r, c) \<Longrightarrow> c = b"
  by (auto simp: beginRegistration_def)

lemma options_moves:
  "moves ts {(i, new_challenge K_Reauth ch now None (Some t) (Some action))} a (snd (reauth_options cr t action i ch now a))"
  "moves ts {(i, new_challenge K_Auth ch now None None None)} a (snd (login_options i ch now a))"
  "moves ts {(i, new_challenge K_Reg ch now enroll session None)} a (snd (enroll_options enroll session i ch now a))"
  by (simp_all add: reauth_options_def login_options_def enroll_options_def putChallenge_moves split: sum.split)

lemma new_challenge_ok:
  "i \<in> set (w_tokens w) \<Longrightarrow> k \<noteq> K_Grant \<Longrightarrow> k \<noteq> K_Reauth \<or> session \<noteq> None \<and> action \<noteq> None \<Longrightarrow>
   challenge_ok w (i, new_challenge k challenge now enroll session action)"
  by (auto simp: challenge_ok_def new_challenge_def)

lemma challenge_step:
  assumes "moves {} {(i, e)} (w_auth w) (w_auth w')" "fresh_token i w" "w_tokens w' = i # w_tokens w" "set (w_verified w) \<subseteq> set (w_verified w')"
    "w_spent w' = w_spent w" "set (w_open w') \<subseteq> set (w_open w)" "challenge_ok w' (i, e)"
  shows "step_ok w w'"
  using assms by (intro auth_step_okI[of "{}" "{(i, e)}"]) (auto simp: spends_same)

lemma assertion_verified_Inr:
  "assertion_verified c gen use counter now a = (Inr p, b) \<Longrightarrow>
   p = Asserted c use \<and> gen = a_generation a \<and> pk_id c \<in> passkey_ids b \<and> a_generation b = a_generation a"
proof -
  assume "assertion_verified c gen use counter now a = (Inr p, b)"
  then obtain n cur where cur: "getCredential (pk_id c) a = Some cur" "gen = a_generation a" "p = Asserted c use" "b = bumpCredentialCounter (pk_id c) n now a"
    by (auto simp: assertion_verified_def split: option.splits if_splits)
  have "map pk_id (a_passkeys b) = map pk_id (a_passkeys a)" by (simp add: cur(4) bumpCredentialCounter_def)
  then have "passkey_ids b = passkey_ids a" by (metis set_map)
  moreover have "pk_id c \<in> passkey_ids a" using cur(1) unfolding getCredential_def by (metis (mono_tags, lifting) find_Some_in imageI)
  ultimately show ?thesis using cur by (simp add: bumpCredentialCounter_def)
qed

lemma auth_step_ok: "auth_step w w' \<Longrightarrow> aw_ok w \<Longrightarrow> step_ok w w'"
proof (induction rule: auth_step.induct)
  case (A_Verify w t now)
  then show ?case by (intro quiet_step) (simp_all add: verify_moves spends_same)
next
  case (A_Prune w now)
  then show ?case by (intro quiet_step) (simp_all add: prune_moves spends_same)
next
  case (A_Logout w cr)
  then show ?case by (intro quiet_step) (simp_all add: logout_moves spends_same)
next
  case (A_Logout_All w cr g now)
  have "spends w (w\<lparr>w_auth := snd (logoutAll cr g now (w_auth w)), w_spent := spend cr g Revoke_Sessions now w\<rparr>)"
    by (rule spends_take[of _ cr g Revoke_Sessions now]) (simp_all add: logoutAll_spends)
  then show ?case by (intro quiet_step) (simp_all add: logoutAll_moves)
next
  case (A_Remove w cr g now i)
  have "spends w (w\<lparr>w_auth := snd (removePasskey cr g i now (w_auth w)), w_spent := spend cr g Remove_Passkey now w\<rparr>)"
    by (rule spends_take[of _ cr g Remove_Passkey now]) (simp_all add: removePasskey_spends)
  then show ?case by (intro quiet_step) (simp_all add: removePasskey_moves)
next
  case (A_Mint t w now)
  then show ?case by (intro token_step) (simp_all add: mintEnrollToken_def enroll_row_moves spends_same)
next
  case (A_Authorize t w cr g now)
  have "spends w (w\<lparr>w_auth := snd (authorizeEnrollment t cr g now (w_auth w)), w_tokens := t # w_tokens w, w_spent := spend cr g Enroll now w\<rparr>)"
    by (rule spends_take[of _ cr g Enroll now]) (simp_all add: authorizeEnrollment_spends)
  with A_Authorize show ?case by (intro token_step) (simp_all add: authorizeEnrollment_moves)
next
  case (A_Begin_Reauth cr action now w r a)
  show ?case
  proof (rule quiet_step)
    fix p assume "p \<in> set (w_open (w\<lparr>w_auth := a, w_open := opened r (w_open w)\<rparr>))"
    then consider "p \<in> set (w_open w)" | "r = Inr p" by (auto dest!: opened_cases)
    then show "p \<in> set (w_open w) \<or> ceremony_ok (w\<lparr>w_auth := a, w_open := opened r (w_open w)\<rparr>) p"
    proof cases
      case 2
      then obtain t where t: "requireSession cr now (w_auth w) = Inr t" "p = Reauth_Options cr t action"
        using A_Begin_Reauth(1) by (cases "requireSession cr now (w_auth w)") (auto simp: beginReauthentication_def)
      then have "t \<in> set (w_tokens w)" using requireSession_Inr[OF t(1)] A_Begin_Reauth(2) unfolding aw_ok_def by blast
      then show ?thesis using requireSession_Inr[OF t(1)] t(2) by simp
    qed simp
  qed (use A_Begin_Reauth(1) in \<open>auto simp: beginReauthentication_def spends_same\<close>)
next
  case (A_Finish_Reauth cr i now w r a)
  have mv: "moves {} {} (w_auth w) a" using begin_moves(1)[OF A_Finish_Reauth(1)] .
  show ?case
  proof (rule quiet_step)
    fix p assume "p \<in> set (w_open (w\<lparr>w_auth := a, w_open := opened r (w_open w)\<rparr>))"
    then consider "p \<in> set (w_open w)" | "r = Inr p" by (auto dest!: opened_cases)
    then show "p \<in> set (w_open w) \<or> ceremony_ok (w\<lparr>w_auth := a, w_open := opened r (w_open w)\<rparr>) p"
    proof cases
      case 2
      then have "finishReauthentication cr i now (w_auth w) = (Inr p, a)" using A_Finish_Reauth(1) by simp
      from finishReauthentication_Inr[OF this] obtain t c e g where t: "ac_session cr = Some t" "t \<in> session_tokens (w_auth w)"
        and p: "p = Assertion c (a_generation (w_auth w)) (For_Grant cr e)"
        and e: "(g, e) \<in> set (a_challenges (w_auth w))" "ch_kind e = K_Reauth" "ch_session e = Some t"
        by (elim exE conjE)
      have "challenge_ok w (g, e)" using A_Finish_Reauth(2) e(1) unfolding aw_ok_def by blast
      then have "ch_action e \<noteq> None" using e(2) by (simp add: challenge_ok_def)
      moreover have "t \<in> set (w_tokens w)" using t(2) A_Finish_Reauth(2) unfolding aw_ok_def by blast
      moreover have "a_generation (w_auth w) \<le> a_generation a" using mv by (auto simp: moves_def)
      ultimately show ?thesis using t(1) e(3) by (simp add: p)
    qed simp
  qed (simp_all add: mv spends_same)
next
  case (A_Begin_Login w r a)
  then show ?case by (intro quiet_step) (auto simp: beginAuthentication_def opened_def spends_same)
next
  case (A_Finish_Login cr i now w r a)
  have mv: "moves {} {} (w_auth w) a" using begin_moves(2)[OF A_Finish_Login(1)] .
  show ?case
  proof (rule quiet_step)
    fix p assume "p \<in> set (w_open (w\<lparr>w_auth := a, w_open := opened r (w_open w)\<rparr>))"
    then consider "p \<in> set (w_open w)" | "r = Inr p" by (auto dest!: opened_cases)
    then show "p \<in> set (w_open w) \<or> ceremony_ok (w\<lparr>w_auth := a, w_open := opened r (w_open w)\<rparr>) p"
    proof cases
      case 2
      then have "finishAuthentication cr i now (w_auth w) = (Inr p, a)" using A_Finish_Login(1) by simp
      from begin_generation(1)[OF this] show ?thesis by auto
    qed simp
  qed (simp_all add: mv spends_same)
next
  case (A_Begin_Enroll cr enroll g now w r a)
  let ?w = "w\<lparr>w_auth := a, w_open := opened r (w_open w),
      w_spent := (if given enroll then w_spent w else spend cr (case g of None \<Rightarrow> [] | Some g \<Rightarrow> g) Enroll now w)\<rparr>"
  have sp: "spends w ?w"
  proof (cases "given enroll")
    case False
    show ?thesis
    proof (rule spends_take[of _ cr "case g of None \<Rightarrow> [] | Some g \<Rightarrow> g" Enroll now])
      fix e b assume "takeAuthorization cr (case g of None \<Rightarrow> [] | Some g \<Rightarrow> g) Enroll now (w_auth w) = (Inr e, b)"
      from beginRegistration_spends[OF this False A_Begin_Enroll(1)] show "set (a_challenges (w_auth ?w)) \<subseteq> set (a_challenges b)" by simp
    qed (simp add: False)
  qed (simp add: spends_same)
  show ?case
  proof (rule quiet_step)
    fix p assume "p \<in> set (w_open ?w)"
    then consider "p \<in> set (w_open w)" | "r = Inr p" by (auto dest!: opened_cases)
    then show "p \<in> set (w_open w) \<or> ceremony_ok ?w p"
    proof cases
      case 2
      then have "beginRegistration cr enroll g now (w_auth w) = (Inr p, a)" using A_Begin_Enroll(1) by simp
      from beginRegistration_ceremony[OF this] show ?thesis by auto
    qed simp
  qed (simp_all add: beginRegistration_moves[OF A_Begin_Enroll(1)] sp)
next
  case (A_Finish_Enroll cr label now w r a)
  have mv: "moves {} {} (w_auth w) a" using begin_moves(3)[OF A_Finish_Enroll(1)] .
  show ?case
  proof (rule quiet_step)
    fix p assume "p \<in> set (w_open (w\<lparr>w_auth := a, w_open := opened r (w_open w)\<rparr>))"
    then consider "p \<in> set (w_open w)" | "r = Inr p" by (auto dest!: opened_cases)
    then show "p \<in> set (w_open w) \<or> ceremony_ok (w\<lparr>w_auth := a, w_open := opened r (w_open w)\<rparr>) p"
    proof cases
      case 2
      then have "finishRegistration cr label now (w_auth w) = (Inr p, a)" using A_Finish_Enroll(1) by simp
      from begin_generation(2)[OF this] show ?thesis by auto
    qed simp
  qed (simp_all add: mv spends_same)
next
  case (A_Reauth_Options cr t action w i challenge now)
  show ?case
    by (rule challenge_step[OF _ A_Reauth_Options(2), of "new_challenge K_Reauth challenge now None (Some t) (Some action)"]) (auto simp: options_moves(1) new_challenge_ok dest: removed_ceremony)
next
  case (A_Login_Options w i challenge now)
  show ?case
    by (rule challenge_step[OF _ A_Login_Options(2), of "new_challenge K_Auth challenge now None None None"]) (auto simp: options_moves(2) new_challenge_ok dest: removed_ceremony)
next
  case (A_Enroll_Options enroll session w i challenge now)
  show ?case
    by (rule challenge_step[OF _ A_Enroll_Options(2), of "new_challenge K_Reg challenge now enroll session None"]) (auto simp: options_moves(3) new_challenge_ok dest: removed_ceremony)
next
  case (A_Registered cr e gen label w t answer now)
  show ?case
    by (rule token_step[OF _ A_Registered(2)]) (auto simp: registered_moves spends_same dest: removed_ceremony)
next
  case (A_Asserted c gen use w counter now r a)
  let ?w = "w\<lparr>w_auth := a, w_open := opened r (remove1 (Assertion c gen use) (w_open w))\<rparr>"
  have mv: "moves {} {} (w_auth w) a" using assertion_moves[of "{}" "{}" "w_auth w" c gen use counter now] A_Asserted(2) by simp
  have was: "use_ok w use" using A_Asserted(1,3) by (auto simp: aw_ok_def)
  show ?case
  proof (rule quiet_step)
    fix p assume "p \<in> set (w_open ?w)"
    then consider "p \<in> set (w_open w)" | "r = Inr p" by (auto dest!: opened_cases removed_ceremony)
    then show "p \<in> set (w_open w) \<or> ceremony_ok ?w p"
    proof cases
      case 2
      then have "assertion_verified c gen use counter now (w_auth w) = (Inr p, a)" using A_Asserted(2) by simp
      from assertion_verified_Inr[OF this]
      have p: "p = Asserted c use" "pk_id c \<in> passkey_ids a" "a_generation a = a_generation (w_auth w)" by blast+
      have "use_ok ?w use" using was p(3) by (cases use) auto
      moreover have "grantee_ok ?w c use" using p(2) by (cases use) simp_all
      ultimately show ?thesis by (simp add: p(1))
    qed simp
  qed (simp_all add: mv spends_same)
next
  case (A_Granted c cr e w i now r a)
  let ?w = "w\<lparr>w_auth := a, w_tokens := i # w_tokens w, w_verified := earned r e c w, w_open := remove1 (Asserted c (For_Grant cr e)) (w_open w)\<rparr>"
  have "ceremony_ok w (Asserted c (For_Grant cr e))" using A_Granted(1,4) unfolding aw_ok_def by blast
  then obtain t action where t: "ac_session cr = Some t" "t \<in> set (w_tokens w)" "ch_session e = Some t" "ch_action e = Some action"
    and c: "t \<in> session_tokens (w_auth w) \<longrightarrow> pk_id c \<in> passkey_ids (w_auth w)" by auto
  have verified: "set (w_verified w) \<subseteq> set (earned r e c w)" by (auto simp: earned_def split: sum.split option.split)
  show ?case
  proof (cases "requireSession cr now (w_auth w)")
    case (Inl err)
    then have "a = w_auth w" using A_Granted(3) by (simp add: grant_authorization_def)
    then show ?thesis using A_Granted(2) verified
      by (intro auth_step_okI[of "{}" "{}"]) (auto simp: spends_same dest: removed_ceremony)
  next
    case (Inr t')
    let ?e = "e\<lparr>ch_kind := K_Grant, ch_credential := Some (pk_id c), ch_expires := now + CHALLENGE_TTL_MS\<rparr>"
    have ra: "r = Inr i" "a = putChallenge i ?e now (w_auth w)" using A_Granted(3) Inr by (auto simp: grant_authorization_def)
    have "t \<in> session_tokens (w_auth w)" using requireSession_Inr[OF Inr] t(1) by simp
    then have "pk_id c \<in> passkey_ids (w_auth w)" using c by blast
    moreover have "i \<notin> set (w_spent w)" using A_Granted(2,4) by (auto simp: fresh_token_def aw_ok_def spent_ok_def)
    ultimately have ok: "challenge_ok ?w (i, ?e)" using t(3,4) ra by (simp add: challenge_ok_def earned_def)
    show ?thesis
    proof (rule challenge_step[OF _ A_Granted(2) _ _ _ _ ok])
      show "moves {} {(i, ?e)} (w_auth w) (w_auth ?w)" using putChallenge_moves by (simp add: ra(2))
    qed (use verified in \<open>auto dest: removed_ceremony\<close>)
  qed
next
  case (A_Signed_In c cr gen w t now)
  show ?case
    by (rule token_step[OF _ A_Signed_In(2)]) (auto simp: signed_in_moves spends_same dest: removed_ceremony)
next
  case (A_Abandoned w p)
  then show ?case by (intro quiet_step) (auto simp: spends_same dest: removed_ceremony)
qed

lemma auth_step_aw_ok: "auth_step w w' \<Longrightarrow> aw_ok w \<Longrightarrow> aw_ok w'"
proof -
  assume s: "auth_step w w'" and ok: "aw_ok w"
  from auth_step_ok[OF s ok] obtain ts cs where "advances ts cs w w'" "\<forall>c \<in> cs. challenge_ok w' c"
    "\<forall>p \<in> set (w_open w'). p \<in> set (w_open w) \<or> ceremony_ok w' p" unfolding step_ok_def by blast
  then show ?thesis using aw_ok_advances[OF _ ok] by blast
qed

lemma auth_reach_ok: "auth_reach w \<Longrightarrow> aw_ok w"
proof (elim exE)
  fix ttl assume "auth_steps (new_world ttl) w"
  then show ?thesis
  proof (induction rule: rtranclp_induct)
    case base
    show ?case by (simp add: aw_ok_def new_world_def new_auth_def spent_ok_def)
  next
    case (step y z)
    then show ?case using auth_step_aw_ok by blast
  qed
qed

section \<open>After any number of steps\<close>

lemma auth_steps_after:
  assumes "auth_steps w w'" "aw_ok w"
  shows "aw_ok w' \<and> set (w_tokens w) \<subseteq> set (w_tokens w') \<and> a_generation (w_auth w) \<le> a_generation (w_auth w') \<and>
    set (w_tokens w) \<inter> session_tokens (w_auth w') \<subseteq> session_tokens (w_auth w) \<and>
    set (w_spent w) \<subseteq> set (w_spent w')"
  using assms
proof (induction rule: rtranclp_induct)
  case (step y z)
  then have y: "aw_ok y" "set (w_tokens w) \<subseteq> set (w_tokens y)" "a_generation (w_auth w) \<le> a_generation (w_auth y)"
    "set (w_tokens w) \<inter> session_tokens (w_auth y) \<subseteq> session_tokens (w_auth w)" "set (w_spent w) \<subseteq> set (w_spent y)" by blast+
  obtain ts cs where adv: "advances ts cs y z" using auth_step_ok[OF step(2) y(1)] unfolding step_ok_def by blast
  have "set (w_tokens y) \<subseteq> set (w_tokens z)" "set (w_spent y) \<subseteq> set (w_spent z)" using adv by (auto simp: advances_def spends_def)
  moreover have "set (w_tokens y) \<inter> session_tokens (w_auth z) \<subseteq> session_tokens (w_auth y)" using advances_session[OF adv] by blast
  ultimately show ?case using auth_step_aw_ok[OF step(2) y(1)] advances_generation[OF adv] y by (meson IntI IntE order_trans subsetD subsetI)
qed auto

section \<open>Passkeys\<close>

lemma calm_passkeys: "moves ts cs a b \<Longrightarrow> a_generation b = a_generation a \<Longrightarrow> passkey_ids a \<subseteq> passkey_ids b"
  by (auto simp: moves_def)

lemma keeps_generation:
  "a_generation (snd (verifySession t' now a)) = a_generation a" "a_generation (pruneExpiredSessions now a) = a_generation a"
  "a_generation (logout cr a) = a_generation a" "a_generation (snd (mintEnrollToken t now a)) = a_generation a"
  "a_generation (snd (issueSession t label now a)) = a_generation a" "a_generation (snd (reauth_options cr t action i ch now a)) = a_generation a"
  "a_generation (snd (login_options i ch now a)) = a_generation a" "a_generation (snd (enroll_options enroll session i ch now a)) = a_generation a"
  "a_generation (snd (signed_in cr gen c t now a)) = a_generation a"
  by (simp_all add: verifySession_def deleteSession_def pruneExpiredSessions_def logout_def mintEnrollToken_def createEnrollToken_def
      createEnrollRow_def issueSession_def createSession_def reauth_options_def login_options_def enroll_options_def signed_in_def Let_def
      split: sum.split)

lemma take_generation_eq:
  "takeChallenge i k now a = (r, b) \<Longrightarrow> a_generation b = a_generation a"
  "takeAuthorization cr g action now a = (r', b) \<Longrightarrow> a_generation b = a_generation a"
  by (metis snd_conv takeChallenge_keeps(1), metis snd_conv takeAuthorization_keeps(1))

lemma authorize_keeps_generation: "a_generation (snd (authorizeEnrollment t cr g now a)) = a_generation a"
  by (auto simp: authorizeEnrollment_def createEnrollToken_def createEnrollRow_def Let_def dest: take_generation_eq split: sum.split prod.split)

lemma begin_keeps_generation:
  "a_generation (snd (finishAuthentication cr i now a)) = a_generation a"
  "a_generation (snd (finishRegistration cr label now a)) = a_generation a"
  by (auto simp: finishAuthentication_def finishRegistration_def dest: take_generation_eq split: sum.split prod.split)

lemma reauth_keeps_generation: "a_generation (snd (finishReauthentication cr i now a)) = a_generation a"
  by (auto simp: finishReauthentication_def dest: take_generation_eq split: sum.split prod.split)

lemma enroll_keeps_generation: "a_generation (snd (beginRegistration cr enroll g now a)) = a_generation a"
  by (auto simp: beginRegistration_def dest: take_generation_eq split: sum.split prod.split option.split)

lemmas takes_keep_generation = authorize_keeps_generation begin_keeps_generation reauth_keeps_generation enroll_keeps_generation

lemma settles_keep_generation:
  "a_generation (snd (assertion_verified c gen use counter now a)) = a_generation a"
  "a_generation (snd (grant_authorization cr e c i now a)) = a_generation a"
  "a_generation (snd (registered cr e gen label answer t now a)) = a_generation a"
  by (simp_all add: assertion_verified_def bumpCredentialCounter_def grant_authorization_def registered_def Let_def insertCredential_def
      consumeEnrollToken_def keeps_generation split: option.split sum.split prod.split)

text \<open>Removing a passkey leaves the one that authorized it.\<close>

lemma removePasskey_keeps_one:
  assumes ok: "aw_ok w" and some: "passkey_ids (w_auth w) \<noteq> {}"
  shows "passkey_ids (snd (removePasskey cr g i now (w_auth w))) \<noteq> {}"
proof -
  obtain r b where rb: "takeAuthorization cr g Remove_Passkey now (w_auth w) = (r, b)" by fastforce
  have same: "a_passkeys b = a_passkeys (w_auth w)" using takeAuthorization_keeps(3)[of cr g Remove_Passkey now "w_auth w"] rb by simp
  show ?thesis
  proof (cases r)
    case (Inl x)
    then show ?thesis using rb same some by (simp add: removePasskey_def)
  next
    case (Inr e)
    then have "takeAuthorization cr g Remove_Passkey now (w_auth w) = (Inr e, b)" using rb by simp
    from takeAuthorization_Inr[OF this] have e: "(g, e) \<in> set (a_challenges (w_auth w))" "ch_kind e = K_Grant" by blast+
    then have "challenge_ok w (g, e)" using ok unfolding aw_ok_def by blast
    then obtain c where c: "ch_credential e = Some c" "c \<in> passkey_ids (w_auth w)" using e(2) by (auto simp: challenge_ok_def)
    show ?thesis
    proof (cases "ch_credential e = Some i \<or> i \<notin> passkey_ids b")
      case True
      then have "snd (removePasskey cr g i now (w_auth w)) = b" using rb Inr by (auto simp: removePasskey_def deleteCredential_def)
      then show ?thesis using same some by simp
    next
      case False
      then have "snd (removePasskey cr g i now (w_auth w)) = revokeSessions (b\<lparr>a_passkeys := filter (\<lambda>c. pk_id c \<noteq> i) (a_passkeys b)\<rparr>)"
        using rb Inr by (simp add: removePasskey_def deleteCredential_def)
      moreover have "c \<in> pk_id ` set (filter (\<lambda>c. pk_id c \<noteq> i) (a_passkeys b))" using c False same by auto
      ultimately show ?thesis by (auto simp: revokeSessions_def revokeRows_def)
    qed
  qed
qed

lemma auth_step_generation:
  "auth_step w w' \<Longrightarrow> (\<exists>cr g now. w_auth w' = snd (logoutAll cr g now (w_auth w))) \<or> (\<exists>cr g i now. w_auth w' = snd (removePasskey cr g i now (w_auth w))) \<or>
     a_generation (w_auth w') = a_generation (w_auth w)"
proof (induction rule: auth_step.induct)
  case (A_Begin_Reauth cr action now w r a)
  then have "a = snd (beginReauthentication cr action now (w_auth w))" by simp
  then show ?case by (simp add: takes_keep_generation settles_keep_generation beginReauthentication_def beginAuthentication_def)
next
  case (A_Finish_Reauth cr i now w r a)
  then have "a = snd (finishReauthentication cr i now (w_auth w))" by simp
  then show ?case by (simp add: takes_keep_generation settles_keep_generation beginReauthentication_def beginAuthentication_def)
next
  case (A_Begin_Login w r a)
  then have "a = snd (beginAuthentication (w_auth w))" by simp
  then show ?case by (simp add: takes_keep_generation settles_keep_generation beginReauthentication_def beginAuthentication_def)
next
  case (A_Finish_Login cr i now w r a)
  then have "a = snd (finishAuthentication cr i now (w_auth w))" by simp
  then show ?case by (simp add: takes_keep_generation settles_keep_generation beginReauthentication_def beginAuthentication_def)
next
  case (A_Begin_Enroll cr enroll g now w r a)
  then have "a = snd (beginRegistration cr enroll g now (w_auth w))" by simp
  then show ?case by (simp add: takes_keep_generation settles_keep_generation beginReauthentication_def beginAuthentication_def)
next
  case (A_Finish_Enroll cr label now w r a)
  then have "a = snd (finishRegistration cr label now (w_auth w))" by simp
  then show ?case by (simp add: takes_keep_generation settles_keep_generation beginReauthentication_def beginAuthentication_def)
next
  case (A_Asserted c gen use w counter now r a)
  then have "a = snd (assertion_verified c gen use counter now (w_auth w))" by simp
  then show ?case by (simp add: takes_keep_generation settles_keep_generation beginReauthentication_def beginAuthentication_def)
next
  case (A_Granted c cr e w i now r a)
  then have "a = snd (grant_authorization cr e c i now (w_auth w))" by simp
  then show ?case by (simp add: takes_keep_generation settles_keep_generation beginReauthentication_def beginAuthentication_def)
next
  case (A_Logout_All w cr g now)
  show ?case by (intro disjI1 exI[of _ cr] exI[of _ g] exI[of _ now]) simp
next
  case (A_Remove w cr g now i)
  show ?case by (intro disjI2 disjI1 exI[of _ cr] exI[of _ g] exI[of _ i] exI[of _ now]) simp
qed (simp_all add: keeps_generation takes_keep_generation settles_keep_generation)

lemma auth_step_keeps_one:
  assumes "auth_step w w'" "aw_ok w" "passkey_ids (w_auth w) \<noteq> {}"
  shows "passkey_ids (w_auth w') \<noteq> {}"
  using auth_step_generation[OF assms(1)]
proof (elim disjE exE)
  fix cr g i now assume "w_auth w' = snd (removePasskey cr g i now (w_auth w))"
  then show ?thesis using removePasskey_keeps_one[OF assms(2,3)] by simp
next
  fix cr g now assume w': "w_auth w' = snd (logoutAll cr g now (w_auth w))"
  have "a_passkeys (snd (logoutAll cr g now (w_auth w))) = a_passkeys (w_auth w)"
    using takeAuthorization_keeps(3)[of cr g Revoke_Sessions now "w_auth w"]
    by (cases "takeAuthorization cr g Revoke_Sessions now (w_auth w)") (simp add: logoutAll_def revokeSessions_def revokeRows_def split: sum.split)
  with w' assms(3) show ?thesis by simp
next
  assume same: "a_generation (w_auth w') = a_generation (w_auth w)"
  obtain ts cs where "moves ts cs (w_auth w) (w_auth w')" using auth_step_ok[OF assms(1,2)] unfolding step_ok_def advances_def by (elim exE conjE)
  from calm_passkeys[OF this same] assms(3) show ?thesis by (metis subset_empty)
qed

end
