(* ===== verification/Auth_Properties.thy ===== *)
theory Auth_Properties
  imports Auth_Laws
begin

text \<open>
  What sign-in guarantees over every interleaving of requests and ceremonies, with a run in
  which the owner enrolls a passkey and verifies it to sign every device out.
\<close>

section \<open>A run\<close>

definition nobody :: auth_credentials where "nobody = \<lparr>ac_session = None, ac_challenge = None\<rparr>"

definition at_challenge :: "string option \<Rightarrow> string \<Rightarrow> auth_credentials" where
  "at_challenge s c = \<lparr>ac_session = s, ac_challenge = Some c\<rparr>"

definition owner :: auth_credentials where "owner = \<lparr>ac_session = Some ''s'', ac_challenge = None\<rparr>"

text \<open>The states of the run, each written out.\<close>

definition run_world :: "passkey list \<Rightarrow> auth_session list \<Rightarrow> enroll_row list \<Rightarrow> (string \<times> challenge_entry) list \<Rightarrow> ceremony list \<Rightarrow>
    string list \<Rightarrow> (string \<times> string \<times> auth_action \<times> string) list \<Rightarrow> auth_world" where
  "run_world ps ss es cs open tokens verified = \<lparr>w_auth = \<lparr>a_ttl = 1000000, a_passkeys = ps, a_sessions = ss, a_enroll = es, a_challenges = cs, a_generation = 0\<rparr>,
     w_open = open, w_tokens = tokens, w_verified = verified, w_spent = []\<rparr>"

definition run_link :: "int option \<Rightarrow> enroll_row" where
  "run_link used = \<lparr>er_token = ''m'', er_expires = 900000, er_used = used, er_session = None\<rparr>"

definition run_passkey :: passkey where
  "run_passkey = \<lparr>pk_id = ''k'', pk_key = ''pub'', pk_counter = 0, pk_transports = None, pk_label = None, pk_created = 4, pk_used = Some 4\<rparr>"

definition run_session :: auth_session where
  "run_session = \<lparr>as_token = ''s'', as_created = 4, as_expires = 1000004, as_label = None\<rparr>"

definition reg_entry :: challenge_entry where "reg_entry = new_challenge K_Reg ''x'' 2 (Some ''m'') None None"

definition reauth_entry :: challenge_entry where
  "reauth_entry = new_challenge K_Reauth ''y'' 6 None (Some ''s'') (Some Revoke_Sessions)"

definition grant_entry :: challenge_entry where
  "grant_entry = reauth_entry\<lparr>ch_kind := K_Grant, ch_credential := Some ''k'', ch_expires := 9 + CHALLENGE_TTL_MS\<rparr>"

definition run_registration :: ceremony where
  "run_registration = Registration (at_challenge None ''c'') reg_entry 0 None"

definition run_use :: assertion_use where "run_use = For_Grant (at_challenge (Some ''s'') ''d'') reauth_entry"

definition run_minted :: auth_world where "run_minted = run_world [] [] [run_link None] [] [] [''m''] []"

definition run_offered :: auth_world where
  "run_offered = run_world [] [] [run_link None] [] [Enroll_Options (Some ''m'') None] [''m''] []"

definition run_challenged :: auth_world where
  "run_challenged = run_world [] [] [run_link None] [(''c'', reg_entry)] [] [''c'', ''m''] []"

definition run_answered :: auth_world where
  "run_answered = run_world [] [] [run_link None] [] [run_registration] [''c'', ''m''] []"

definition run_enrolled :: auth_world where
  "run_enrolled = run_world [run_passkey] [run_session] [run_link (Some 4)] [] [] [''s'', ''c'', ''m''] []"

definition run_reauth :: auth_world where
  "run_reauth = run_world [run_passkey] [run_session] [run_link (Some 4)] [] [Reauth_Options owner ''s'' Revoke_Sessions] [''s'', ''c'', ''m''] []"

definition run_reauth_offered :: auth_world where
  "run_reauth_offered = run_world [run_passkey] [run_session] [run_link (Some 4)] [(''d'', reauth_entry)] [] [''d'', ''s'', ''c'', ''m''] []"

definition run_asserting :: auth_world where
  "run_asserting = run_world [run_passkey] [run_session] [run_link (Some 4)] [] [Assertion run_passkey 0 run_use] [''d'', ''s'', ''c'', ''m''] []"

definition run_asserted :: auth_world where
  "run_asserted = run_world [run_passkey\<lparr>pk_counter := 1, pk_used := Some 8\<rparr>] [run_session] [run_link (Some 4)] []
     [Asserted run_passkey run_use] [''d'', ''s'', ''c'', ''m''] []"

definition run_granted :: auth_world where
  "run_granted = run_world [run_passkey\<lparr>pk_counter := 1, pk_used := Some 8\<rparr>] [run_session] [run_link (Some 4)] [(''g'', grant_entry)] []
     [''g'', ''d'', ''s'', ''c'', ''m''] [(''g'', ''s'', Revoke_Sessions, ''k'')]"

definition run_revoked :: auth_world where
  "run_revoked = run_granted\<lparr>w_auth := snd (logoutAll owner ''g'' 10 (w_auth run_granted)), w_spent := spend owner ''g'' Revoke_Sessions 10 run_granted\<rparr>"

text \<open>Each step, checked by evaluating the operation.\<close>

lemma run_minted_step: "auth_step (new_world 1000000) run_minted"
proof -
  have "run_minted = (new_world 1000000)\<lparr>w_auth := snd (mintEnrollToken ''m'' 0 (w_auth (new_world 1000000))), w_tokens := ''m'' # w_tokens (new_world 1000000)\<rparr>"
    by code_simp
  moreover have "fresh_token ''m'' (new_world 1000000)" by code_simp
  ultimately show ?thesis using A_Mint by metis
qed

lemma run_offered_step: "auth_step run_minted run_offered"
proof -
  have "beginRegistration nobody (Some ''m'') None 1 (w_auth run_minted) = (Inr (Enroll_Options (Some ''m'') None), w_auth run_offered)" by code_simp
  from A_Begin_Enroll[OF this] show ?thesis
    by (simp add: given_def run_minted_def run_offered_def run_world_def opened_def)
qed

lemma run_challenged_step: "auth_step run_offered run_challenged"
proof -
  have "w_auth run_challenged = snd (enroll_options (Some ''m'') None ''c'' ''x'' 2 (w_auth run_offered))" by code_simp
  moreover have "Enroll_Options (Some ''m'') None \<in> set (w_open run_offered)" "fresh_token ''c'' run_offered" by code_simp+
  then have "auth_step run_offered (run_offered\<lparr>w_auth := snd (enroll_options (Some ''m'') None ''c'' ''x'' 2 (w_auth run_offered)),
      w_tokens := ''c'' # w_tokens run_offered, w_open := remove1 (Enroll_Options (Some ''m'') None) (w_open run_offered)\<rparr>)"
    by (rule A_Enroll_Options)
  ultimately show ?thesis by (simp add: run_offered_def run_challenged_def run_world_def)
qed

lemma run_answered_step: "auth_step run_challenged run_answered"
proof -
  have "finishRegistration (at_challenge None ''c'') None 3 (w_auth run_challenged) = (Inr run_registration, w_auth run_answered)" by code_simp
  from A_Finish_Enroll[OF this] show ?thesis by (simp add: run_challenged_def run_answered_def run_world_def opened_def)
qed

lemma run_enrolled_step: "auth_step run_answered run_enrolled"
proof -
  have "w_auth run_enrolled = snd (registered (at_challenge None ''c'') reg_entry 0 None (Some (''k'', ''pub'', 0, None)) ''s'' 4 (w_auth run_answered))"
    by code_simp
  moreover have "Registration (at_challenge None ''c'') reg_entry 0 None \<in> set (w_open run_answered)" "fresh_token ''s'' run_answered" by code_simp+
  then have "auth_step run_answered (run_answered\<lparr>w_auth := snd (registered (at_challenge None ''c'') reg_entry 0 None (Some (''k'', ''pub'', 0, None)) ''s'' 4 (w_auth run_answered)),
      w_tokens := ''s'' # w_tokens run_answered, w_open := remove1 (Registration (at_challenge None ''c'') reg_entry 0 None) (w_open run_answered)\<rparr>)"
    by (rule A_Registered)
  ultimately show ?thesis by (simp add: run_answered_def run_enrolled_def run_world_def run_registration_def)
qed

lemma run_enrolled_reach: "auth_reach run_enrolled"
proof -
  have "auth_steps (new_world 1000000) run_enrolled"
    using run_minted_step run_offered_step run_challenged_step run_answered_step run_enrolled_step
    by (meson converse_rtranclp_into_rtranclp rtranclp.rtrancl_refl)
  then show ?thesis by blast
qed

lemma run_reauth_step: "auth_step run_enrolled run_reauth"
proof -
  have "beginReauthentication owner Revoke_Sessions 5 (w_auth run_enrolled) = (Inr (Reauth_Options owner ''s'' Revoke_Sessions), w_auth run_reauth)" by code_simp
  from A_Begin_Reauth[OF this] show ?thesis by (simp add: run_enrolled_def run_reauth_def run_world_def opened_def)
qed

lemma run_reauth_offered_step: "auth_step run_reauth run_reauth_offered"
proof -
  have "w_auth run_reauth_offered = snd (reauth_options owner ''s'' Revoke_Sessions ''d'' ''y'' 6 (w_auth run_reauth))" by code_simp
  moreover have "Reauth_Options owner ''s'' Revoke_Sessions \<in> set (w_open run_reauth)" "fresh_token ''d'' run_reauth" by code_simp+
  then have "auth_step run_reauth (run_reauth\<lparr>w_auth := snd (reauth_options owner ''s'' Revoke_Sessions ''d'' ''y'' 6 (w_auth run_reauth)),
      w_tokens := ''d'' # w_tokens run_reauth, w_open := remove1 (Reauth_Options owner ''s'' Revoke_Sessions) (w_open run_reauth)\<rparr>)"
    by (rule A_Reauth_Options)
  ultimately show ?thesis by (simp add: run_reauth_def run_reauth_offered_def run_world_def)
qed

lemma run_asserting_step: "auth_step run_reauth_offered run_asserting"
proof -
  have "finishReauthentication (at_challenge (Some ''s'') ''d'') ''k'' 7 (w_auth run_reauth_offered) = (Inr (Assertion run_passkey 0 run_use), w_auth run_asserting)"
    by code_simp
  from A_Finish_Reauth[OF this] show ?thesis by (simp add: run_reauth_offered_def run_asserting_def run_world_def opened_def)
qed

lemma run_asserted_step: "auth_step run_asserting run_asserted"
proof -
  have "Assertion run_passkey 0 run_use \<in> set (w_open run_asserting)" by code_simp
  moreover have "assertion_verified run_passkey 0 run_use (Some 1) 8 (w_auth run_asserting) = (Inr (Asserted run_passkey run_use), w_auth run_asserted)" by code_simp
  ultimately have "auth_step run_asserting (run_asserting\<lparr>w_auth := w_auth run_asserted,
      w_open := opened (Inr (Asserted run_passkey run_use)) (remove1 (Assertion run_passkey 0 run_use) (w_open run_asserting))\<rparr>)"
    by (rule A_Asserted)
  then show ?thesis by (simp add: run_asserting_def run_asserted_def run_world_def opened_def)
qed

lemma run_granted_step: "auth_step run_asserted run_granted"
proof -
  have "Asserted run_passkey (For_Grant (at_challenge (Some ''s'') ''d'') reauth_entry) \<in> set (w_open run_asserted)" "fresh_token ''g'' run_asserted" by code_simp+
  moreover have "grant_authorization (at_challenge (Some ''s'') ''d'') reauth_entry run_passkey ''g'' 9 (w_auth run_asserted) = (Inr ''g'', w_auth run_granted)" by code_simp
  ultimately have "auth_step run_asserted (run_asserted\<lparr>w_auth := w_auth run_granted, w_tokens := ''g'' # w_tokens run_asserted,
      w_verified := earned (Inr ''g'') reauth_entry run_passkey run_asserted,
      w_open := remove1 (Asserted run_passkey (For_Grant (at_challenge (Some ''s'') ''d'') reauth_entry)) (w_open run_asserted)\<rparr>)"
    by (rule A_Granted)
  moreover have "earned (Inr ''g'') reauth_entry run_passkey run_asserted = w_verified run_granted" by code_simp
  ultimately show ?thesis by (simp add: run_asserted_def run_granted_def run_world_def run_use_def)
qed

lemma run_granted_steps: "auth_steps run_enrolled run_granted"
  using run_reauth_step run_reauth_offered_step run_asserting_step run_asserted_step run_granted_step
  by (meson converse_rtranclp_into_rtranclp rtranclp.rtrancl_refl)

lemma run_granted_reach: "auth_reach run_granted"
  using run_enrolled_reach run_granted_steps rtranclp_trans by metis

section \<open>Sensitive actions\<close>



section \<open>Revocation\<close>

text \<open>
  A ceremony is refused when its end fails and changes nothing, whatever the passkey library
  answers. Fetching login or enrollment options grants nothing.
\<close>

fun refused :: "ceremony \<Rightarrow> auth \<Rightarrow> bool" where
  "refused (Reauth_Options cr t action) a \<longleftrightarrow> (\<forall>i ch now. \<exists>err. reauth_options cr t action i ch now a = (Inl err, a))"
| "refused Login_Options a \<longleftrightarrow> True"
| "refused (Enroll_Options enroll session) a \<longleftrightarrow> True"
| "refused (Registration cr e gen label) a \<longleftrightarrow> (\<forall>answer t now. \<exists>err. registered cr e gen label answer t now a = (Inl err, a))"
| "refused (Assertion c gen use) a \<longleftrightarrow> (\<forall>counter now. \<exists>err. assertion_verified c gen use counter now a = (Inl err, a))"
| "refused (Asserted c (For_Grant cr e)) a \<longleftrightarrow> (\<forall>i now. \<exists>err. grant_authorization cr e c i now a = (Inl err, a))"
| "refused (Asserted c (For_Login cr gen)) a \<longleftrightarrow> (\<forall>t now. \<exists>err. signed_in cr gen c t now a = (Inl err, a))"

lemma no_session_refused:
  "ac_session cr = Some t \<Longrightarrow> t \<notin> session_tokens a \<Longrightarrow> \<exists>err. requireSession cr now a = Inl err"
  using requireSession_Inr[of cr now a] by (cases "requireSession cr now a") auto

lemma stale_refused:
  assumes ok: "ceremony_ok w p" and gen: "a_generation (w_auth w) < a_generation a" and gone: "set (w_tokens w) \<inter> session_tokens a = {}"
  shows "refused p a"
proof (cases p)
  case (Reauth_Options cr t action)
  then have "\<exists>err. requireSession cr now a = Inl err" for now using ok gone by (intro no_session_refused) auto
  then show ?thesis unfolding Reauth_Options refused.simps reauth_options_def by (metis (no_types, lifting) sum.case(1))
next
  case (Registration cr e g label)
  then have "\<not> enrollment_authorized cr e g now a" for now using ok gen by (simp add: enrollment_authorized_def)
  then show ?thesis unfolding Registration by (auto simp: registered_def split: option.split)
next
  case (Assertion c g use)
  then show ?thesis using ok gen by (auto simp: assertion_verified_def split: option.split)
next
  case (Asserted c use)
  show ?thesis
  proof (cases use)
    case (For_Grant cr e)
    then have "\<exists>err. requireSession cr now a = Inl err" for now using ok Asserted gone by (auto intro: no_session_refused)
    then show ?thesis unfolding Asserted For_Grant refused.simps grant_authorization_def by (metis (no_types, lifting) sum.case(1))
  next
    case (For_Login cr g)
    then show ?thesis using ok gen Asserted by (simp add: signed_in_def)
  qed
qed simp_all

lemma revoked_state:
  assumes "logoutAll cr g now a = (Inr (), b) \<or> removePasskey cr g i now a = (Inr (), b)"
  shows "a_sessions b = [] \<and> a_enroll b = [] \<and> a_challenges b = [] \<and> a_generation b = Suc (a_generation a)"
proof -
  have rev: "a_sessions (revokeSessions d) = [] \<and> a_enroll (revokeSessions d) = [] \<and> a_challenges (revokeSessions d) = [] \<and>
      a_generation (revokeSessions d) = Suc (a_generation d)" for d
    by (simp add: revokeSessions_def revokeRows_def)
  have "\<exists>d. b = revokeSessions d \<and> a_generation d = a_generation a"
    using assms by (auto simp: logoutAll_def removePasskey_def deleteCredential_def dest!: take_generation_eq(2)
        split: sum.splits prod.splits if_splits bool.splits)
  then show ?thesis using rev by metis
qed



section \<open>The owner keeps access\<close>

text \<open>
  C27. Once a passkey is enrolled there is always one: no sequence of requests, removals
  included, leaves the owner without a passkey to sign in with.
\<close>

theorem never_locked_out:
  assumes "auth_reach w" and "a_passkeys (w_auth w) \<noteq> []" and "auth_steps w w'"
  shows "a_passkeys (w_auth w') \<noteq> []"
  using assms(3)
proof (induction rule: rtranclp_induct)
  case base
  show ?case using assms(2) .
next
  case (step y z)
  have "aw_ok y" using auth_steps_after[OF step(1) auth_reach_ok[OF assms(1)]] by blast
  then have "passkey_ids (w_auth z) \<noteq> {}" using auth_step_keeps_one[OF step(2)] step(3) by simp
  then show ?case by auto
qed

lemma never_locked_out_witness: "a_passkeys (w_auth run_granted) \<noteq> []"
proof -
  have "a_passkeys (w_auth run_enrolled) \<noteq> []" by code_simp
  from never_locked_out[OF run_enrolled_reach this run_granted_steps] show ?thesis .
qed

text \<open>
  Anonymous callers cannot grow the server's memory: whatever ceremonies they begin, at
  most \<open>MAX_CHALLENGES\<close> challenges are kept.
\<close>

theorem challenges_bounded:
  assumes "auth_reach w"
  shows "length (a_challenges (w_auth w)) \<le> MAX_CHALLENGES"
  using auth_reach_ok[OF assms] by (simp add: aw_ok_def)

lemma challenges_bounded_witness: "length (a_challenges (w_auth run_granted)) \<le> MAX_CHALLENGES"
  by (rule challenges_bounded[OF run_granted_reach])

end
