(* ===== verification/Terminals.thy ===== *)
theory Terminals
  imports Task_Data
begin

text \<open>
  Terminals (modules/terminals): the registry that the server, the CLI and the shell hosts
  share, and the server's service over it. A method that awaits the supervisor or a launch is
  split there; what it still has to do is a value of \<open>twait\<close>. Random ids, the clock, the
  file system and the tasks and Spaces of other modules are arguments.
\<close>

section \<open>Data\<close>

datatype term_state = Starting | Running_Shell | Closing | Exited | Lost_Shell

datatype start_error = Services_Unavailable | Launch_Unconfirmed | Startup_Timeout | Host_Exited | Initialization_Failed

definition TERMINAL_PROTOCOL :: nat where "TERMINAL_PROTOCOL = 1"
definition TERMINAL_STARTUP_TIMEOUT_MS :: int where "TERMINAL_STARTUP_TIMEOUT_MS = 30000"

record terminal =
  t_id :: string
  t_task :: "string option"
  t_repo :: string
  t_title :: string
  t_cwd :: string
  t_state :: term_state
  t_created :: int
  t_exit :: "int option"
  t_protocol :: nat
  t_error :: "string option"
  t_code :: "start_error option"
  t_diag :: bool
  t_diagFailed :: bool
  t_request :: string
  t_release :: string
  t_node :: string
  t_dir :: string
  t_cols :: int
  t_rows :: int
  t_pid :: "nat option"
  t_ident :: "string option"

text \<open>What a reservation gives: the record without its id, state, protocol and time.\<close>

record terminal_input =
  ti_request :: string
  ti_task :: "string option"
  ti_repo :: string
  ti_title :: string
  ti_cwd :: string
  ti_cols :: int
  ti_rows :: int
  ti_release :: string
  ti_node :: string
  ti_dir :: string
  ti_diag :: bool

definition active :: "terminal \<Rightarrow> bool" where
  "active t \<longleftrightarrow> t_state t = Starting \<or> t_state t = Running_Shell \<or> t_state t = Closing"

record public_terminal =
  pt_id :: string
  pt_task :: "string option"
  pt_repo :: string
  pt_title :: string
  pt_cwd :: string
  pt_state :: term_state
  pt_created :: int
  pt_exit :: "int option"
  pt_protocol :: nat
  pt_error :: "string option"
  pt_code :: "start_error option"

definition publicTerminal :: "terminal \<Rightarrow> public_terminal" where
  "publicTerminal t = \<lparr>pt_id = t_id t, pt_task = t_task t, pt_repo = t_repo t, pt_title = t_title t, pt_cwd = t_cwd t, pt_state = t_state t,
     pt_created = t_created t, pt_exit = t_exit t, pt_protocol = t_protocol t, pt_error = t_error t, pt_code = t_code t\<rparr>"

text \<open>The tables in row order; a directory pending cleanup with its task.\<close>

record registry =
  r_terms :: "terminal list"
  r_cleanup :: "(string \<times> string) list"

definition empty_registry :: registry where "empty_registry = \<lparr>r_terms = [], r_cleanup = []\<rparr>"

text \<open>\<open>d_link\<close> resolves symbolic links; the entries are real paths, directories or not.\<close>

record disk =
  d_link :: "string \<Rightarrow> string"
  d_entries :: "(string \<times> bool) list"

definition realpath :: "disk \<Rightarrow> string \<Rightarrow> (string \<times> bool) option" where
  "realpath d p = map_option (\<lambda>dir. (d_link d p, dir)) (map_of (d_entries d) (d_link d p))"

section \<open>The registry\<close>

definition list_terminals :: "registry \<Rightarrow> terminal list" where "list_terminals r = rev (r_terms r)"

definition find_terminal :: "string \<Rightarrow> registry \<Rightarrow> terminal option" where
  "find_terminal i r = find (\<lambda>t. t_id t = i) (r_terms r)"

definition new_terminal :: "string \<Rightarrow> int \<Rightarrow> string \<Rightarrow> terminal_input \<Rightarrow> terminal" where
  "new_terminal i now cwd x = \<lparr>t_id = i, t_task = ti_task x, t_repo = ti_repo x, t_title = ti_title x, t_cwd = cwd, t_state = Starting,
     t_created = now, t_exit = None, t_protocol = TERMINAL_PROTOCOL, t_error = None, t_code = None, t_diag = ti_diag x, t_diagFailed = False,
     t_request = ti_request x, t_release = ti_release x, t_node = ti_node x, t_dir = ti_dir x, t_cols = ti_cols x, t_rows = ti_rows x,
     t_pid = None, t_ident = None\<rparr>"

definition occupied_terminals :: "bool \<Rightarrow> registry \<Rightarrow> terminal list" where
  "occupied_terminals diag r = filter (\<lambda>t. active t \<and> t_diag t = diag) (list_terminals r)"

definition reserve_terminal :: "string \<Rightarrow> int \<Rightarrow> disk \<Rightarrow> terminal_input \<Rightarrow> registry \<Rightarrow> (terminal \<times> bool) result \<times> registry" where
  "reserve_terminal i now d x r = (case find (\<lambda>t. t_request t = ti_request x) (list_terminals r) of
      Some t \<Rightarrow> (if t_task t \<noteq> ti_task x \<or> t_repo t \<noteq> ti_repo x then Inl (Js_Error ''Creation request already belongs to another target'')
         else Inr (t, False), r)
    | None \<Rightarrow>
        if ti_diag x \<and> occupied_terminals True r \<noteq> [] then (Inl (Js_Error ''A terminal diagnostic is already active''), r)
        else if \<not> ti_diag x \<and> 16 \<le> length (occupied_terminals False r)
        then (Inl (Js_Error ''Close an existing terminal before opening another (limit: 16)''), r)
        else (case realpath d (ti_cwd x) of
            None \<Rightarrow> (Inl (Js_Error ''ENOENT''), r)
          | Some (cwd, dir) \<Rightarrow>
              if \<not> dir then (Inl (Js_Error ''Working directory is unavailable''), r)
              else if cwd \<in> fst ` set (r_cleanup r) then (Inl (Js_Error ''Working directory is pending cleanup''), r)
              else let t = new_terminal i now cwd x in (Inr (t, True), r\<lparr>r_terms := r_terms r @ [t]\<rparr>)))"

definition on_terminal :: "string \<Rightarrow> (terminal \<Rightarrow> terminal) \<Rightarrow> registry \<Rightarrow> registry" where
  "on_terminal i f r = r\<lparr>r_terms := map (\<lambda>t. if t_id t = i then f t else t) (r_terms r)\<rparr>"

definition update_terminal :: "string \<Rightarrow> (terminal \<Rightarrow> terminal) \<Rightarrow> registry \<Rightarrow> terminal result \<times> registry" where
  "update_terminal i f r = (case find_terminal i r of
      None \<Rightarrow> (Inl (Js_Error ''Terminal not found''), r)
    | Some t \<Rightarrow> (Inr (f t), on_terminal i f r))"

definition claimable :: "terminal \<Rightarrow> bool" where
  "claimable t \<longleftrightarrow> t_state t = Starting \<and> t_pid t = None \<and> t_code t \<noteq> Some Startup_Timeout"

definition claim_terminal :: "string \<Rightarrow> nat \<Rightarrow> string \<Rightarrow> registry \<Rightarrow> bool \<times> registry" where
  "claim_terminal i pid ident r = (case find_terminal i r of
      None \<Rightarrow> (False, r)
    | Some t \<Rightarrow> if \<not> claimable t then (False, r) else (True, on_terminal i (\<lambda>t. t\<lparr>t_pid := Some pid, t_ident := Some ident\<rparr>) r))"

definition expireStartup :: "string \<Rightarrow> int \<Rightarrow> registry \<Rightarrow> bool \<times> registry" where
  "expireStartup i now r = (case find_terminal i r of
      None \<Rightarrow> (False, r)
    | Some t \<Rightarrow>
        if t_state t \<noteq> Starting \<and> t_state t \<noteq> Closing then (False, r)
        else if t_code t = Some Startup_Timeout then (True, r)
        else if t_state t \<noteq> Starting \<or> now - t_created t < TERMINAL_STARTUP_TIMEOUT_MS then (False, r)
        else (True, on_terminal i (\<lambda>t. t\<lparr>t_code := Some Startup_Timeout,
          t_error := Some ''Shell startup timed out. Termination is being confirmed; open a new terminal after it stops.''\<rparr>) r))"

definition ready_terminal :: "string \<Rightarrow> nat \<Rightarrow> string \<Rightarrow> int \<Rightarrow> registry \<Rightarrow> bool \<times> registry" where
  "ready_terminal i pid ident now r = (case find_terminal i r of
      None \<Rightarrow> (False, r)
    | Some t \<Rightarrow>
        if t_state t \<noteq> Starting \<or> t_pid t \<noteq> Some pid \<or> t_ident t \<noteq> Some ident \<or> t_code t = Some Startup_Timeout then (False, r)
        else (case expireStartup i now r of
            (True, r) \<Rightarrow> (False, r)
          | (False, r) \<Rightarrow> (True, on_terminal i (\<lambda>t. t\<lparr>t_state := Running_Shell, t_error := None, t_code := None\<rparr>) r)))"

definition noteStartError :: "string \<Rightarrow> start_error \<Rightarrow> string \<Rightarrow> registry \<Rightarrow> registry" where
  "noteStartError i code msg r = (case find_terminal i r of
      None \<Rightarrow> r
    | Some t \<Rightarrow>
        if t_state t = Starting \<and> t_code t \<noteq> Some Startup_Timeout
        then on_terminal i (\<lambda>t. t\<lparr>t_code := Some code, t_error := Some msg\<rparr>) r else r)"

definition removeDiagnostic :: "string \<Rightarrow> registry \<Rightarrow> unit result \<times> registry" where
  "removeDiagnostic i r = (case find_terminal i r of
      None \<Rightarrow> (Inl (Js_Error ''Diagnostic shell termination must be confirmed before cleanup''), r)
    | Some t \<Rightarrow>
        if \<not> t_diag t \<or> active t then (Inl (Js_Error ''Diagnostic shell termination must be confirmed before cleanup''), r)
        else (Inr (), r\<lparr>r_terms := filter (\<lambda>t. t_id t \<noteq> i) (r_terms r)\<rparr>))"

text \<open>\<open>remove\<close> deletes the directory.\<close>

definition cleanup :: "string \<Rightarrow> string \<Rightarrow> disk \<times> registry \<Rightarrow> bool \<times> disk \<times> registry" where
  "cleanup cwd task w = (let (d, r) = w; cwd = (case realpath d cwd of None \<Rightarrow> cwd | Some (p, _) \<Rightarrow> p) in
     if \<exists>t \<in> set (r_terms r). active t \<and> t_cwd t = cwd
     then (False, d, r\<lparr>r_cleanup := (cwd, task) # filter (\<lambda>c. fst c \<noteq> cwd) (r_cleanup r)\<rparr>)
     else (True, d\<lparr>d_entries := filter (\<lambda>e. fst e \<noteq> cwd) (d_entries d)\<rparr>, r\<lparr>r_cleanup := filter (\<lambda>c. fst c \<noteq> cwd) (r_cleanup r)\<rparr>))"

section \<open>The service\<close>

record capabilities =
  cap_available :: bool
  cap_persistent :: bool
  cap_reason :: "string option"

datatype terminal_target = To_Task string | To_Space string

record create_terminal_request =
  ct_request :: string
  ct_target :: terminal_target
  ct_title :: "string option"
  ct_cols :: int
  ct_rows :: int

text \<open>What the service asks of other modules: a task's status, Space and worktree; a Space's path; the resolved directory.\<close>

record terminal_targets =
  tt_task :: "string \<Rightarrow> (task_status \<times> string \<times> string option) result"
  tt_space :: "string \<Rightarrow> string option"
  tt_updating :: bool
  tt_resolve :: "string \<Rightarrow> string option"
  tt_release :: string
  tt_node :: string
  tt_dir :: string

definition listed :: "string option \<Rightarrow> string option \<Rightarrow> terminal \<Rightarrow> bool" where
  "listed task repo t \<longleftrightarrow> (\<not> t_diag t \<or> t_diagFailed t) \<and> (task = None \<or> task = Some [] \<or> t_task t = task) \<and>
     (repo = None \<or> repo = Some [] \<or> Some (t_repo t) = repo)"

definition service_list :: "string option \<Rightarrow> string option \<Rightarrow> registry \<Rightarrow> public_terminal list" where
  "service_list task repo r = map publicTerminal (filter (listed task repo) (list_terminals r))"

definition get_terminal :: "string \<Rightarrow> registry \<Rightarrow> terminal result" where
  "get_terminal i r = (case find_terminal i r of None \<Rightarrow> Inl (App_Error Not_Found ''Terminal not found'') | Some t \<Rightarrow> Inr t)"

definition same_target :: "terminal_target \<Rightarrow> terminal \<Rightarrow> bool" where
  "same_target x t = (case x of
      To_Task i \<Rightarrow> t_task t = Some i
    | To_Space p \<Rightarrow> t_repo t = p \<and> (t_task t = None \<or> t_task t = Some []))"

definition target_task :: "terminal_targets \<Rightarrow> terminal_target \<Rightarrow> (string \<times> task_status \<times> string \<times> string option) option result" where
  "target_task g x = (case x of To_Space _ \<Rightarrow> Inr None | To_Task i \<Rightarrow> map_sum id (\<lambda>t. Some (i, t)) (tt_task g i))"

text \<open>The flag says that the terminal is new and launched next.\<close>

definition create_terminal :: "terminal_targets \<Rightarrow> capabilities \<Rightarrow> string \<Rightarrow> int \<Rightarrow> disk \<Rightarrow> create_terminal_request \<Rightarrow> registry \<Rightarrow>
    (terminal \<times> bool) result \<times> registry" where
  "create_terminal g caps i now d x r = (
    if \<not> cap_available caps
    then (Inl (App_Error Service_Unavailable (case cap_reason caps of None \<Rightarrow> ''Terminals are unavailable on this platform'' | Some m \<Rightarrow> m)), r)
    else if tt_updating g then (Inl (App_Error Conflict ''Installation maintenance is in progress''), r)
    else case find (\<lambda>t. t_request t = ct_request x) (list_terminals r) of
      Some t \<Rightarrow> (if same_target (ct_target x) t then Inr (t, False) else Inl (App_Error Conflict ''Request belongs to another target''), r)
    | None \<Rightarrow> (case target_task g (ct_target x) of
        Inl e \<Rightarrow> (Inl e, r)
      | Inr task \<Rightarrow>
          if (case task of Some (_, st, _) \<Rightarrow> isClosedTaskStatus st | None \<Rightarrow> False)
          then (Inl (App_Error Conflict ''Open a terminal from an active task or its Space''), r)
          else let repo = (case task of Some (_, _, p, _) \<Rightarrow> p | None \<Rightarrow> (case ct_target x of To_Space p \<Rightarrow> p | To_Task _ \<Rightarrow> [])) in
            (case tt_space g repo of
               None \<Rightarrow> (Inl (App_Error Not_Found ''Space not found''), r)
             | Some path \<Rightarrow>
                 (case tt_resolve g (case task of Some (_, _, _, Some wt) \<Rightarrow> wt | _ \<Rightarrow> path) of
                    None \<Rightarrow> (Inl (App_Error Conflict ''Working directory is unavailable''), r)
                  | Some cwd \<Rightarrow>
                      (case reserve_terminal i now d \<lparr>ti_request = ct_request x, ti_task = map_option fst task, ti_repo = repo,
                            ti_title = (case ct_title x of None \<Rightarrow> ''Shell'' | Some t \<Rightarrow> t), ti_cwd = cwd, ti_cols = ct_cols x, ti_rows = ct_rows x,
                            ti_release = tt_release g, ti_node = tt_node g, ti_dir = tt_dir g, ti_diag = False\<rparr> r of
                         (Inl e, r) \<Rightarrow> (Inl (App_Error Conflict (error_message e)), r)
                       | (Inr res, r) \<Rightarrow> (Inr res, r))))))"

definition launch_failed :: "string \<Rightarrow> registry \<Rightarrow> registry" where
  "launch_failed i r = noteStartError i Launch_Unconfirmed
     ''Shell launch could not be confirmed. Palmagent will retry this terminal; check the installation's terminal service.'' r"

definition rename_terminal :: "string \<Rightarrow> string \<Rightarrow> registry \<Rightarrow> public_terminal result \<times> registry" where
  "rename_terminal i name r = (case get_terminal i r of
      Inl e \<Rightarrow> (Inl e, r)
    | Inr _ \<Rightarrow> apfst (map_sum id publicTerminal) (update_terminal i (\<lambda>t. t\<lparr>t_title := name\<rparr>) r))"

text \<open>What a request or the reconciliation waits for: a confirmed stop, a launch, or whether a host is alive.\<close>

datatype twait = Stop_Asked string | Stop_Expired string | Launching string | Start_Check string | Alive_Check string

definition terminate_begin :: "string \<Rightarrow> registry \<Rightarrow> (public_terminal + twait) result \<times> registry" where
  "terminate_begin i r = (case get_terminal i r of
      Inl e \<Rightarrow> (Inl e, r)
    | Inr t \<Rightarrow>
        if t_state t = Exited \<or> t_state t = Lost_Shell then (Inr (Inl (publicTerminal t)), r)
        else (Inr (Inr (Stop_Asked i)), on_terminal i (\<lambda>t. t\<lparr>t_state := Closing\<rparr>) r))"

definition stop_asked_done :: "string \<Rightarrow> registry \<Rightarrow> registry" where
  "stop_asked_done i r = on_terminal i (\<lambda>t. t\<lparr>t_state := Exited\<rparr>) r"

text \<open>One terminal of a reconciliation, \<open>t\<close> being its record when the reconciliation began.\<close>

definition reconcile_terminal :: "capabilities \<Rightarrow> int \<Rightarrow> terminal \<Rightarrow> registry \<Rightarrow> twait option \<times> registry" where
  "reconcile_terminal caps now t r = (case expireStartup (t_id t) now r of
      (True, r) \<Rightarrow> (Some (Stop_Expired (t_id t)), r)
    | (False, r) \<Rightarrow>
        if t_state t = Starting then
          (if t_pid t \<noteq> None then (Some (Start_Check (t_id t)), r)
           else if cap_available caps then (Some (Launching (t_id t)), r)
           else (None, noteStartError (t_id t) Services_Unavailable
             (case cap_reason caps of None \<Rightarrow> ''Terminal services are unavailable.'' | Some m \<Rightarrow> m) r))
        else if t_state t = Running_Shell \<or> t_state t = Closing then (Some (Alive_Check (t_id t)), r)
        else (None, r))"

definition expired_stopped :: "string \<Rightarrow> registry \<Rightarrow> registry" where
  "expired_stopped i r = on_terminal i (\<lambda>t. t\<lparr>t_state := Lost_Shell, t_code := Some Startup_Timeout,
     t_error := Some ''Shell startup timed out and was stopped. Check the installation with palmagent doctor before trying again.''\<rparr>) r"

definition start_host_gone :: "string \<Rightarrow> registry \<Rightarrow> registry" where
  "start_host_gone i r = on_terminal i (\<lambda>t. t\<lparr>t_state := Lost_Shell, t_code := Some Host_Exited,
     t_error := Some ''The shell host exited before it became ready. Check the terminal service log.''\<rparr>) r"

definition host_gone :: "string \<Rightarrow> registry \<Rightarrow> registry" where
  "host_gone i r = on_terminal i (\<lambda>t. t\<lparr>t_state := (if t_exit t = None then Lost_Shell else Exited)\<rparr>) r"

section \<open>The shell host's use of the registry\<close>

text \<open>\<open>finish\<close> of bootstrap/terminal-host.ts: the end of the shell, or of a failed start.\<close>

definition host_finish_terminal :: "string \<Rightarrow> int \<Rightarrow> bool \<Rightarrow> registry \<Rightarrow> registry" where
  "host_finish_terminal i code lost r = (
    let r = (if lost then noteStartError i Initialization_Failed ''Shell initialization failed. Check the terminal service log.'' r else r)
    in on_terminal i (\<lambda>t. t\<lparr>t_state := Closing, t_exit := (if lost then None else Some code)\<rparr>) r)"

section \<open>Connection tickets\<close>

record ticket =
  tk_token :: string
  tk_terminal :: string
  tk_expires :: int

type_synonym tickets = "(string \<times> ticket) list"

definition issue_ticket :: "string \<Rightarrow> string \<Rightarrow> string \<Rightarrow> int \<Rightarrow> tickets \<Rightarrow> string result \<times> tickets" where
  "issue_ticket k token i now ts = (let ts = filter (\<lambda>t. \<not> tk_expires (snd t) < now) ts in
     if 128 \<le> length ts then (Inl (Js_Error ''Too many terminal connection requests''), ts)
     else (Inr k, ts @ [(k, \<lparr>tk_token = token, tk_terminal = i, tk_expires = now + 30000\<rparr>)]))"

definition consume_ticket :: "string \<Rightarrow> string \<Rightarrow> string \<Rightarrow> int \<Rightarrow> tickets \<Rightarrow> bool \<times> tickets" where
  "consume_ticket k token i now ts =
     ((case map_of ts k of None \<Rightarrow> False | Some t \<Rightarrow> tk_token t = token \<and> tk_terminal t = i \<and> now \<le> tk_expires t),
      filter (\<lambda>t. fst t \<noteq> k) ts)"

end
