(* ===== verification/Terminal_Laws.thy ===== *)
theory Terminal_Laws
  imports Terminals
begin

text \<open>
  Terminals under every interleaving of requests, reconciliations, shell hosts and the
  removal of directories: the step relation and its invariant.
\<close>

section \<open>Steps\<close>

text \<open>
  Beside the registry and the disk: the ids drawn so far, the terminals whose shell host runs,
  what requests and reconciliations wait for, and the records that reconciliations have read.
  The supervisor tells the truth: a stop is confirmed, and a host reported dead, only when
  the host does not run.
\<close>

record term_world =
  tw_reg :: registry
  tw_disk :: disk
  tw_ids :: "string list"
  tw_live :: "string list"
  tw_waits :: "twait list"
  tw_seen :: "terminal list"

definition new_term_world :: "disk \<Rightarrow> term_world" where
  "new_term_world d = \<lparr>tw_reg = empty_registry, tw_disk = d, tw_ids = [], tw_live = [], tw_waits = [], tw_seen = []\<rparr>"

definition then_launch :: "(terminal \<times> bool) result \<Rightarrow> twait list \<Rightarrow> twait list" where
  "then_launch res ws = (case res of Inr (t, True) \<Rightarrow> Launching (t_id t) # ws | _ \<Rightarrow> ws)"

inductive term_step :: "term_world \<Rightarrow> term_world \<Rightarrow> bool" where
  TS_Create: "i \<notin> set (tw_ids w) \<Longrightarrow> create_terminal g caps i now (tw_disk w) x (tw_reg w) = (res, r) \<Longrightarrow>
    term_step w (w\<lparr>tw_reg := r, tw_ids := i # tw_ids w, tw_waits := then_launch res (tw_waits w)\<rparr>)"
| TS_Diagnose: "i \<notin> set (tw_ids w) \<Longrightarrow> ti_diag x \<Longrightarrow>
    term_step w (w\<lparr>tw_reg := snd (reserve_terminal i now (tw_disk w) x (tw_reg w)), tw_ids := i # tw_ids w\<rparr>)"
| TS_Remove_Diagnostic: "term_step w (w\<lparr>tw_reg := snd (removeDiagnostic i (tw_reg w))\<rparr>)"
| TS_Rename: "term_step w (w\<lparr>tw_reg := snd (rename_terminal i name (tw_reg w))\<rparr>)"
| TS_Terminate: "terminate_begin i (tw_reg w) = (res, r) \<Longrightarrow>
    term_step w (w\<lparr>tw_reg := r, tw_waits := (case res of Inr (Inr x) \<Rightarrow> x # tw_waits w | _ \<Rightarrow> tw_waits w)\<rparr>)"
| TS_Read: "term_step w (w\<lparr>tw_seen := r_terms (tw_reg w) @ tw_seen w\<rparr>)"
| TS_Reconcile: "t \<in> set (tw_seen w) \<Longrightarrow> reconcile_terminal caps now t (tw_reg w) = (wait, r) \<Longrightarrow>
    term_step w (w\<lparr>tw_reg := r, tw_waits := (case wait of Some x \<Rightarrow> x # tw_waits w | None \<Rightarrow> tw_waits w)\<rparr>)"
| TS_Launch_Failed: "Launching i \<in> set (tw_waits w) \<Longrightarrow>
    term_step w (w\<lparr>tw_reg := launch_failed i (tw_reg w), tw_waits := remove1 (Launching i) (tw_waits w)\<rparr>)"
| TS_Stopped: "Stop_Asked i \<in> set (tw_waits w) \<Longrightarrow> i \<notin> set (tw_live w) \<Longrightarrow>
    term_step w (w\<lparr>tw_reg := stop_asked_done i (tw_reg w), tw_waits := remove1 (Stop_Asked i) (tw_waits w)\<rparr>)"
| TS_Expired: "Stop_Expired i \<in> set (tw_waits w) \<Longrightarrow> i \<notin> set (tw_live w) \<Longrightarrow>
    term_step w (w\<lparr>tw_reg := expired_stopped i (tw_reg w), tw_waits := remove1 (Stop_Expired i) (tw_waits w)\<rparr>)"
| TS_Start_Gone: "Start_Check i \<in> set (tw_waits w) \<Longrightarrow> i \<notin> set (tw_live w) \<Longrightarrow>
    term_step w (w\<lparr>tw_reg := start_host_gone i (tw_reg w), tw_waits := remove1 (Start_Check i) (tw_waits w)\<rparr>)"
| TS_Gone: "Alive_Check i \<in> set (tw_waits w) \<Longrightarrow> i \<notin> set (tw_live w) \<Longrightarrow>
    term_step w (w\<lparr>tw_reg := host_gone i (tw_reg w), tw_waits := remove1 (Alive_Check i) (tw_waits w)\<rparr>)"
| TS_Answered: "term_step w (w\<lparr>tw_waits := remove1 x (tw_waits w)\<rparr>)"
| TS_Claim: "claim_terminal i pid ident (tw_reg w) = (ok, r) \<Longrightarrow>
    term_step w (w\<lparr>tw_reg := r, tw_live := (if ok then i # tw_live w else tw_live w)\<rparr>)"
| TS_Ready: "i \<in> set (tw_live w) \<Longrightarrow> term_step w (w\<lparr>tw_reg := snd (ready_terminal i pid ident now (tw_reg w))\<rparr>)"
| TS_Host_Expires: "i \<in> set (tw_live w) \<Longrightarrow> term_step w (w\<lparr>tw_reg := snd (expireStartup i now (tw_reg w))\<rparr>)"
| TS_Finish: "i \<in> set (tw_live w) \<Longrightarrow> term_step w (w\<lparr>tw_reg := host_finish_terminal i code lost (tw_reg w)\<rparr>)"
| TS_Host_Exit: "term_step w (w\<lparr>tw_live := filter (\<lambda>x. x \<noteq> i) (tw_live w)\<rparr>)"
| TS_Cleanup: "cleanup cwd task (tw_disk w, tw_reg w) = (ok, d, r) \<Longrightarrow> term_step w (w\<lparr>tw_disk := d, tw_reg := r\<rparr>)"
| TS_Make_Directory: "p \<notin> fst ` set (d_entries (tw_disk w)) \<Longrightarrow>
    term_step w (w\<lparr>tw_disk := (tw_disk w)\<lparr>d_entries := d_entries (tw_disk w) @ [(p, True)]\<rparr>\<rparr>)"

abbreviation term_steps :: "term_world \<Rightarrow> term_world \<Rightarrow> bool" where "term_steps \<equiv> term_step\<^sup>*\<^sup>*"

abbreviation term_reach :: "term_world \<Rightarrow> bool" where "term_reach w \<equiv> \<exists>d. term_steps (new_term_world d) w"

section \<open>The invariant\<close>

definition terms_ok :: "terminal list \<Rightarrow> bool" where
  "terms_ok ts \<longleftrightarrow> distinct (map t_id ts) \<and> distinct (map t_request ts) \<and>
     count_if (\<lambda>t. active t \<and> \<not> t_diag t) ts \<le> 16 \<and> count_if (\<lambda>t. active t \<and> t_diag t) ts \<le> 1"

definition dirs_ok :: "disk \<Rightarrow> terminal list \<Rightarrow> bool" where
  "dirs_ok d ts \<longleftrightarrow> (\<forall>t \<in> set ts. active t \<longrightarrow> map_of (d_entries d) (t_cwd t) = Some True)"

definition live_ok :: "string list \<Rightarrow> terminal list \<Rightarrow> bool" where
  "live_ok live ts \<longleftrightarrow> (\<forall>i \<in> set live. \<exists>t \<in> set ts. t_id t = i \<and> active t)"

definition tw_ok :: "term_world \<Rightarrow> bool" where
  "tw_ok w \<longleftrightarrow> terms_ok (r_terms (tw_reg w)) \<and> dirs_ok (tw_disk w) (r_terms (tw_reg w)) \<and>
     live_ok (tw_live w) (r_terms (tw_reg w)) \<and> t_id ` set (r_terms (tw_reg w)) \<subseteq> set (tw_ids w)"

text \<open>
  What a step leaves: no ended terminal becomes active again, and a terminal that is no
  diagnostic keeps its identity.
\<close>

definition same_identity :: "terminal \<Rightarrow> terminal \<Rightarrow> bool" where
  "same_identity t t' \<longleftrightarrow> t_id t' = t_id t \<and> t_request t' = t_request t \<and> t_task t' = t_task t \<and> t_repo t' = t_repo t \<and>
     t_diag t' = t_diag t \<and> t_cwd t' = t_cwd t"

definition tw_evolves :: "term_world \<Rightarrow> term_world \<Rightarrow> bool" where
  "tw_evolves w w' \<longleftrightarrow> set (tw_ids w) \<subseteq> set (tw_ids w') \<and>
     (\<forall>t' \<in> set (r_terms (tw_reg w')). active t' \<longrightarrow> t_id t' \<notin> set (tw_ids w) \<or> (\<exists>t \<in> set (r_terms (tw_reg w)). t_id t = t_id t' \<and> active t)) \<and>
     (\<forall>t \<in> set (r_terms (tw_reg w)). \<not> t_diag t \<longrightarrow> (\<exists>t' \<in> set (r_terms (tw_reg w')). same_identity t t'))"

lemma same_identity_refl [simp]: "same_identity t t" by (simp add: same_identity_def)

lemma tw_evolves_refl [simp]: "tw_evolves w w"
  unfolding tw_evolves_def using same_identity_refl by blast

lemma tw_evolves_trans:
  assumes "tw_evolves w v" "tw_evolves v u"
  shows "tw_evolves w u"
  unfolding tw_evolves_def
proof (intro conjI ballI impI)
  show "set (tw_ids w) \<subseteq> set (tw_ids u)" using assms by (auto simp: tw_evolves_def)
next
  fix t' assume t': "t' \<in> set (r_terms (tw_reg u))" "active t'"
  then have "t_id t' \<notin> set (tw_ids v) \<or> (\<exists>t \<in> set (r_terms (tw_reg v)). t_id t = t_id t' \<and> active t)" using assms(2) unfolding tw_evolves_def by blast
  then show "t_id t' \<notin> set (tw_ids w) \<or> (\<exists>t \<in> set (r_terms (tw_reg w)). t_id t = t_id t' \<and> active t)"
    using assms(1) unfolding tw_evolves_def by (metis subsetD)
next
  fix t assume "t \<in> set (r_terms (tw_reg w))" "\<not> t_diag t"
  then obtain t1 where t1: "t1 \<in> set (r_terms (tw_reg v))" "same_identity t t1" using assms(1) unfolding tw_evolves_def by blast
  then have "\<not> t_diag t1" using \<open>\<not> t_diag t\<close> by (simp add: same_identity_def)
  then obtain t2 where "t2 \<in> set (r_terms (tw_reg u))" "same_identity t1 t2" using assms(2) t1(1) unfolding tw_evolves_def by blast
  with t1(2) show "\<exists>t' \<in> set (r_terms (tw_reg u)). same_identity t t'" by (metis (no_types, lifting) same_identity_def)
qed

section \<open>Changing one terminal\<close>

lemma on_terminal_rows: "r_terms (on_terminal i f r) = map (\<lambda>t. if t_id t = i then f t else t) (r_terms r)"
  by (simp add: on_terminal_def)

lemma in_on_terminal:
  "t' \<in> set (r_terms (on_terminal i f r)) \<longleftrightarrow> (\<exists>t \<in> set (r_terms r). t' = (if t_id t = i then f t else t))"
  unfolding on_terminal_rows in_map_if ..

lemma find_terminal_Some: "find_terminal i r = Some t \<Longrightarrow> t \<in> set (r_terms r) \<and> t_id t = i"
  by (auto simp: find_terminal_def dest: find_Some_in)

lemma terminal_unique:
  "terms_ok (r_terms r) \<Longrightarrow> t \<in> set (r_terms r) \<Longrightarrow> find_terminal (t_id t) r = Some t"
  using find_key_unique[of t_id "r_terms r" t] by (simp add: terms_ok_def find_terminal_def)

definition calm :: "string \<Rightarrow> (terminal \<Rightarrow> terminal) \<Rightarrow> term_world \<Rightarrow> bool" where
  "calm i f w \<longleftrightarrow> (\<forall>t \<in> set (r_terms (tw_reg w)). t_id t = i \<longrightarrow> same_identity t (f t) \<and> (active (f t) \<longrightarrow> active t) \<and>
     (i \<in> set (tw_live w) \<longrightarrow> active (f t)))"

lemma on_terminal_ok:
  assumes ok: "tw_ok w" and c: "calm i f w" and w': "tw_reg w' = on_terminal i f (tw_reg w)" "tw_disk w' = tw_disk w" "tw_ids w' = tw_ids w" "tw_live w' = tw_live w"
  shows "tw_ok w' \<and> tw_evolves w w'"
proof -
  let ?ts = "r_terms (tw_reg w)" and ?ts' = "r_terms (tw_reg w')"
  let ?g = "\<lambda>t. if t_id t = i then f t else t"
  have rows: "?ts' = map ?g ?ts" by (simp add: w' on_terminal_rows)
  have g: "same_identity t (?g t)" "active (?g t) \<longrightarrow> active t" "t_id t \<in> set (tw_live w) \<and> active t \<longrightarrow> active (?g t)" if "t \<in> set ?ts" for t
    using c that unfolding calm_def by auto
  have ids: "map t_id ?ts' = map t_id ?ts" and reqs: "map t_request ?ts' = map t_request ?ts"
    unfolding rows using g(1) by (simp_all add: same_identity_def)
  have cnt: "count_if (\<lambda>t. active t \<and> p (t_diag t)) ?ts' \<le> count_if (\<lambda>t. active t \<and> p (t_diag t)) ?ts" for p
  proof (rule count_if_pointwise_le)
    fix j assume j: "j < length ?ts" "active (?ts' ! j) \<and> p (t_diag (?ts' ! j))"
    then have eq: "?ts' ! j = ?g (?ts ! j)" and mem: "?ts ! j \<in> set ?ts" by (simp_all add: rows)
    have "active (?ts' ! j) \<longrightarrow> active (?ts ! j)" unfolding eq by (rule g(2)[OF mem])
    moreover have "t_diag (?ts' ! j) = t_diag (?ts ! j)" unfolding eq using g(1)[OF mem] unfolding same_identity_def by blast
    ultimately show "active (?ts ! j) \<and> p (t_diag (?ts ! j))" using j(2) by simp
  qed (simp add: rows)
  have "terms_ok ?ts'" using ok cnt[of "\<lambda>b. \<not> b"] cnt[of "\<lambda>b. b"] unfolding tw_ok_def terms_ok_def ids reqs by linarith
  moreover have "dirs_ok (tw_disk w') ?ts'" unfolding dirs_ok_def w'(2)
  proof (intro ballI impI)
    fix t' assume "t' \<in> set ?ts'" and act: "active t'"
    then obtain t where t: "t \<in> set ?ts" "t' = ?g t" unfolding rows in_map_if by blast
    then have "active t" "t_cwd t' = t_cwd t" using g(1,2)[OF t(1)] act by (simp_all add: same_identity_def)
    then show "map_of (d_entries (tw_disk w)) (t_cwd t') = Some True" using ok t(1) by (simp add: tw_ok_def dirs_ok_def)
  qed
  moreover have "live_ok (tw_live w') ?ts'" unfolding live_ok_def w'(4)
  proof
    fix j assume j: "j \<in> set (tw_live w)"
    then obtain t where t: "t \<in> set ?ts" "t_id t = j" "active t" using ok by (auto simp: tw_ok_def live_ok_def)
    then have "?g t \<in> set ?ts'" "t_id (?g t) = j" "active (?g t)" using g(1,3)[OF t(1)] j unfolding rows by (auto simp: same_identity_def)
    then show "\<exists>t \<in> set ?ts'. t_id t = j \<and> active t" by blast
  qed
  moreover have "t_id ` set ?ts' = t_id ` set ?ts" using ids by (metis set_map)
  ultimately have "tw_ok w'" using ok by (simp add: tw_ok_def w'(3))
  moreover have "tw_evolves w w'" unfolding tw_evolves_def
  proof (intro conjI ballI impI)
    fix t' assume "t' \<in> set ?ts'" "active t'"
    then obtain t where t: "t \<in> set ?ts" "t' = ?g t" unfolding rows in_map_if by blast
    with g(1,2)[OF t(1)] \<open>active t'\<close> show "t_id t' \<notin> set (tw_ids w) \<or> (\<exists>t \<in> set ?ts. t_id t = t_id t' \<and> active t)"
      unfolding same_identity_def by metis
  next
    fix t assume "t \<in> set ?ts"
    then have "?g t \<in> set ?ts'" unfolding rows in_map_if by blast
    with g(1)[OF \<open>t \<in> set ?ts\<close>] show "\<exists>t' \<in> set ?ts'. same_identity t t'" by blast
  qed (simp add: w'(3))
  ultimately show ?thesis by blast
qed

text \<open>A step that leaves the registry's rows alone.\<close>

lemma same_rows_ok:
  assumes "tw_ok w" "r_terms (tw_reg w') = r_terms (tw_reg w)" "tw_disk w' = tw_disk w" "set (tw_ids w) \<subseteq> set (tw_ids w')" "set (tw_live w') \<subseteq> set (tw_live w)"
  shows "tw_ok w' \<and> tw_evolves w w'"
proof -
  have "tw_ok w'" using assms unfolding tw_ok_def live_ok_def by (auto dest: subsetD)
  moreover have "tw_evolves w w'" unfolding tw_evolves_def assms(2) using assms(4) same_identity_refl by blast
  ultimately show ?thesis by blast
qed

text \<open>A new terminal.\<close>

lemma length_filter_rev [simp]: "length (filter p (rev xs)) = length (filter p xs)"
  by (simp flip: rev_filter)

lemma reserve_ok:
  assumes ok: "tw_ok w" and fresh: "i \<notin> set (tw_ids w)" and res: "reserve_terminal i now (tw_disk w) x (tw_reg w) = (y, r)"
    and w': "tw_reg w' = r" "tw_disk w' = tw_disk w" "tw_ids w' = i # tw_ids w" "tw_live w' = tw_live w"
  shows "tw_ok w' \<and> tw_evolves w w'"
proof (cases "r = tw_reg w")
  case True
  then show ?thesis using ok w' by (intro same_rows_ok) auto
next
  case False
  let ?ts = "r_terms (tw_reg w)"
  obtain cwd where cwd: "realpath (tw_disk w) (ti_cwd x) = Some (cwd, True)" "r_terms r = ?ts @ [new_terminal i now cwd x]"
    and none: "find (\<lambda>t. t_request t = ti_request x) (rev ?ts) = None"
    and room: "ti_diag x \<longrightarrow> occupied_terminals True (tw_reg w) = []" "\<not> ti_diag x \<longrightarrow> length (occupied_terminals False (tw_reg w)) < 16"
    using res False by (auto simp: reserve_terminal_def list_terminals_def Let_def split: option.splits if_splits prod.splits)
  let ?t = "new_terminal i now cwd x"
  have t: "t_id ?t = i" "t_request ?t = ti_request x" "t_diag ?t = ti_diag x" "t_cwd ?t = cwd" "active ?t"
    by (simp_all add: new_terminal_def active_def)
  have new: "i \<notin> t_id ` set ?ts" "ti_request x \<notin> t_request ` set ?ts" using ok fresh none by (auto simp: tw_ok_def find_None)
  have "count_if (\<lambda>t. active t \<and> t_diag t) ?ts = 0" if "ti_diag x"
    using room(1) that by (simp add: occupied_terminals_def list_terminals_def filter_empty_conv)
  moreover have "count_if (\<lambda>t. active t \<and> \<not> t_diag t) ?ts < 16" if "\<not> ti_diag x"
    using room(2) that by (simp add: occupied_terminals_def list_terminals_def)
  ultimately have "terms_ok (?ts @ [?t])" using ok new t by (auto simp: tw_ok_def terms_ok_def)
  moreover have "map_of (d_entries (tw_disk w)) cwd = Some True" using cwd(1) by (auto simp: realpath_def)
  ultimately have "tw_ok w'" using ok t w' cwd(2) by (auto simp: tw_ok_def dirs_ok_def live_ok_def)
  moreover have "tw_evolves w w'" unfolding tw_evolves_def
  proof (intro conjI ballI impI)
    fix u assume "u \<in> set ?ts"
    then have "u \<in> set (r_terms (tw_reg w'))" using w' cwd(2) by simp
    then show "\<exists>t' \<in> set (r_terms (tw_reg w')). same_identity u t'" using same_identity_refl by blast
  qed (use w' cwd(2) t fresh in auto)
  ultimately show ?thesis by blast
qed

section \<open>The service's changes\<close>

lemma the_terminal: "terms_ok (r_terms r) \<Longrightarrow> find_terminal i r = Some t \<Longrightarrow> u \<in> set (r_terms r) \<Longrightarrow> t_id u = i \<Longrightarrow> u = t"
  using terminal_unique by fastforce

text \<open>A change of one terminal that neither ends it nor brings it back.\<close>

definition mild :: "string \<Rightarrow> registry \<Rightarrow> registry \<Rightarrow> bool" where
  "mild i r r' \<longleftrightarrow> (\<exists>f. r' = on_terminal i f r \<and> (\<forall>t \<in> set (r_terms r). t_id t = i \<longrightarrow> same_identity t (f t) \<and> active (f t) = active t))"

lemma mild_refl [simp]: "mild i r r"
  unfolding mild_def by (rule exI[of _ "\<lambda>t. t"]) (simp add: on_terminal_def)

lemma mild_on_terminal: "(\<And>t. t \<in> set (r_terms r) \<Longrightarrow> t_id t = i \<Longrightarrow> same_identity t (f t) \<and> active (f t) = active t) \<Longrightarrow> mild i r (on_terminal i f r)"
  unfolding mild_def by blast

lemma mild_ok:
  assumes ok: "tw_ok w" and t: "mild i (tw_reg w) (tw_reg w')" and w': "tw_disk w' = tw_disk w" "tw_ids w' = tw_ids w" "tw_live w' = tw_live w"
  shows "tw_ok w' \<and> tw_evolves w w'"
proof -
  obtain f where f: "tw_reg w' = on_terminal i f (tw_reg w)"
      "\<And>t. t \<in> set (r_terms (tw_reg w)) \<Longrightarrow> t_id t = i \<Longrightarrow> same_identity t (f t) \<and> active (f t) = active t"
    using t unfolding mild_def by blast
  have "active (f t)" if t: "t \<in> set (r_terms (tw_reg w))" "t_id t = i" "i \<in> set (tw_live w)" for t
  proof -
    obtain u where "u \<in> set (r_terms (tw_reg w))" "t_id u = i" "active u" using ok t(3) by (auto simp: tw_ok_def live_ok_def)
    moreover have "find_terminal i (tw_reg w) = Some t" using terminal_unique[of "tw_reg w" t] t ok by (auto simp: tw_ok_def)
    moreover have "terms_ok (r_terms (tw_reg w))" using ok by (simp add: tw_ok_def)
    ultimately have "active t" using the_terminal by blast
    then show ?thesis using f(2)[OF t(1,2)] by simp
  qed
  then have "calm i f w" unfolding calm_def using f(2) by blast
  from on_terminal_ok[OF ok this f(1) w'] show ?thesis .
qed

lemma noteStartError_mild: "mild i r (noteStartError i c m r)"
  by (auto simp: noteStartError_def same_identity_def active_def intro!: mild_on_terminal split: option.split)

lemma expireStartup_mild: "mild i r (snd (expireStartup i now r))"
  by (auto simp: expireStartup_def same_identity_def active_def intro!: mild_on_terminal split: option.split)

lemma expireStartup_False: "expireStartup i now r = (False, r') \<Longrightarrow> r' = r"
  by (auto simp: expireStartup_def split: option.splits if_splits)

lemma claim_mild: "mild i r (snd (claim_terminal i pid ident r))"
  by (auto simp: claim_terminal_def same_identity_def active_def intro!: mild_on_terminal split: option.split)

lemma ready_mild:
  assumes "terms_ok (r_terms r)"
  shows "mild i r (snd (ready_terminal i pid ident now r))"
proof (cases "find_terminal i r")
  case None
  then show ?thesis by (simp add: ready_terminal_def)
next
  case (Some t)
  have act: "active u" if "t_state t = Starting" "u \<in> set (r_terms r)" "t_id u = i" for u
    using the_terminal[OF assms Some that(2,3)] that(1) by (simp add: active_def)
  have "mild i r (on_terminal i (\<lambda>t. t\<lparr>t_state := Running_Shell, t_error := None, t_code := None\<rparr>) r)" if "t_state t = Starting"
    using act[OF that] by (intro mild_on_terminal) (auto simp: same_identity_def active_def)
  then show ?thesis using Some expireStartup_mild[of i r now] expireStartup_False[of i now r]
    by (auto simp: ready_terminal_def split: prod.split bool.split)
qed

lemma terminate_mild:
  assumes "terms_ok (r_terms r)" "terminate_begin i r = (res, r')"
  shows "mild i r r'"
proof (cases "find_terminal i r")
  case None
  then show ?thesis using assms(2) by (auto simp: terminate_begin_def get_terminal_def)
next
  case (Some t)
  have "active u" if "t_state t \<noteq> Exited" "t_state t \<noteq> Lost_Shell" "u \<in> set (r_terms r)" "t_id u = i" for u
    using the_terminal[OF assms(1) Some that(3,4)] that(1,2) by (cases "t_state t") (auto simp: active_def)
  then have "mild i r (on_terminal i (\<lambda>t. t\<lparr>t_state := Closing\<rparr>) r)" if "t_state t \<noteq> Exited" "t_state t \<noteq> Lost_Shell"
    using that by (intro mild_on_terminal) (auto simp: same_identity_def active_def)
  then show ?thesis using Some assms(2) by (auto simp: terminate_begin_def get_terminal_def split: if_splits)
qed

lemma rename_mild: "mild i r (snd (rename_terminal i name r))"
  by (auto simp: rename_terminal_def get_terminal_def update_terminal_def same_identity_def active_def intro!: mild_on_terminal split: option.split)

lemma reconcile_mild: "mild (t_id t) r (snd (reconcile_terminal caps now t r))"
  using expireStartup_mild[of "t_id t" r now] expireStartup_False[of "t_id t" now r] noteStartError_mild[of "t_id t" r]
  by (auto simp: reconcile_terminal_def split: prod.split bool.split)

text \<open>A change that ends one terminal whose host does not run.\<close>

lemma ending_ok:
  assumes "tw_ok w" "i \<notin> set (tw_live w)" "\<And>t. same_identity t (f t) \<and> \<not> active (f t)"
    and "tw_reg w' = on_terminal i f (tw_reg w)" "tw_disk w' = tw_disk w" "tw_ids w' = tw_ids w" "tw_live w' = tw_live w"
  shows "tw_ok w' \<and> tw_evolves w w'"
  using on_terminal_ok[OF assms(1) _ assms(4-7)] assms(2,3) by (simp add: calm_def)

section \<open>Shell hosts\<close>

lemma claim_ok:
  assumes ok: "tw_ok w" and c: "claim_terminal i pid ident (tw_reg w) = (b, r)"
  shows "tw_ok (w\<lparr>tw_reg := r, tw_live := (if b then i # tw_live w else tw_live w)\<rparr>) \<and>
    tw_evolves w (w\<lparr>tw_reg := r, tw_live := (if b then i # tw_live w else tw_live w)\<rparr>)"
proof -
  let ?v = "w\<lparr>tw_reg := r\<rparr>"
  have v: "tw_ok ?v \<and> tw_evolves w ?v" using claim_mild[of i "tw_reg w" pid ident] ok c by (intro mild_ok) simp_all
  have "\<exists>t \<in> set (r_terms r). t_id t = i \<and> active t" if "b"
  proof -
    obtain t where t: "find_terminal i (tw_reg w) = Some t" "claimable t"
        "r = on_terminal i (\<lambda>t. t\<lparr>t_pid := Some pid, t_ident := Some ident\<rparr>) (tw_reg w)"
      using c \<open>b\<close> by (auto simp: claim_terminal_def split: option.splits if_splits)
    have "t\<lparr>t_pid := Some pid, t_ident := Some ident\<rparr> \<in> set (r_terms r)"
      unfolding t(3) in_on_terminal using find_terminal_Some[OF t(1)] by (intro bexI[of _ t]) simp_all
    then show ?thesis using t(2) find_terminal_Some[OF t(1)] by (intro bexI) (auto simp: active_def claimable_def)
  qed
  with v show ?thesis by (simp add: tw_ok_def live_ok_def tw_evolves_def)
qed

lemma finish_ok:
  assumes ok: "tw_ok w" and i: "i \<in> set (tw_live w)"
  shows "tw_ok (w\<lparr>tw_reg := host_finish_terminal i code lost (tw_reg w)\<rparr>) \<and> tw_evolves w (w\<lparr>tw_reg := host_finish_terminal i code lost (tw_reg w)\<rparr>)"
proof -
  let ?r = "if lost then noteStartError i Initialization_Failed ''Shell initialization failed. Check the terminal service log.'' (tw_reg w) else tw_reg w"
  let ?v = "w\<lparr>tw_reg := ?r\<rparr>" and ?u = "w\<lparr>tw_reg := host_finish_terminal i code lost (tw_reg w)\<rparr>"
  have v: "tw_ok ?v \<and> tw_evolves w ?v" using noteStartError_mild ok by (intro mild_ok) auto
  obtain t where t: "t \<in> set (r_terms ?r)" "t_id t = i" "active t" using v i by (auto simp: tw_ok_def live_ok_def)
  have "active u" if "u \<in> set (r_terms ?r)" "t_id u = i" for u
    using the_terminal[of ?r i t u] terminal_unique[of ?r t] v t that by (auto simp: tw_ok_def)
  then have "mild i ?r (host_finish_terminal i code lost (tw_reg w))"
    unfolding host_finish_terminal_def Let_def by (intro mild_on_terminal) (auto simp: same_identity_def active_def)
  then have "tw_ok ?u \<and> tw_evolves ?v ?u" using v by (intro mild_ok) simp_all
  then show ?thesis using v tw_evolves_trans by blast
qed

section \<open>Removing rows and directories\<close>

lemma count_if_mono: "(\<And>x. p x \<Longrightarrow> q x) \<Longrightarrow> count_if p xs \<le> count_if q xs"
  by (induction xs) (auto intro: le_SucI)

lemma remove_diagnostic_ok:
  assumes ok: "tw_ok w" and w': "tw_reg w' = snd (removeDiagnostic i (tw_reg w))" "tw_disk w' = tw_disk w" "tw_ids w' = tw_ids w" "tw_live w' = tw_live w"
  shows "tw_ok w' \<and> tw_evolves w w'"
proof (cases "snd (removeDiagnostic i (tw_reg w)) = tw_reg w")
  case True
  then show ?thesis using same_rows_ok[OF ok, of w'] w' by simp
next
  case False
  let ?ts = "r_terms (tw_reg w)" and ?ts' = "r_terms (tw_reg w')"
  obtain t where t: "find_terminal i (tw_reg w) = Some t" "t_diag t" "\<not> active t"
    using False by (auto simp: removeDiagnostic_def split: option.splits if_splits)
  then have rows: "?ts' = filter (\<lambda>t. t_id t \<noteq> i) ?ts" by (simp add: removeDiagnostic_def w'(1))
  have tok: "terms_ok ?ts" using ok by (simp add: tw_ok_def)
  have gone: "\<not> active u \<and> t_diag u" if "u \<in> set ?ts" "t_id u = i" for u
    using the_terminal[OF tok t(1) that] t(2,3) by simp
  have le: "count_if p ?ts' \<le> count_if p ?ts" for p
    unfolding rows filter_filter by (rule count_if_mono) simp
  have "terms_ok ?ts'" using tok le[of "\<lambda>t. active t \<and> \<not> t_diag t"] le[of "\<lambda>t. active t \<and> t_diag t"]
    unfolding terms_ok_def by (auto simp: rows distinct_map_filter)
  moreover have "dirs_ok (tw_disk w') ?ts'" using ok by (auto simp: tw_ok_def dirs_ok_def rows w'(2))
  moreover have "live_ok (tw_live w') ?ts'" using ok gone by (fastforce simp: tw_ok_def live_ok_def rows w'(4))
  moreover have "t_id ` set ?ts' \<subseteq> set (tw_ids w')" using ok by (auto simp: tw_ok_def rows w'(3))
  moreover have "tw_evolves w w'" unfolding tw_evolves_def
  proof (intro conjI ballI impI)
    fix u assume "u \<in> set ?ts" "\<not> t_diag u"
    then have "u \<in> set ?ts'" using gone by (auto simp: rows)
    then show "\<exists>u' \<in> set ?ts'. same_identity u u'" using same_identity_refl by blast
  qed (auto simp: rows w'(3))
  ultimately show ?thesis by (simp add: tw_ok_def)
qed

lemma map_of_filter_key: "k \<noteq> c \<Longrightarrow> map_of (filter (\<lambda>e. fst e \<noteq> c) es) k = map_of es k"
  by (induction es) auto

lemma cleanup_ok:
  assumes ok: "tw_ok w" and c: "cleanup cwd task (tw_disk w, tw_reg w) = (b, d, r)"
    and w': "tw_reg w' = r" "tw_disk w' = d" "tw_ids w' = tw_ids w" "tw_live w' = tw_live w"
  shows "tw_ok w' \<and> tw_evolves w w'"
proof -
  have rows: "r_terms r = r_terms (tw_reg w)" using c by (auto simp: cleanup_def Let_def split: if_splits)
  have "map_of (d_entries d) (t_cwd t) = Some True" if "t \<in> set (r_terms (tw_reg w))" "active t" for t
  proof -
    have "map_of (d_entries (tw_disk w)) (t_cwd t) = Some True" using ok that by (simp add: tw_ok_def dirs_ok_def)
    then show ?thesis using c that by (auto simp: cleanup_def Let_def map_of_filter_key split: if_splits)
  qed
  then have "tw_ok w'" using ok by (simp add: tw_ok_def dirs_ok_def w' rows)
  moreover have "tw_evolves w w'" unfolding tw_evolves_def w' rows using same_identity_refl by blast
  ultimately show ?thesis by blast
qed

section \<open>Every step keeps the invariant\<close>

lemma create_terminal_reserves:
  assumes "create_terminal g caps i now d x r = (res, r')" "r' \<noteq> r"
  shows "\<exists>y q. reserve_terminal i now d y r = (q, r')"
  using assms by (auto simp: create_terminal_def Let_def split: if_splits option.splits sum.splits prod.splits)

lemma map_sum_Inr: "map_sum f g y = Inr z \<longleftrightarrow> (\<exists>u. y = Inr u \<and> g u = z)"
  by (cases y) auto

lemma create_terminal_new:
  assumes "create_terminal g caps i now d x r = (Inr (t, True), r')"
  shows "t \<in> set (r_terms r') \<and> \<not> t_diag t \<and> t_request t = ct_request x \<and> same_target (ct_target x) t"
  using assms
  by (auto simp: map_sum_Inr create_terminal_def reserve_terminal_def new_terminal_def same_target_def target_task_def Let_def
      split: if_splits option.splits sum.splits prod.splits terminal_target.splits)

lemma term_step_ok:
  assumes "term_step w w'" "tw_ok w"
  shows "tw_ok w' \<and> tw_evolves w w'"
  using assms
proof (cases rule: term_step.cases)
  case (TS_Create i g caps now x res r)
  show ?thesis
  proof (cases "r = tw_reg w")
    case True
    then show ?thesis using assms(2) TS_Create by (intro same_rows_ok) auto
  next
    case False
    then obtain y q where "reserve_terminal i now (tw_disk w) y (tw_reg w) = (q, r)" using create_terminal_reserves TS_Create by blast
    then show ?thesis using TS_Create assms(2) by (intro reserve_ok) simp_all
  qed
next
  case (TS_Diagnose i x now)
  then show ?thesis using assms(2) by (intro reserve_ok[where y = "fst (reserve_terminal i now (tw_disk w) x (tw_reg w))" and x = x and now = now and i = i]) simp_all
next
  case (TS_Remove_Diagnostic i)
  then show ?thesis using assms(2) by (intro remove_diagnostic_ok) simp_all
next
  case (TS_Rename i name)
  then show ?thesis using assms(2) rename_mild by (intro mild_ok) simp_all
next
  case (TS_Terminate i res r)
  then show ?thesis using assms(2) terminate_mild[of "tw_reg w" i res r] by (intro mild_ok) (simp_all add: tw_ok_def)
next
  case TS_Read
  then show ?thesis using assms(2) by (intro same_rows_ok) simp_all
next
  case (TS_Reconcile t caps now wait r)
  then show ?thesis using assms(2) reconcile_mild[of t "tw_reg w" caps now] by (intro mild_ok) simp_all
next
  case (TS_Launch_Failed i)
  then show ?thesis using assms(2) noteStartError_mild by (intro mild_ok) (simp_all add: launch_failed_def)
next
  case (TS_Stopped i)
  then show ?thesis using assms(2) by (intro ending_ok) (simp_all add: stop_asked_done_def same_identity_def active_def)
next
  case (TS_Expired i)
  then show ?thesis using assms(2) by (intro ending_ok) (simp_all add: expired_stopped_def same_identity_def active_def)
next
  case (TS_Start_Gone i)
  then show ?thesis using assms(2) by (intro ending_ok) (simp_all add: start_host_gone_def same_identity_def active_def)
next
  case (TS_Gone i)
  then show ?thesis using assms(2) by (intro ending_ok) (simp_all add: host_gone_def same_identity_def active_def)
next
  case (TS_Answered x)
  then show ?thesis using assms(2) by (intro same_rows_ok) simp_all
next
  case (TS_Claim i pid ident ok r)
  then show ?thesis using claim_ok assms(2) by blast
next
  case (TS_Ready i pid ident now)
  then show ?thesis using assms(2) ready_mild[of "tw_reg w"] by (intro mild_ok) (simp_all add: tw_ok_def)
next
  case (TS_Host_Expires i now)
  then show ?thesis using assms(2) expireStartup_mild by (intro mild_ok) simp_all
next
  case (TS_Finish i code lost)
  then show ?thesis using finish_ok assms(2) by blast
next
  case (TS_Host_Exit i)
  then show ?thesis using assms(2) by (intro same_rows_ok) auto
next
  case (TS_Cleanup cwd task ok d r)
  then show ?thesis using assms(2) by (intro cleanup_ok) simp_all
next
  case (TS_Make_Directory p)
  have "map_of (d_entries (tw_disk w) @ [(p, True)]) q = Some True" if "map_of (d_entries (tw_disk w)) q = Some True" for q
    using that by (simp add: map_add_Some_iff)
  then show ?thesis using TS_Make_Directory assms(2) by (auto simp: tw_ok_def dirs_ok_def tw_evolves_def intro: same_identity_refl)
qed

lemma term_steps_ok: "term_steps w w' \<Longrightarrow> tw_ok w \<Longrightarrow> tw_ok w' \<and> tw_evolves w w'"
proof (induction rule: rtranclp_induct)
  case (step v u)
  then show ?case using term_step_ok tw_evolves_trans by blast
qed simp

lemma new_term_world_ok: "tw_ok (new_term_world d)"
  by (simp add: new_term_world_def empty_registry_def tw_ok_def terms_ok_def dirs_ok_def live_ok_def)

lemma term_reach_ok: "term_reach w \<Longrightarrow> tw_ok w"
  using term_steps_ok new_term_world_ok by blast

end
