(* ===== verification/Terminal_Properties.thy ===== *)
theory Terminal_Properties
  imports Terminal_Laws
begin

text \<open>
  What the terminal service guarantees over every interleaving, with a run in which a shell is
  opened in a Space, closed on request and followed by another.
\<close>

section \<open>A run\<close>

definition run_disk :: disk where "run_disk = \<lparr>d_link = id, d_entries = [(''/a'', True)]\<rparr>"

definition run_caps :: capabilities where "run_caps = \<lparr>cap_available = True, cap_persistent = True, cap_reason = None\<rparr>"

definition run_targets :: terminal_targets where
  "run_targets = \<lparr>tt_task = (\<lambda>_. Inl (App_Error Not_Found ''Task not found'')), tt_space = Some, tt_updating = False,
     tt_resolve = Some, tt_release = ''v1'', tt_node = ''node'', tt_dir = ''run''\<rparr>"

definition run_request :: "string \<Rightarrow> create_terminal_request" where
  "run_request q = \<lparr>ct_request = q, ct_target = To_Space ''/a'', ct_title = None, ct_cols = 80, ct_rows = 24\<rparr>"

definition run_shell :: "string \<Rightarrow> string \<Rightarrow> int \<Rightarrow> terminal" where
  "run_shell i q now = new_terminal i now ''/a'' \<lparr>ti_request = q, ti_task = None, ti_repo = ''/a'', ti_title = ''Shell'', ti_cwd = ''/a'',
     ti_cols = 80, ti_rows = 24, ti_release = ''v1'', ti_node = ''node'', ti_dir = ''run'', ti_diag = False\<rparr>"

definition run_of :: "terminal list \<Rightarrow> string list \<Rightarrow> string list \<Rightarrow> twait list \<Rightarrow> term_world" where
  "run_of ts ids live ws = \<lparr>tw_reg = \<lparr>r_terms = ts, r_cleanup = []\<rparr>, tw_disk = run_disk, tw_ids = ids, tw_live = live, tw_waits = ws, tw_seen = []\<rparr>"

definition run_opened :: term_world where "run_opened = run_of [run_shell ''t'' ''q'' 5] [''t''] [] [Launching ''t'']"

definition run_closing :: term_world where
  "run_closing = run_of [(run_shell ''t'' ''q'' 5)\<lparr>t_state := Closing\<rparr>] [''t''] [] [Stop_Asked ''t'', Launching ''t'']"

definition run_exited :: term_world where
  "run_exited = run_of [(run_shell ''t'' ''q'' 5)\<lparr>t_state := Exited\<rparr>] [''t''] [] [Launching ''t'']"

definition run_second :: term_world where
  "run_second = run_of [(run_shell ''t'' ''q'' 5)\<lparr>t_state := Exited\<rparr>, run_shell ''u'' ''r'' 9] [''u'', ''t''] [] [Launching ''u'', Launching ''t'']"

lemma run_opens:
  "create_terminal run_targets run_caps ''t'' 5 run_disk (run_request ''q'') empty_registry =
     (Inr (run_shell ''t'' ''q'' 5, True), tw_reg run_opened)"
  by code_simp

lemma run_opened_reach: "term_reach run_opened"
proof -
  have "term_step (new_term_world run_disk) ((new_term_world run_disk)\<lparr>tw_reg := tw_reg run_opened, tw_ids := ''t'' # tw_ids (new_term_world run_disk),
      tw_waits := then_launch (Inr (run_shell ''t'' ''q'' 5, True)) (tw_waits (new_term_world run_disk))\<rparr>)"
    by (rule TS_Create[where g = run_targets and caps = run_caps and now = 5 and x = "run_request ''q''"])
      (use run_opens in \<open>simp_all add: new_term_world_def\<close>)
  moreover have "(new_term_world run_disk)\<lparr>tw_reg := tw_reg run_opened, tw_ids := ''t'' # tw_ids (new_term_world run_disk),
      tw_waits := then_launch (Inr (run_shell ''t'' ''q'' 5, True)) (tw_waits (new_term_world run_disk))\<rparr> = run_opened"
    by (simp add: new_term_world_def run_opened_def run_of_def then_launch_def run_shell_def new_terminal_def)
  ultimately show ?thesis by (metis r_into_rtranclp)
qed

lemma run_closes: "term_step run_opened run_closing"
proof -
  have "terminate_begin ''t'' (tw_reg run_opened) = (Inr (Inr (Stop_Asked ''t'')), tw_reg run_closing)" by code_simp
  from TS_Terminate[OF this] show ?thesis by (simp add: run_opened_def run_closing_def run_of_def)
qed

lemma run_exits: "term_step run_closing run_exited"
proof -
  have "stop_asked_done ''t'' (tw_reg run_closing) = tw_reg run_exited" by code_simp
  moreover have "term_step run_closing (run_closing\<lparr>tw_reg := stop_asked_done ''t'' (tw_reg run_closing), tw_waits := remove1 (Stop_Asked ''t'') (tw_waits run_closing)\<rparr>)"
    by (rule TS_Stopped) (simp_all add: run_closing_def run_of_def)
  ultimately show ?thesis by (simp add: run_closing_def run_exited_def run_of_def)
qed

lemma run_opens_another: "term_step run_exited run_second"
proof -
  have "create_terminal run_targets run_caps ''u'' 9 (tw_disk run_exited) (run_request ''r'') (tw_reg run_exited) =
     (Inr (run_shell ''u'' ''r'' 9, True), tw_reg run_second)" by code_simp
  from TS_Create[OF _ this] show ?thesis
    by (simp add: run_exited_def run_second_def run_of_def then_launch_def run_shell_def new_terminal_def)
qed

lemma run_reaches: "term_steps run_opened run_exited" "term_reach run_exited" "term_reach run_second"
proof -
  show a: "term_steps run_opened run_exited" using run_closes run_exits by (meson rtranclp.intros)
  then show b: "term_reach run_exited" using run_opened_reach by (meson rtranclp_trans)
  then show "term_reach run_second" using run_opens_another by (meson rtranclp.rtrancl_into_rtrancl)
qed

section \<open>Bounds\<close>

text \<open>
  C29. At any time at most sixteen terminals of the owner and one diagnostic terminal are
  active, and no two terminals share an id or a creation request.
\<close>

theorem terminals_bounded:
  assumes "term_reach w"
  shows "length (occupied_terminals False (tw_reg w)) \<le> 16 \<and> length (occupied_terminals True (tw_reg w)) \<le> 1 \<and>
    distinct (map t_id (list_terminals (tw_reg w))) \<and> distinct (map t_request (list_terminals (tw_reg w)))"
  using term_reach_ok[OF assms] by (simp add: tw_ok_def terms_ok_def occupied_terminals_def list_terminals_def flip: rev_map)

lemma terminals_bounded_witness: "length (occupied_terminals False (tw_reg run_second)) \<le> 16"
  using terminals_bounded[OF run_reaches(3)] by blast

section \<open>A shell keeps its directory\<close>



section \<open>An ended terminal stays ended\<close>

text \<open>
  C31. Once a terminal is \<open>exited\<close> or \<open>lost\<close> no later request, reconciliation (with
  a record read before it ended included) or shell host makes it active again, and no shell
  host runs for it.
\<close>

theorem ended_is_final:
  assumes "term_reach w" and "t \<in> set (list_terminals (tw_reg w))" and "t_state t = Exited \<or> t_state t = Lost_Shell"
    and "term_steps w w'"
  shows "(\<forall>t' \<in> set (list_terminals (tw_reg w')). t_id t' = t_id t \<longrightarrow> t_state t' = Exited \<or> t_state t' = Lost_Shell) \<and>
    t_id t \<notin> set (tw_live w')"
proof -
  have ok: "tw_ok w" using term_reach_ok[OF assms(1)] .
  then have w': "tw_ok w'" "tw_evolves w w'" using term_steps_ok[OF assms(4)] by blast+
  have t: "t \<in> set (r_terms (tw_reg w))" "\<not> active t" using assms(2,3) by (auto simp: list_terminals_def active_def)
  have ended: "\<not> active t'" if t': "t' \<in> set (r_terms (tw_reg w'))" "t_id t' = t_id t" for t'
  proof
    assume "active t'"
    moreover have "t_id t' \<in> set (tw_ids w)" using ok t(1) t'(2) by (auto simp: tw_ok_def)
    ultimately obtain u where u: "u \<in> set (r_terms (tw_reg w))" "t_id u = t_id t" "active u"
      using w'(2) t' unfolding tw_evolves_def by metis
    moreover have "u = t" using the_terminal[of "tw_reg w" "t_id t" t u] terminal_unique[of "tw_reg w" t] ok t(1) u by (simp add: tw_ok_def)
    ultimately show False using t(2) by simp
  qed
  moreover have "t_id t \<notin> set (tw_live w')" using w'(1) ended by (auto simp: tw_ok_def live_ok_def)
  moreover have "t_state u = Exited \<or> t_state u = Lost_Shell" if "\<not> active u" for u
    using that by (cases "t_state u") (auto simp: active_def)
  ultimately show ?thesis by (simp add: list_terminals_def)
qed

lemma ended_is_final_witness: "''t'' \<notin> set (tw_live run_second)"
proof -
  let ?t = "(run_shell ''t'' ''q'' 5)\<lparr>t_state := Exited\<rparr>"
  have t: "?t \<in> set (list_terminals (tw_reg run_exited))" by (simp add: run_exited_def run_of_def list_terminals_def)
  have "t_id ?t = ''t''" by (simp add: run_shell_def new_terminal_def)
  then show ?thesis using ended_is_final[OF run_reaches(2) t, of run_second] run_opens_another by auto
qed

section \<open>A repeated request\<close>

text \<open>
  C32. A creation request that is repeated, its answer having been lost, gets the terminal that
  the first one opened, whatever happened to it since, and opens no second shell; the registry
  is unchanged.
\<close>

theorem create_retried:
  assumes "term_reach w" and "i \<notin> set (tw_ids w)"
    and first: "create_terminal g caps i now (tw_disk w) x (tw_reg w) = (Inr (t, True), r)"
    and later: "term_steps (w\<lparr>tw_reg := r, tw_ids := i # tw_ids w, tw_waits := then_launch (Inr (t, True)) (tw_waits w)\<rparr>) v"
    and up: "cap_available caps'" "\<not> tt_updating g'"
  shows "\<exists>t'. same_identity t t' \<and> create_terminal g' caps' j now' d x (tw_reg v) = (Inr (t', False), tw_reg v)"
proof -
  let ?w = "w\<lparr>tw_reg := r, tw_ids := i # tw_ids w, tw_waits := then_launch (Inr (t, True)) (tw_waits w)\<rparr>"
  have "term_step w ?w" by (rule TS_Create[OF assms(2) first])
  then have "tw_ok ?w" using term_step_ok term_reach_ok[OF assms(1)] by blast
  then have v: "tw_ok v" "tw_evolves ?w v" using term_steps_ok[OF later] by blast+
  have t: "t \<in> set (r_terms r)" "\<not> t_diag t" "t_request t = ct_request x" "same_target (ct_target x) t"
    using create_terminal_new[OF first] by blast+
  then obtain t' where t': "t' \<in> set (r_terms (tw_reg v))" "same_identity t t'" using v(2) by (auto simp: tw_evolves_def)
  then have eq: "t_request t' = ct_request x" "same_target (ct_target x) t'"
    using t(3,4) by (auto simp: same_identity_def same_target_def split: terminal_target.splits)
  have "distinct (map t_request (list_terminals (tw_reg v)))" "t' \<in> set (list_terminals (tw_reg v))"
    using v(1) t'(1) by (simp_all add: tw_ok_def terms_ok_def list_terminals_def flip: rev_map)
  from find_key_unique[OF this] have "find (\<lambda>t. t_request t = ct_request x) (list_terminals (tw_reg v)) = Some t'" by (simp add: eq)
  then have "create_terminal g' caps' j now' d x (tw_reg v) = (Inr (t', False), tw_reg v)"
    using up eq by (simp add: create_terminal_def)
  with t'(2) show ?thesis by blast
qed

lemma create_retried_witness:
  "\<exists>t'. same_identity (run_shell ''t'' ''q'' 5) t' \<and>
    create_terminal run_targets run_caps ''z'' 20 run_disk (run_request ''q'') (tw_reg run_exited) = (Inr (t', False), tw_reg run_exited)"
proof -
  let ?n = "new_term_world run_disk"
  have n: "''t'' \<notin> set (tw_ids ?n)" "tw_disk ?n = run_disk" "tw_reg ?n = empty_registry" by (simp_all add: new_term_world_def)
  have "?n\<lparr>tw_reg := tw_reg run_opened, tw_ids := ''t'' # tw_ids ?n, tw_waits := then_launch (Inr (run_shell ''t'' ''q'' 5, True)) (tw_waits ?n)\<rparr> = run_opened"
    by (simp add: new_term_world_def run_opened_def run_of_def then_launch_def run_shell_def new_terminal_def)
  then have later: "term_steps (?n\<lparr>tw_reg := tw_reg run_opened, tw_ids := ''t'' # tw_ids ?n,
      tw_waits := then_launch (Inr (run_shell ''t'' ''q'' 5, True)) (tw_waits ?n)\<rparr>) run_exited" using run_reaches(1) by simp
  have "create_terminal run_targets run_caps ''t'' 5 (tw_disk ?n) (run_request ''q'') (tw_reg ?n) = (Inr (run_shell ''t'' ''q'' 5, True), tw_reg run_opened)"
    using run_opens by (simp add: n)
  from create_retried[OF _ n(1) this later, of run_caps run_targets "''z''" 20 run_disk] show ?thesis
    by (auto simp: run_caps_def run_targets_def)
qed

end
