(* ===== verification/Terminal_Host.thy ===== *)
theory Terminal_Host
  imports Prelude
begin

text \<open>
  One shell host (modules/terminals, adapters/outbound/terminal-host.ts): the screen, the
  clients attached to it and the one that may type. The terminal emulator is a parameter. A
  callback of the pseudo terminal or of a channel is one operation, and so is each function that
  \<open>enqueue\<close> chains to \<open>tail\<close>, which run one after the other.
\<close>

section \<open>Frames\<close>

datatype tinput = In_Ack nat | In_Claim bool | In_Release | In_Data nat string | In_Resize nat int int

datatype tframe = F_Snapshot string nat int int | F_Output string nat | F_Resize int int nat | F_Control bool nat bool | F_Exit int

text \<open>The emulator: its operations, the answers it gives to queries in the output, and the serialize addon.\<close>

record 's emulator =
  em_fresh :: "int \<Rightarrow> int \<Rightarrow> 's"
  em_write :: "string \<Rightarrow> 's \<Rightarrow> 's"
  em_replies :: "string \<Rightarrow> 's \<Rightarrow> string list"
  em_resize :: "int \<Rightarrow> int \<Rightarrow> 's \<Rightarrow> 's"
  em_serialize :: "'s \<Rightarrow> string"
  em_cols :: "'s \<Rightarrow> int"
  em_rows :: "'s \<Rightarrow> int"

section \<open>State\<close>

datatype htask = T_Output string | T_Exit int | T_Input nat tinput | T_Snapshot nat

datatype typed_by = By_Emulator | By_Client nat nat

text \<open>
  The fields of the class, then the process (what was written to it and for whom, whether it is
  paused or killed, its size), then the channels: what each was sent, which are destroyed and
  which have been seen.
\<close>

record 's shell_host =
  sh_screen :: 's
  sh_clients :: "nat list"
  sh_ready :: "nat list"
  sh_writer :: "nat option"
  sh_epoch :: nat
  sh_seq :: nat
  sh_pending :: nat
  sh_ended :: bool
  sh_tail :: "htask list"
  sh_acks :: "nat \<Rightarrow> nat option"
  sh_input :: "(typed_by \<times> string) list"
  sh_paused :: bool
  sh_killed :: bool
  sh_size :: "int \<times> int"
  sh_exits :: "int list"
  sh_wire :: "nat \<Rightarrow> tframe list"
  sh_gone :: "nat list"
  sh_used :: "nat list"

definition new_shell_host :: "'s emulator \<Rightarrow> int \<Rightarrow> int \<Rightarrow> 's shell_host" where
  "new_shell_host E cols rows = \<lparr>sh_screen = em_fresh E cols rows, sh_clients = [], sh_ready = [], sh_writer = None, sh_epoch = 0, sh_seq = 0,
     sh_pending = 0, sh_ended = False, sh_tail = [], sh_acks = (\<lambda>_. None), sh_input = [], sh_paused = False, sh_killed = False,
     sh_size = (cols, rows), sh_exits = [], sh_wire = (\<lambda>_. []), sh_gone = [], sh_used = []\<rparr>"

section \<open>Channels\<close>

text \<open>\<open>jsonChannel\<close> of linux.ts: a destroyed socket takes nothing more.\<close>

definition send_frame :: "nat \<Rightarrow> tframe \<Rightarrow> 's shell_host \<Rightarrow> 's shell_host" where
  "send_frame c f s = (if c \<in> set (sh_gone s) then s else s\<lparr>sh_wire := (sh_wire s)(c := sh_wire s c @ [f])\<rparr>)"

definition close_channel :: "nat \<Rightarrow> 's shell_host \<Rightarrow> 's shell_host" where
  "close_channel c s = s\<lparr>sh_gone := c # sh_gone s\<rparr>"

definition control_frame :: "'s shell_host \<Rightarrow> nat \<Rightarrow> tframe" where
  "control_frame s c = F_Control (sh_writer s = Some c) (sh_epoch s) (sh_writer s = None)"

definition controls :: "'s shell_host \<Rightarrow> 's shell_host" where
  "controls s = fold (\<lambda>c. send_frame c (control_frame s c)) (sh_ready s) s"

definition lagging :: "'s shell_host \<Rightarrow> nat \<Rightarrow> bool" where
  "lagging s c \<longleftrightarrow> 512 < sh_seq s - (case sh_acks s c of None \<Rightarrow> 0 | Some a \<Rightarrow> a)"

definition broadcast :: "tframe \<Rightarrow> 's shell_host \<Rightarrow> 's shell_host" where
  "broadcast f s = fold (\<lambda>c. if lagging s c then close_channel c else send_frame c f) (sh_ready s) s"

section \<open>Input\<close>

definition release_writer :: "nat \<Rightarrow> 's shell_host \<Rightarrow> 's shell_host" where
  "release_writer c s = (if sh_writer s = Some c then controls (s\<lparr>sh_writer := None, sh_epoch := Suc (sh_epoch s)\<rparr>) else s)"

definition host_input :: "'s emulator \<Rightarrow> nat \<Rightarrow> tinput \<Rightarrow> 's shell_host \<Rightarrow> 's shell_host" where
  "host_input E c f s = (case f of
      In_Ack q \<Rightarrow>
        if q \<le> sh_seq s then s\<lparr>sh_acks := (sh_acks s)(c \<mapsto> max q (case sh_acks s c of None \<Rightarrow> 0 | Some a \<Rightarrow> a))\<rparr> else s
    | In_Claim ifAvailable \<Rightarrow>
        controls (if sh_writer s \<noteq> Some c \<and> (\<not> ifAvailable \<or> sh_writer s = None)
          then s\<lparr>sh_writer := Some c, sh_epoch := Suc (sh_epoch s)\<rparr> else s)
    | In_Release \<Rightarrow> release_writer c s
    | In_Data e d \<Rightarrow>
        if sh_writer s = Some c \<and> e = sh_epoch s then s\<lparr>sh_input := sh_input s @ [(By_Client c e, d)]\<rparr> else s
    | In_Resize e cols rows \<Rightarrow>
        if sh_writer s = Some c \<and> e = sh_epoch s
        then broadcast (F_Resize cols rows (Suc (sh_seq s)))
          (s\<lparr>sh_screen := em_resize E cols rows (sh_screen s), sh_size := (cols, rows), sh_seq := Suc (sh_seq s)\<rparr>)
        else s)"

section \<open>The tail\<close>

definition run_output :: "'s emulator \<Rightarrow> string \<Rightarrow> 's shell_host \<Rightarrow> 's shell_host" where
  "run_output E d s = (
    let s = s\<lparr>sh_input := sh_input s @ map (Pair By_Emulator) (em_replies E d (sh_screen s)),
              sh_screen := em_write E d (sh_screen s), sh_seq := Suc (sh_seq s)\<rparr>;
        s = broadcast (F_Output d (sh_seq s)) s;
        s = s\<lparr>sh_pending := sh_pending s - length d\<rparr>
    in if sh_pending s < 64000 then s\<lparr>sh_paused := False\<rparr> else s)"

definition run_snapshot :: "'s emulator \<Rightarrow> nat \<Rightarrow> 's shell_host \<Rightarrow> 's shell_host" where
  "run_snapshot E c s = (if c \<notin> set (sh_clients s) then s
     else let s = send_frame c (F_Snapshot (em_serialize E (sh_screen s)) (sh_seq s) (em_cols E (sh_screen s)) (em_rows E (sh_screen s))) s
       in controls (s\<lparr>sh_acks := (sh_acks s)(c \<mapsto> sh_seq s), sh_ready := (if c \<in> set (sh_ready s) then sh_ready s else sh_ready s @ [c])\<rparr>))"

definition run_exit :: "int \<Rightarrow> 's shell_host \<Rightarrow> 's shell_host" where
  "run_exit code s = (let s = broadcast (F_Exit code) (s\<lparr>sh_ended := True\<rparr>) in s\<lparr>sh_exits := sh_exits s @ [code]\<rparr>)"

definition run_task :: "'s emulator \<Rightarrow> htask \<Rightarrow> 's shell_host \<Rightarrow> 's shell_host" where
  "run_task E t s = (case t of
      T_Output d \<Rightarrow> run_output E d s
    | T_Exit code \<Rightarrow> run_exit code s
    | T_Input c f \<Rightarrow> if c \<in> set (sh_clients s) then host_input E c f s else s
    | T_Snapshot c \<Rightarrow> run_snapshot E c s)"

definition run_tail :: "'s emulator \<Rightarrow> 's shell_host \<Rightarrow> 's shell_host" where
  "run_tail E s = (case sh_tail s of [] \<Rightarrow> s | t # ts \<Rightarrow> run_task E t (s\<lparr>sh_tail := ts\<rparr>))"

section \<open>Callbacks\<close>

definition process_output :: "string \<Rightarrow> 's shell_host \<Rightarrow> 's shell_host" where
  "process_output d s = (let s = s\<lparr>sh_pending := sh_pending s + length d\<rparr>
     in (if 256000 < sh_pending s then s\<lparr>sh_paused := True\<rparr> else s)\<lparr>sh_tail := sh_tail s @ [T_Output d]\<rparr>)"

definition process_exit :: "int \<Rightarrow> 's shell_host \<Rightarrow> 's shell_host" where
  "process_exit code s = s\<lparr>sh_tail := sh_tail s @ [T_Exit code]\<rparr>"

definition attach_channel :: "nat \<Rightarrow> 's shell_host \<Rightarrow> 's shell_host" where
  "attach_channel c s = (let s = s\<lparr>sh_used := c # sh_used s\<rparr> in
     if 8 \<le> length (sh_clients s) \<or> sh_ended s then close_channel c s
     else s\<lparr>sh_clients := sh_clients s @ [c], sh_acks := (sh_acks s)(c \<mapsto> sh_seq s), sh_tail := sh_tail s @ [T_Snapshot c]\<rparr>)"

definition channel_closed :: "nat \<Rightarrow> 's shell_host \<Rightarrow> 's shell_host" where
  "channel_closed c s = (if c \<notin> set (sh_clients s) then s
     else release_writer c (s\<lparr>sh_clients := filter (\<lambda>x. x \<noteq> c) (sh_clients s), sh_ready := filter (\<lambda>x. x \<noteq> c) (sh_ready s),
       sh_acks := (sh_acks s)(c := None)\<rparr>))"

text \<open>A message that does not parse, or a second \<open>attach\<close>, is None.\<close>

definition channel_message :: "nat \<Rightarrow> tinput option \<Rightarrow> 's shell_host \<Rightarrow> 's shell_host" where
  "channel_message c m s = (if c \<notin> set (sh_clients s) then s else case m of
      None \<Rightarrow> close_channel c s
    | Some f \<Rightarrow> s\<lparr>sh_tail := sh_tail s @ [T_Input c f]\<rparr>)"

definition terminate_shell :: "'s shell_host \<Rightarrow> 's shell_host" where
  "terminate_shell s = (if sh_ended s then s else s\<lparr>sh_killed := True\<rparr>)"

definition close_host :: "'s shell_host \<Rightarrow> 's shell_host" where
  "close_host s = fold close_channel (sh_clients s) s"

section \<open>A viewer\<close>

text \<open>
  What a client shows (TerminalScreen.tsx), apart from fitting the picture to its own window:
  a snapshot resets the terminal, resizes it and writes the data.
\<close>

definition show_frame :: "'s emulator \<Rightarrow> tframe \<Rightarrow> 's option \<Rightarrow> 's option" where
  "show_frame E f x = (case f of
      F_Snapshot d q cols rows \<Rightarrow> Some (em_write E d (em_fresh E cols rows))
    | F_Output d q \<Rightarrow> map_option (em_write E d) x
    | F_Resize cols rows q \<Rightarrow> map_option (em_resize E cols rows) x
    | _ \<Rightarrow> x)"

definition shown :: "'s emulator \<Rightarrow> tframe list \<Rightarrow> 's option" where
  "shown E fs = fold (show_frame E) fs None"

text \<open>Whether a client may type, and in which epoch: the last control frame it got.\<close>

fun control_of :: "tframe list \<Rightarrow> (bool \<times> nat) option" where
  "control_of [] = None"
| "control_of (f # fs) = (case control_of fs of
      Some x \<Rightarrow> Some x
    | None \<Rightarrow> (case f of F_Control b e _ \<Rightarrow> Some (b, e) | _ \<Rightarrow> None))"

end
