(* ===== verification/Terminal_Host_Laws.thy ===== *)
theory Terminal_Host_Laws
  imports Terminal_Host
begin

text \<open>
  A shell host under every sequence of callbacks: its clients are synchronised with its
  screen, know who may type, and the process is never left paused.
\<close>

section \<open>Steps\<close>

inductive shell_step :: "'s emulator \<Rightarrow> 's shell_host \<Rightarrow> 's shell_host \<Rightarrow> bool" for E where
  SH_Output: "shell_step E s (process_output d s)"
| SH_Exit: "shell_step E s (process_exit code s)"
| SH_Attach: "c \<notin> set (sh_used s) \<Longrightarrow> shell_step E s (attach_channel c s)"
| SH_Message: "shell_step E s (channel_message c m s)"
| SH_Break: "shell_step E s (close_channel c s)"
| SH_Closed: "c \<in> set (sh_gone s) \<Longrightarrow> shell_step E s (channel_closed c s)"
| SH_Tail: "shell_step E s (run_tail E s)"
| SH_Terminate: "shell_step E s (terminate_shell s)"
| SH_Close: "shell_step E s (close_host s)"

abbreviation shell_reach :: "'s emulator \<Rightarrow> 's shell_host \<Rightarrow> bool" where
  "shell_reach E s \<equiv> \<exists>cols rows. (shell_step E)\<^sup>*\<^sup>* (new_shell_host E cols rows) s"

section \<open>The invariant\<close>

text \<open>A client's frames since its last snapshot, applied to the screen that was captured, give the host's screen; none is missing.\<close>

definition live_frame :: "tframe \<Rightarrow> bool" where
  "live_frame f \<longleftrightarrow> (case f of F_Snapshot _ _ _ _ \<Rightarrow> False | _ \<Rightarrow> True)"

definition change_seq :: "tframe \<Rightarrow> nat list" where
  "change_seq f = (case f of F_Output _ q \<Rightarrow> [q] | F_Resize _ _ q \<Rightarrow> [q] | _ \<Rightarrow> [])"

definition snapshot_of :: "'s emulator \<Rightarrow> 's \<Rightarrow> nat \<Rightarrow> tframe" where
  "snapshot_of E x q = F_Snapshot (em_serialize E x) q (em_cols E x) (em_rows E x)"

definition synced :: "'s emulator \<Rightarrow> 's \<Rightarrow> nat \<Rightarrow> tframe list \<Rightarrow> bool" where
  "synced E screen q wire \<longleftrightarrow> (\<exists>pre x q0 fs. wire = pre @ snapshot_of E x q0 # fs \<and> (\<forall>f \<in> set fs. live_frame f) \<and>
     fold (show_frame E) fs (Some x) = Some screen \<and> concat (map change_seq fs) = [Suc q0..<Suc q] \<and> q0 \<le> q)"

definition epochs :: "(typed_by \<times> string) list \<Rightarrow> (nat \<times> nat) list" where
  "epochs xs = concat (map (\<lambda>(b, _). case b of By_Client c e \<Rightarrow> [(c, e)] | By_Emulator \<Rightarrow> []) xs)"

definition fenced :: "nat option \<Rightarrow> nat \<Rightarrow> (nat \<times> nat) list \<Rightarrow> bool" where
  "fenced writer e es \<longleftrightarrow> sorted (map snd es) \<and> (\<forall>(c, d) \<in> set es. d \<le> e \<and> (d = e \<longrightarrow> writer = Some c)) \<and>
     (\<forall>(c, d) \<in> set es. \<forall>(c', d') \<in> set es. d = d' \<longrightarrow> c = c')"

definition queued_output :: "htask list \<Rightarrow> nat" where
  "queued_output ts = sum_list (map (\<lambda>t. case t of T_Output d \<Rightarrow> length d | _ \<Rightarrow> 0) ts)"

definition clients_ok :: "'s shell_host \<Rightarrow> bool" where
  "clients_ok s \<longleftrightarrow> distinct (sh_clients s) \<and> distinct (sh_ready s) \<and> set (sh_ready s) \<subseteq> set (sh_clients s) \<and>
     length (sh_clients s) \<le> 8 \<and> set (sh_clients s) \<subseteq> set (sh_used s) \<and> (\<forall>c. sh_writer s = Some c \<longrightarrow> c \<in> set (sh_clients s))"

definition pressure_ok :: "'s shell_host \<Rightarrow> bool" where
  "pressure_ok s \<longleftrightarrow> sh_pending s = queued_output (sh_tail s) \<and> (sh_paused s \<longrightarrow> 64000 \<le> sh_pending s)"

definition open_clients :: "'s shell_host \<Rightarrow> nat set" where
  "open_clients s = set (sh_ready s) - set (sh_gone s)"

definition wires_ok :: "'s emulator \<Rightarrow> 's shell_host \<Rightarrow> bool" where
  "wires_ok E s \<longleftrightarrow> (\<forall>c \<in> open_clients s. synced E (sh_screen s) (sh_seq s) (sh_wire s c) \<and>
     control_of (sh_wire s c) = Some (sh_writer s = Some c, sh_epoch s))"

definition shell_ok :: "'s emulator \<Rightarrow> 's shell_host \<Rightarrow> bool" where
  "shell_ok E s \<longleftrightarrow> clients_ok s \<and> pressure_ok s \<and> wires_ok E s \<and> fenced (sh_writer s) (sh_epoch s) (epochs (sh_input s))"

section \<open>Sending to many\<close>

lemma send_frame_gone [simp]: "sh_gone (send_frame c f s) = sh_gone s"
  by (simp add: send_frame_def)

lemma send_all:
  "distinct cs \<Longrightarrow> fold (\<lambda>c. send_frame c (g c)) cs s =
     s\<lparr>sh_wire := (\<lambda>c. if c \<in> set cs \<and> c \<notin> set (sh_gone s) then sh_wire s c @ [g c] else sh_wire s c)\<rparr>"
proof (induction cs arbitrary: s)
  case (Cons a cs)
  then have "fold (\<lambda>c. send_frame c (g c)) (a # cs) s = (send_frame a (g a) s)\<lparr>sh_wire := (\<lambda>c. if c \<in> set cs \<and> c \<notin> set (sh_gone s)
      then sh_wire (send_frame a (g a) s) c @ [g c] else sh_wire (send_frame a (g a) s) c)\<rparr>"
    by simp
  also have "\<dots> = s\<lparr>sh_wire := (\<lambda>c. if c \<in> set (a # cs) \<and> c \<notin> set (sh_gone s) then sh_wire s c @ [g c] else sh_wire s c)\<rparr>"
    using Cons.prems by (cases s) (auto simp: send_frame_def fun_eq_iff)
  finally show ?case .
qed simp

lemma controls_eq:
  "distinct (sh_ready s) \<Longrightarrow> controls s = s\<lparr>sh_wire := (\<lambda>c. if c \<in> open_clients s then sh_wire s c @ [control_frame s c] else sh_wire s c)\<rparr>"
  by (simp add: controls_def send_all open_clients_def)

lemma broadcast_all:
  "distinct cs \<Longrightarrow> fold (\<lambda>c. if p c then close_channel c else send_frame c f) cs s =
     s\<lparr>sh_wire := (\<lambda>c. if c \<in> set cs \<and> \<not> p c \<and> c \<notin> set (sh_gone s) then sh_wire s c @ [f] else sh_wire s c),
       sh_gone := rev (filter p cs) @ sh_gone s\<rparr>"
proof (induction cs arbitrary: s)
  case (Cons a cs)
  let ?s = "(if p a then close_channel a else send_frame a f) s"
  from Cons have "fold (\<lambda>c. if p c then close_channel c else send_frame c f) (a # cs) s =
      ?s\<lparr>sh_wire := (\<lambda>c. if c \<in> set cs \<and> \<not> p c \<and> c \<notin> set (sh_gone ?s) then sh_wire ?s c @ [f] else sh_wire ?s c),
         sh_gone := rev (filter p cs) @ sh_gone ?s\<rparr>" by simp
  also have "\<dots> = s\<lparr>sh_wire := (\<lambda>c. if c \<in> set (a # cs) \<and> \<not> p c \<and> c \<notin> set (sh_gone s) then sh_wire s c @ [f] else sh_wire s c),
       sh_gone := rev (filter p (a # cs)) @ sh_gone s\<rparr>"
    using Cons.prems by (cases s) (auto simp: send_frame_def close_channel_def fun_eq_iff)
  finally show ?case .
qed simp

lemma broadcast_eq:
  "distinct (sh_ready s) \<Longrightarrow> broadcast f s =
     s\<lparr>sh_wire := (\<lambda>c. if c \<in> open_clients s \<and> \<not> lagging s c then sh_wire s c @ [f] else sh_wire s c),
       sh_gone := rev (filter (lagging s) (sh_ready s)) @ sh_gone s\<rparr>"
  by (auto simp: broadcast_def broadcast_all open_clients_def fun_eq_iff)

section \<open>Frames and synchronisation\<close>

lemma control_of_append: "control_of (xs @ ys) = (case control_of ys of Some x \<Rightarrow> Some x | None \<Rightarrow> control_of xs)"
  by (induction xs) (auto split: option.splits)

lemma control_of_snoc [simp]:
  "control_of (xs @ [F_Control b e a]) = Some (b, e)"
  "control_of (xs @ [F_Output d q]) = control_of xs"
  "control_of (xs @ [F_Resize n m q]) = control_of xs"
  "control_of (xs @ [F_Exit x]) = control_of xs"
  by (simp_all add: control_of_append)

lemma synced_snapshot: "synced E x q (pre @ [F_Snapshot (em_serialize E x) q (em_cols E x) (em_rows E x)])"
  unfolding synced_def snapshot_of_def by (intro exI[of _ pre] exI[of _ x] exI[of _ q] exI[of _ "[]"]) simp

lemma synced_quiet:
  assumes "synced E x q w" "live_frame f" "change_seq f = []" "\<And>y. show_frame E f y = y"
  shows "synced E x q (w @ [f])"
proof -
  obtain pre y q0 fs where o: "w = pre @ snapshot_of E y q0 # fs" "\<forall>f \<in> set fs. live_frame f" "fold (show_frame E) fs (Some y) = Some x"
      "concat (map change_seq fs) = [Suc q0..<Suc q]" "q0 \<le> q" using assms(1) unfolding synced_def by blast
  with assms(2-) show ?thesis unfolding synced_def
    by (intro exI[of _ pre] exI[of _ y] exI[of _ q0] exI[of _ "fs @ [f]"]) auto
qed

lemma synced_control [simp]: "synced E x q w \<Longrightarrow> synced E x q (w @ [F_Control b e a])"
  by (rule synced_quiet) (simp_all add: live_frame_def change_seq_def show_frame_def)

lemma synced_exit [simp]: "synced E x q w \<Longrightarrow> synced E x q (w @ [F_Exit c])"
  by (rule synced_quiet) (simp_all add: live_frame_def change_seq_def show_frame_def)

lemma synced_change:
  assumes "synced E x q w" "live_frame f" "change_seq f = [Suc q]" "show_frame E f (Some x) = Some x'"
  shows "synced E x' (Suc q) (w @ [f])"
proof -
  obtain pre y q0 fs where o: "w = pre @ snapshot_of E y q0 # fs" "\<forall>f \<in> set fs. live_frame f" "fold (show_frame E) fs (Some y) = Some x"
      "concat (map change_seq fs) = [Suc q0..<Suc q]" "q0 \<le> q" using assms(1) unfolding synced_def by blast
  with assms(2-) show ?thesis unfolding synced_def
    by (intro exI[of _ pre] exI[of _ y] exI[of _ q0] exI[of _ "fs @ [f]"]) auto
qed

lemma synced_output: "synced E x q w \<Longrightarrow> synced E (em_write E d x) (Suc q) (w @ [F_Output d (Suc q)])"
  by (erule synced_change) (simp_all add: live_frame_def change_seq_def show_frame_def)

lemma synced_resize: "synced E x q w \<Longrightarrow> synced E (em_resize E n m x) (Suc q) (w @ [F_Resize n m (Suc q)])"
  by (erule synced_change) (simp_all add: live_frame_def change_seq_def show_frame_def)

section \<open>The fence\<close>

lemma epochs_simps [simp]:
  "epochs [] = []" "epochs (xs @ ys) = epochs xs @ epochs ys" "epochs (map (Pair By_Emulator) ds) = []" "epochs [(By_Client c e, d)] = [(c, e)]"
  by (simp_all add: epochs_def comp_def)

lemma fenced_next: "fenced w e es \<Longrightarrow> fenced w' (Suc e) es"
  unfolding fenced_def by fastforce

lemma fenced_type: "fenced (Some c) e es \<Longrightarrow> fenced (Some c) e (es @ [(c, e)])"
  unfolding fenced_def by (auto simp: sorted_append)

lemma queued_output_simps [simp]:
  "queued_output [] = 0" "queued_output (ts @ us) = queued_output ts + queued_output us"
  "queued_output (T_Output d # ts) = length d + queued_output ts" "queued_output (T_Exit x # ts) = queued_output ts"
  "queued_output (T_Input c f # ts) = queued_output ts" "queued_output (T_Snapshot c # ts) = queued_output ts"
  by (simp_all add: queued_output_def)

section \<open>Controls and broadcasts keep the invariant\<close>

text \<open>What holds before the clients are told who may type.\<close>

definition synced_ok :: "'s emulator \<Rightarrow> 's shell_host \<Rightarrow> bool" where
  "synced_ok E s \<longleftrightarrow> clients_ok s \<and> pressure_ok s \<and> (\<forall>c \<in> open_clients s. synced E (sh_screen s) (sh_seq s) (sh_wire s c)) \<and>
     fenced (sh_writer s) (sh_epoch s) (epochs (sh_input s))"

lemma shell_ok_synced: "shell_ok E s \<Longrightarrow> synced_ok E s"
  by (simp add: shell_ok_def synced_ok_def wires_ok_def)

lemma controls_ok: "synced_ok E s \<Longrightarrow> shell_ok E (controls s)"
  by (auto simp: synced_ok_def shell_ok_def controls_eq clients_ok_def pressure_ok_def wires_ok_def control_frame_def open_clients_def)

lemma broadcast_ok:
  assumes ok: "clients_ok s" "pressure_ok s" "fenced (sh_writer s) (sh_epoch s) (epochs (sh_input s))"
    and w: "\<And>c. c \<in> open_clients s \<Longrightarrow> synced E (sh_screen s) (sh_seq s) (sh_wire s c @ [f]) \<and>
      control_of (sh_wire s c @ [f]) = Some (sh_writer s = Some c, sh_epoch s)"
  shows "shell_ok E (broadcast f s)"
proof -
  have eq: "broadcast f s = s\<lparr>sh_wire := (\<lambda>c. if c \<in> open_clients s \<and> \<not> lagging s c then sh_wire s c @ [f] else sh_wire s c),
       sh_gone := rev (filter (lagging s) (sh_ready s)) @ sh_gone s\<rparr>"
    using ok(1) by (simp add: broadcast_eq clients_ok_def)
  have "open_clients (broadcast f s) = {c \<in> open_clients s. \<not> lagging s c}" by (auto simp: eq open_clients_def)
  then show ?thesis using ok w by (auto simp: shell_ok_def wires_ok_def eq clients_ok_def pressure_ok_def)
qed

section \<open>Every step keeps the invariant\<close>

lemma new_host_ok: "shell_ok E (new_shell_host E cols rows)"
  by (simp add: new_shell_host_def shell_ok_def clients_ok_def pressure_ok_def wires_ok_def open_clients_def fenced_def)

text \<open>A step that changes neither the clients nor what they were sent, and closes some.\<close>

lemma quiet_ok:
  assumes "shell_ok E s" "sh_screen s' = sh_screen s" "sh_clients s' = sh_clients s" "sh_ready s' = sh_ready s" "sh_writer s' = sh_writer s"
    "sh_epoch s' = sh_epoch s" "sh_seq s' = sh_seq s" "sh_input s' = sh_input s" "sh_wire s' = sh_wire s"
    "set (sh_gone s) \<subseteq> set (sh_gone s')" "set (sh_used s) \<subseteq> set (sh_used s')" "pressure_ok s \<longrightarrow> pressure_ok s'"
  shows "shell_ok E s'"
  using assms by (auto simp: shell_ok_def clients_ok_def wires_ok_def open_clients_def)

lemma process_output_ok: "shell_ok E s \<Longrightarrow> shell_ok E (process_output d s)"
  by (erule quiet_ok) (auto simp: process_output_def Let_def shell_ok_def pressure_ok_def)

lemma process_exit_ok: "shell_ok E s \<Longrightarrow> shell_ok E (process_exit code s)"
  by (erule quiet_ok) (auto simp: process_exit_def shell_ok_def pressure_ok_def)

lemma terminate_ok: "shell_ok E s \<Longrightarrow> shell_ok E (terminate_shell s)"
  by (erule quiet_ok) (auto simp: terminate_shell_def shell_ok_def pressure_ok_def)

lemma close_channel_ok: "shell_ok E s \<Longrightarrow> shell_ok E (close_channel c s)"
  by (erule quiet_ok) (auto simp: close_channel_def shell_ok_def pressure_ok_def)

lemma close_host_ok:
  assumes "shell_ok E s"
  shows "shell_ok E (close_host s)"
proof -
  have "shell_ok E (fold close_channel cs s)" for cs using assms by (induction cs arbitrary: s) (simp_all add: close_channel_ok)
  then show ?thesis by (simp add: close_host_def)
qed

lemma channel_message_ok: "shell_ok E s \<Longrightarrow> shell_ok E (channel_message c m s)"
  by (erule quiet_ok) (auto simp: channel_message_def close_channel_def shell_ok_def pressure_ok_def split: option.split)

lemma attach_ok: "shell_ok E s \<Longrightarrow> c \<notin> set (sh_used s) \<Longrightarrow> shell_ok E (attach_channel c s)"
  by (auto simp: attach_channel_def Let_def close_channel_def shell_ok_def clients_ok_def pressure_ok_def wires_ok_def open_clients_def)

lemma release_synced:
  assumes "synced_ok E s"
  shows "synced_ok E (s\<lparr>sh_writer := None, sh_epoch := Suc (sh_epoch s)\<rparr>)"
  using assms fenced_next by (auto simp: synced_ok_def clients_ok_def pressure_ok_def open_clients_def)

lemma release_writer_ok: "shell_ok E s \<Longrightarrow> shell_ok E (release_writer c s)"
  by (simp add: release_writer_def controls_ok release_synced shell_ok_synced)

lemma channel_closed_ok:
  assumes "shell_ok E s"
  shows "shell_ok E (channel_closed c s)"
proof (cases "c \<in> set (sh_clients s)")
  case True
  let ?s = "s\<lparr>sh_clients := filter (\<lambda>x. x \<noteq> c) (sh_clients s), sh_ready := filter (\<lambda>x. x \<noteq> c) (sh_ready s), sh_acks := (sh_acks s)(c := None)\<rparr>"
  have len: "length (filter (\<lambda>x. x \<noteq> c) (sh_clients s)) \<le> 8" using assms by (auto simp: shell_ok_def clients_ok_def intro: order_trans[OF length_filter_le])
  show ?thesis
  proof (cases "sh_writer s = Some c")
    case w: True
    have "synced_ok E (?s\<lparr>sh_writer := None, sh_epoch := Suc (sh_epoch ?s)\<rparr>)"
      using assms len fenced_next by (auto simp: shell_ok_def synced_ok_def clients_ok_def pressure_ok_def wires_ok_def open_clients_def)
    from controls_ok[OF this] show ?thesis using True w by (simp add: channel_closed_def release_writer_def)
  next
    case False
    have "shell_ok E ?s"
      using assms len False by (auto simp: shell_ok_def clients_ok_def pressure_ok_def wires_ok_def open_clients_def)
    then show ?thesis using True False by (simp add: channel_closed_def release_writer_def)
  qed
qed (use assms in \<open>simp add: channel_closed_def\<close>)

lemma host_input_ok:
  assumes ok: "shell_ok E s" and c: "c \<in> set (sh_clients s)"
  shows "shell_ok E (host_input E c f s)"
proof (cases f)
  case (In_Ack q)
  then show ?thesis using ok by (auto simp: host_input_def pressure_ok_def intro!: quiet_ok[OF ok])
next
  case (In_Claim a)
  have "synced_ok E (s\<lparr>sh_writer := Some c, sh_epoch := Suc (sh_epoch s)\<rparr>)"
    using shell_ok_synced[OF ok] c fenced_next by (auto simp: synced_ok_def clients_ok_def pressure_ok_def open_clients_def)
  then show ?thesis using In_Claim shell_ok_synced[OF ok] by (simp add: host_input_def controls_ok)
next
  case In_Release
  then show ?thesis using release_writer_ok[OF ok] by (simp add: host_input_def)
next
  case (In_Data e d)
  have "shell_ok E (s\<lparr>sh_input := sh_input s @ [(By_Client c e, d)]\<rparr>)" if "sh_writer s = Some c" "e = sh_epoch s"
    using ok that fenced_type by (auto simp: shell_ok_def clients_ok_def pressure_ok_def wires_ok_def open_clients_def)
  then show ?thesis using In_Data ok by (simp add: host_input_def)
next
  case (In_Resize e cols rows)
  let ?s = "s\<lparr>sh_screen := em_resize E cols rows (sh_screen s), sh_size := (cols, rows), sh_seq := Suc (sh_seq s)\<rparr>"
  have "clients_ok ?s" "pressure_ok ?s" "fenced (sh_writer ?s) (sh_epoch ?s) (epochs (sh_input ?s))"
    using ok by (auto simp: shell_ok_def clients_ok_def pressure_ok_def)
  moreover have "synced E (sh_screen ?s) (sh_seq ?s) (sh_wire ?s c @ [F_Resize cols rows (Suc (sh_seq s))]) \<and>
      control_of (sh_wire ?s c @ [F_Resize cols rows (Suc (sh_seq s))]) = Some (sh_writer ?s = Some c, sh_epoch ?s)" if "c \<in> open_clients ?s" for c
    using ok that by (simp add: synced_resize shell_ok_def wires_ok_def open_clients_def)
  ultimately have "shell_ok E (broadcast (F_Resize cols rows (Suc (sh_seq s))) ?s)" by (rule broadcast_ok)
  then show ?thesis using In_Resize ok by (simp add: host_input_def)
qed

lemma run_exit_ok:
  assumes ok: "shell_ok E s"
  shows "shell_ok E (run_exit code s)"
proof -
  let ?s = "s\<lparr>sh_ended := True\<rparr>"
  have "clients_ok ?s" "pressure_ok ?s" "fenced (sh_writer ?s) (sh_epoch ?s) (epochs (sh_input ?s))"
    using ok by (auto simp: shell_ok_def clients_ok_def pressure_ok_def)
  moreover have "synced E (sh_screen ?s) (sh_seq ?s) (sh_wire ?s c @ [F_Exit code]) \<and>
      control_of (sh_wire ?s c @ [F_Exit code]) = Some (sh_writer ?s = Some c, sh_epoch ?s)" if "c \<in> open_clients ?s" for c
    using ok that by (simp add: shell_ok_def wires_ok_def open_clients_def)
  ultimately have "shell_ok E (broadcast (F_Exit code) ?s)" by (rule broadcast_ok)
  then show ?thesis unfolding run_exit_def Let_def by (elim quiet_ok) (auto simp: pressure_ok_def)
qed

lemma run_snapshot_ok:
  assumes ok: "shell_ok E s"
  shows "shell_ok E (run_snapshot E c s)"
proof (cases "c \<in> set (sh_clients s)")
  case True
  define s' where "s' = (send_frame c (F_Snapshot (em_serialize E (sh_screen s)) (sh_seq s) (em_cols E (sh_screen s)) (em_rows E (sh_screen s))) s)
      \<lparr>sh_acks := (sh_acks s)(c \<mapsto> sh_seq s), sh_ready := (if c \<in> set (sh_ready s) then sh_ready s else sh_ready s @ [c])\<rparr>"
  have "synced_ok E s'" unfolding s'_def using ok True
    by (auto simp: synced_snapshot shell_ok_def synced_ok_def clients_ok_def pressure_ok_def wires_ok_def open_clients_def send_frame_def)
  moreover have "run_snapshot E c s = controls s'" using True by (simp add: run_snapshot_def Let_def s'_def send_frame_def)
  ultimately show ?thesis by (simp add: controls_ok)
qed (use ok in \<open>simp add: run_snapshot_def\<close>)

text \<open>The task itself has left the queue, so the count of queued output is one output ahead.\<close>

lemma run_output_ok:
  assumes ok: "shell_ok E (s\<lparr>sh_tail := T_Output d # ts\<rparr>)"
  shows "shell_ok E (run_output E d (s\<lparr>sh_tail := ts\<rparr>))"
proof -
  let ?s = "s\<lparr>sh_tail := T_Output d # ts, sh_input := sh_input s @ map (Pair By_Emulator) (em_replies E d (sh_screen s)),
      sh_screen := em_write E d (sh_screen s), sh_seq := Suc (sh_seq s)\<rparr>"
  have st: "clients_ok ?s" "pressure_ok ?s" "fenced (sh_writer ?s) (sh_epoch ?s) (epochs (sh_input ?s))"
    using ok by (auto simp: shell_ok_def clients_ok_def pressure_ok_def)
  moreover have "synced E (sh_screen ?s) (sh_seq ?s) (sh_wire ?s c @ [F_Output d (Suc (sh_seq s))]) \<and>
      control_of (sh_wire ?s c @ [F_Output d (Suc (sh_seq s))]) = Some (sh_writer ?s = Some c, sh_epoch ?s)" if "c \<in> open_clients ?s" for c
    using ok that by (simp add: synced_output shell_ok_def wires_ok_def open_clients_def)
  ultimately have b: "shell_ok E (broadcast (F_Output d (Suc (sh_seq s))) ?s)" by (rule broadcast_ok)
  have ready: "distinct (sh_ready s)" using st(1) by (simp add: clients_ok_def)
  have pend: "sh_pending s = length d + queued_output ts" using st(2) by (simp add: pressure_ok_def)
  show ?thesis using b pend ready
    by (auto simp: run_output_def Let_def broadcast_eq lagging_def[abs_def] shell_ok_def clients_ok_def pressure_ok_def wires_ok_def open_clients_def)
qed

lemma run_tail_ok:
  assumes ok: "shell_ok E s"
  shows "shell_ok E (run_tail E s)"
proof (cases "sh_tail s")
  case (Cons t ts)
  have q: "shell_ok E (s\<lparr>sh_tail := ts\<rparr>)" if "\<forall>d. t \<noteq> T_Output d"
    using that by (intro quiet_ok[OF ok]) (use ok Cons in \<open>cases t; auto simp: shell_ok_def pressure_ok_def\<close>)+
  show ?thesis
  proof (cases t)
    case (T_Output d)
    have "s = s\<lparr>sh_tail := T_Output d # ts\<rparr>" using Cons T_Output by simp
    with ok have "shell_ok E (s\<lparr>sh_tail := T_Output d # ts\<rparr>)" by simp
    from run_output_ok[OF this] show ?thesis using Cons T_Output by (simp add: run_tail_def run_task_def)
  next
    case (T_Exit x)
    then show ?thesis using q run_exit_ok Cons by (simp add: run_tail_def run_task_def)
  next
    case (T_Input c f)
    then show ?thesis using q host_input_ok[of E "s\<lparr>sh_tail := ts\<rparr>" c f] Cons by (simp add: run_tail_def run_task_def)
  next
    case (T_Snapshot c)
    then show ?thesis using q run_snapshot_ok Cons by (simp add: run_tail_def run_task_def)
  qed
qed (use ok in \<open>simp add: run_tail_def\<close>)

lemma shell_step_ok: "shell_step E s s' \<Longrightarrow> shell_ok E s \<Longrightarrow> shell_ok E s'"
  by (induction rule: shell_step.induct)
    (simp_all add: process_output_ok process_exit_ok attach_ok channel_message_ok close_channel_ok channel_closed_ok run_tail_ok terminate_ok close_host_ok)

lemma shell_reach_ok: "shell_reach E s \<Longrightarrow> shell_ok E s"
proof (elim exE)
  fix cols rows assume "(shell_step E)\<^sup>*\<^sup>* (new_shell_host E cols rows) s"
  then show "shell_ok E s" by (induction rule: rtranclp_induct) (simp_all add: new_host_ok shell_step_ok)
qed

end
