(* ===== verification/Terminal_Host_Properties.thy ===== *)
theory Terminal_Host_Properties
  imports Terminal_Host_Laws
begin

text \<open>
  What a shell host guarantees to its clients, with a run on a small emulator: a shell prints,
  a client attaches, takes control and types, and the shell prints again.
\<close>

section \<open>A run\<close>

text \<open>An emulator that keeps the text it was given and its size.\<close>

definition tape :: "(string \<times> int \<times> int) emulator" where
  "tape = \<lparr>em_fresh = (\<lambda>n m. ([], n, m)), em_write = (\<lambda>d (t, n, m). (t @ d, n, m)), em_replies = (\<lambda>_ _. []),
     em_resize = (\<lambda>n m (t, _, _). (t, n, m)), em_serialize = fst, em_cols = (\<lambda>x. fst (snd x)), em_rows = (\<lambda>x. snd (snd x))\<rparr>"

text \<open>The states of the run, each written out.\<close>

definition tape_state :: "string \<Rightarrow> nat list \<Rightarrow> nat option \<Rightarrow> nat \<Rightarrow> nat \<Rightarrow> (typed_by \<times> string) list \<Rightarrow> tframe list \<Rightarrow> (string \<times> int \<times> int) shell_host" where
  "tape_state text cs writer e q inp wire = (new_shell_host tape 80 24)\<lparr>sh_screen := (text, 80, 24), sh_clients := cs, sh_ready := cs,
     sh_writer := writer, sh_epoch := e, sh_seq := q, sh_acks := (if cs = [] then (\<lambda>_. None) else [1 \<mapsto> 1]), sh_input := inp,
     sh_wire := (if cs = [] then (\<lambda>_. []) else (\<lambda>_. [])(1 := wire)), sh_used := cs\<rparr>"

definition tape_wire :: "tframe list" where "tape_wire = [F_Snapshot ''a'' 1 80 24, F_Control False 0 True]"

definition tape_started :: "(string \<times> int \<times> int) shell_host" where "tape_started = tape_state ''a'' [] None 0 1 [] []"

definition tape_attached :: "(string \<times> int \<times> int) shell_host" where "tape_attached = tape_state ''a'' [1] None 0 1 [] tape_wire"

definition tape_claimed :: "(string \<times> int \<times> int) shell_host" where
  "tape_claimed = tape_state ''a'' [1] (Some 1) 1 1 [] (tape_wire @ [F_Control True 1 False])"

definition tape_typed :: "(string \<times> int \<times> int) shell_host" where
  "tape_typed = tape_state ''a'' [1] (Some 1) 1 1 [(By_Client 1 1, ''x'')] (tape_wire @ [F_Control True 1 False])"

definition tape_done :: "(string \<times> int \<times> int) shell_host" where
  "tape_done = tape_state ''ab'' [1] (Some 1) 1 2 [(By_Client 1 1, ''x'')] (tape_wire @ [F_Control True 1 False, F_Output ''b'' 2])"

lemmas tape_run = tape_state_def new_shell_host_def tape_def process_output_def run_tail_def run_task_def run_output_def broadcast_def attach_channel_def
  run_snapshot_def send_frame_def controls_def control_frame_def channel_message_def host_input_def lagging_def tape_wire_def

lemma tape_starts: "run_tail tape (process_output ''a'' (new_shell_host tape 80 24)) = tape_started"
  by (simp add: tape_started_def tape_run)

lemma tape_attaches: "run_tail tape (attach_channel 1 tape_started) = tape_attached"
  by (simp add: tape_started_def tape_attached_def tape_run)

lemma tape_claims: "run_tail tape (channel_message 1 (Some (In_Claim False)) tape_attached) = tape_claimed"
  by (simp add: tape_claimed_def tape_attached_def tape_run)

lemma tape_types: "run_tail tape (channel_message 1 (Some (In_Data 1 ''x'')) tape_claimed) = tape_typed"
  by (simp add: tape_claimed_def tape_typed_def tape_run)

lemma tape_ends: "run_tail tape (process_output ''b'' tape_typed) = tape_done"
  by (simp add: tape_done_def tape_typed_def tape_run numeral_2_eq_2)

lemma shell_reach_step: "shell_reach E s \<Longrightarrow> shell_step E s s' \<Longrightarrow> shell_reach E s'"
  by (meson rtranclp.rtrancl_into_rtrancl)

lemma shell_reach_tail: "shell_reach E s \<Longrightarrow> shell_step E s s' \<Longrightarrow> shell_reach E (run_tail E s')"
  using shell_reach_step[OF shell_reach_step SH_Tail] by blast

lemma tape_done_reach: "shell_reach tape tape_done"
proof -
  have "shell_reach tape (new_shell_host tape 80 24)" by blast
  from shell_reach_tail[OF this SH_Output] have "shell_reach tape tape_started" by (simp only: tape_starts flip: tape_starts)
  moreover have "1 \<notin> set (sh_used tape_started)" by (simp add: tape_started_def tape_state_def)
  ultimately have "shell_reach tape (run_tail tape (attach_channel 1 tape_started))" by (intro shell_reach_tail[OF _ SH_Attach])
  from shell_reach_tail[OF this SH_Message] have "shell_reach tape tape_claimed" unfolding tape_attaches by (simp flip: tape_claims)
  from shell_reach_tail[OF this SH_Message] have "shell_reach tape tape_typed" by (simp flip: tape_types)
  from shell_reach_tail[OF this SH_Output] show ?thesis by (simp flip: tape_ends)
qed

lemma tape_done_clients: "sh_ready tape_done = [1]" "sh_gone tape_done = []" "sh_tail tape_done = []" "sh_screen tape_done = (''ab'', 80, 24)"
    "sh_epoch tape_done = 1" "epochs (sh_input tape_done) = [(1, 1)]"
  by (simp_all add: tape_done_def tape_state_def new_shell_host_def epochs_def)

section \<open>Clients see the shell\<close>

text \<open>
  C33. A client that is attached and not disconnected mirrors the shell: its frames end with a
  snapshot of some screen and every change since, in order and without a gap, up to the
  host's sequence number; if that snapshot restores the screen it was taken from, what the
  client shows is the host's screen.
\<close>

theorem clients_mirror_the_shell:
  assumes "shell_reach E s" and "c \<in> set (sh_ready s)" and "c \<notin> set (sh_gone s)"
  shows "\<exists>pre x q fs. sh_wire s c = pre @ snapshot_of E x q # fs \<and> (\<forall>f \<in> set fs. live_frame f) \<and>
    concat (map change_seq fs) = [Suc q..<Suc (sh_seq s)] \<and>
    (show_frame E (snapshot_of E x q) None = Some x \<longrightarrow> shown E (sh_wire s c) = Some (sh_screen s))"
proof -
  have "synced E (sh_screen s) (sh_seq s) (sh_wire s c)"
    using shell_reach_ok[OF assms(1)] assms(2,3) by (simp add: shell_ok_def wires_ok_def open_clients_def)
  then obtain pre x q fs where o: "sh_wire s c = pre @ snapshot_of E x q # fs" "\<forall>f \<in> set fs. live_frame f"
      "fold (show_frame E) fs (Some x) = Some (sh_screen s)" "concat (map change_seq fs) = [Suc q..<Suc (sh_seq s)]"
    unfolding synced_def by blast
  have "show_frame E (snapshot_of E x q) y = show_frame E (snapshot_of E x q) None" for y
    by (simp add: snapshot_of_def show_frame_def)
  then have "show_frame E (snapshot_of E x q) None = Some x \<longrightarrow> shown E (sh_wire s c) = Some (sh_screen s)"
    using o(1,3) by (simp add: shown_def) (metis)
  with o show ?thesis by blast
qed

lemma clients_mirror_the_shell_witness: "shown tape (sh_wire tape_done 1) = Some (sh_screen tape_done) \<and> sh_screen tape_done = (''ab'', 80, 24)"
proof -
  have "show_frame tape (snapshot_of tape x q) None = Some x" for x q
    by (cases x) (simp add: show_frame_def snapshot_of_def tape_def)
  then show ?thesis using clients_mirror_the_shell[OF tape_done_reach, of 1] tape_done_clients by auto
qed

section \<open>One writer\<close>

text \<open>
  C34. At most one attached client is told that it may type, and it is the writer, in the
  current epoch. What clients typed reached the shell in the order of the epochs, and in one
  epoch from one client only: input sent under a control that has since been lost or taken
  over never reaches the shell, not even when its sender has regained control.
\<close>

theorem one_writer:
  assumes "shell_reach E s"
  shows "(\<forall>c \<in> open_clients s. \<forall>e. control_of (sh_wire s c) = Some (True, e) \<longrightarrow> sh_writer s = Some c \<and> e = sh_epoch s) \<and>
    sorted (map snd (epochs (sh_input s))) \<and>
    (\<forall>(c, e) \<in> set (epochs (sh_input s)). e \<le> sh_epoch s \<and> (e = sh_epoch s \<longrightarrow> sh_writer s = Some c) \<and>
       (\<forall>(c', e') \<in> set (epochs (sh_input s)). e' = e \<longrightarrow> c' = c))"
proof -
  have ok: "shell_ok E s" using shell_reach_ok[OF assms] .
  have "control_of (sh_wire s c) = Some (sh_writer s = Some c, sh_epoch s)" if "c \<in> open_clients s" for c
    using ok that by (simp add: shell_ok_def wires_ok_def)
  moreover have "fenced (sh_writer s) (sh_epoch s) (epochs (sh_input s))" using ok by (simp add: shell_ok_def)
  ultimately show ?thesis unfolding fenced_def by (intro conjI) (simp, blast, blast)
qed

lemma one_writer_witness: "epochs (sh_input tape_done) = [(1, 1)] \<and> sh_writer tape_done = Some 1"
proof -
  show ?thesis using one_writer[OF tape_done_reach] by (simp add: tape_done_clients)
qed

section \<open>Back pressure\<close>

text \<open>
  C35. The shell's process is paused only while at least 64000 characters of its output wait to
  be shown, which their showing resumes: once all output has been shown the process is not
  paused. At most eight clients are attached.
\<close>

theorem never_left_paused:
  assumes "shell_reach E s"
  shows "sh_pending s = queued_output (sh_tail s) \<and> (sh_paused s \<longrightarrow> 64000 \<le> queued_output (sh_tail s)) \<and>
    length (sh_clients s) \<le> 8"
  using shell_reach_ok[OF assms] by (auto simp: shell_ok_def pressure_ok_def clients_ok_def)

lemma never_left_paused_witness: "\<not> sh_paused tape_done"
proof -
  show ?thesis using never_left_paused[OF tape_done_reach] by (simp add: tape_done_clients)
qed

end
