(* ===== verification/Streams.thy ===== *)
theory Streams
  imports Prelude "HOL-Library.Word"
begin

text \<open>
  Text that arrives in pieces: pasted input cut into frames (packages/shared/src/terminals.ts),
  lines of a process's output (platform/process/ndjson.ts) and terminal output shown by a
  native terminal (modules/terminals/adapters/inbound/viewer-output.ts).
\<close>

section \<open>Pasted input\<close>

text \<open>A JavaScript string here is a list of 16-bit code units, some of which are halves of a pair.\<close>

definition inputChunkLength :: nat where "inputChunkLength = 16384"

definition high_half :: "16 word \<Rightarrow> bool" where "high_half u \<longleftrightarrow> 0xD800 \<le> u \<and> u \<le> 0xDBFF"

definition low_half :: "16 word \<Rightarrow> bool" where "low_half u \<longleftrightarrow> 0xDC00 \<le> u \<and> u \<le> 0xDFFF"

definition chunk_length :: "16 word list \<Rightarrow> nat" where
  "chunk_length xs = (let n = min (length xs) inputChunkLength in
     if n < length xs \<and> high_half (xs ! (n - 1)) then n - 1 else n)"

lemma chunk_length_pos: "xs \<noteq> [] \<Longrightarrow> 0 < chunk_length xs"
  by (auto simp: chunk_length_def inputChunkLength_def Let_def min_def)

lemma chunk_length_le: "chunk_length xs \<le> length xs" "chunk_length xs \<le> inputChunkLength"
  by (auto simp: chunk_length_def Let_def)

function terminalInputChunks :: "16 word list \<Rightarrow> 16 word list list" where
  "terminalInputChunks xs = (if xs = [] then []
     else take (chunk_length xs) xs # terminalInputChunks (drop (chunk_length xs) xs))"
  by pat_completeness auto
termination by (relation "measure length") (auto simp: chunk_length_pos)

declare terminalInputChunks.simps [simp del]

section \<open>Text\<close>

text \<open>From here on a text is a list of code points. \<open>Buffer.toString\<close> decodes UTF-8 and puts U+FFFD for what is no character.\<close>

type_synonym codes = "nat list"

abbreviation code :: "string \<Rightarrow> codes" where "code s \<equiv> map of_char s"

definition utf8_lead :: "nat \<Rightarrow> (nat \<times> nat \<times> nat \<times> nat) option" where
  "utf8_lead b = (
     if 194 \<le> b \<and> b \<le> 223 then Some (1, 128, 191, b - 192)
     else if 224 \<le> b \<and> b \<le> 239 then Some (2, if b = 224 then 160 else 128, if b = 237 then 159 else 191, b - 224)
     else if 240 \<le> b \<and> b \<le> 244 then Some (3, if b = 240 then 144 else 128, if b = 244 then 143 else 191, b - 240)
     else None)"

function utf8 :: "nat list \<Rightarrow> codes" where
  "utf8 [] = []"
| "utf8 (b # bs) = (if b < 128 then b # utf8 bs else case utf8_lead b of
      None \<Rightarrow> 65533 # utf8 bs
    | Some (n, lo, hi, acc) \<Rightarrow>
        let more = (case bs of [] \<Rightarrow> [] | c # cs \<Rightarrow> if lo \<le> c \<and> c \<le> hi then c # takeWhile (\<lambda>x. x div 64 = 2) cs else []);
            k = min n (length more)
        in (if k = n then foldl (\<lambda>a x. a * 64 + x mod 64) acc (take n more) else 65533) # utf8 (drop k bs))"
  by pat_completeness auto
termination by (relation "measure length") auto

definition js_white :: "nat \<Rightarrow> bool" where
  "js_white c \<longleftrightarrow> c \<in> {9, 10, 11, 12, 13, 32, 160, 5760, 8232, 8233, 8239, 8287, 12288, 65279} \<or> 8192 \<le> c \<and> c \<le> 8202"

definition trim_codes :: "codes \<Rightarrow> codes" where
  "trim_codes s = rev (dropWhile js_white (rev (dropWhile js_white s)))"

section \<open>Lines of a process\<close>

function cut_lines :: "codes \<Rightarrow> codes list \<times> codes" where
  "cut_lines buf = (case dropWhile (\<lambda>c. c \<noteq> 10) buf of
      [] \<Rightarrow> ([], buf)
    | _ # rest \<Rightarrow> apfst ((#) (takeWhile (\<lambda>c. c \<noteq> 10) buf)) (cut_lines rest))"
  by pat_completeness auto
termination
proof (relation "measure length")
  fix buf :: codes and c rest assume "dropWhile (\<lambda>c. c \<noteq> 10) buf = c # rest"
  then show "(rest, buf) \<in> measure length" using length_dropWhile_le[of "\<lambda>c. c \<noteq> 10" buf] by simp
qed simp

declare cut_lines.simps [simp del]

text \<open>\<open>line.replace(/\r$/, "").trim()\<close>, unless nothing is left.\<close>

definition clean_line :: "codes \<Rightarrow> codes list" where
  "clean_line l = (let t = trim_codes (if l \<noteq> [] \<and> last l = 13 then butlast l else l) in if t = [] then [] else [t])"

definition ndjson_push :: "codes \<Rightarrow> codes \<Rightarrow> codes list \<times> codes" where
  "ndjson_push chunk buf = (case cut_lines (buf @ chunk) of (ls, buf) \<Rightarrow> (concat (map clean_line ls), buf))"

definition ndjson_flush :: "codes \<Rightarrow> codes list \<times> codes" where
  "ndjson_flush buf = (clean_line buf, [])"

text \<open>A splitter fed with all chunks of a stream and flushed at its end.\<close>

fun ndjson_all :: "codes list \<Rightarrow> codes \<Rightarrow> codes list" where
  "ndjson_all [] buf = fst (ndjson_flush buf)"
| "ndjson_all (c # cs) buf = (case ndjson_push c buf of (ls, buf) \<Rightarrow> ls @ ndjson_all cs buf)"

section \<open>Terminal output shown by a native terminal\<close>

definition esc :: nat where "esc = 27"

text \<open>The length of a string in code units.\<close>

definition units :: "codes \<Rightarrow> nat" where "units s = sum_list (map (\<lambda>c. if c < 65536 then 1 else 2) s)"

definition parameters :: "codes \<Rightarrow> bool" where "parameters s \<longleftrightarrow> list_all (\<lambda>c. c \<in> set (code ''0123456789;'')) s"

definition csi_query :: "codes \<Rightarrow> bool" where
  "csi_query p = (let body = butlast (drop 2 p); final = last p in
     final \<in> set (code ''cn'') \<and> (parameters body \<or> body \<noteq> [] \<and> hd body \<in> set (code ''?>='') \<and> parameters (tl body)) \<or>
     final \<in> set (code ''t'') \<and> parameters body)"

definition asks :: "codes \<Rightarrow> bool" where
  "asks s \<longleftrightarrow> 63 \<in> set (takeWhile (\<lambda>c. c \<notin> {10, 13, 8232, 8233}) s)"

definition string_query :: "codes \<Rightarrow> bool" where
  "string_query p \<longleftrightarrow> prefix (esc # code ''P$q'') p \<or> prefix (esc # code '']52;'') p \<or>
     (\<exists>k \<in> {code '']4;'', code '']10;'', code '']11;'', code '']12;''}. prefix (esc # k) p \<and> asks (drop (Suc (length k)) p))"

text \<open>One character: what is shown and what is kept, or the error; kept is empty or begins with ESC.\<close>

definition viewer_step :: "nat \<Rightarrow> codes \<Rightarrow> codes result \<times> codes" where
  "viewer_step c p = (if p = [] then if c = esc then (Inr [], [c]) else (Inr [c], [])
     else let p = p @ [c]; kind = p ! 1 in
       if units p = 2 \<and> kind \<in> set (code ''[]P()*+#%'') then (Inr [], p)
       else if kind \<in> set (code ''['') then
         (if \<not> (64 \<le> c \<and> c \<le> 126) then (Inr [], p) else (Inr (if csi_query p then [] else p), []))
       else if kind \<in> set (code '']P'') then
         (if c \<noteq> 7 \<and> \<not> suffix [esc, 92] p
          then (if 65536 < units p then (Inl (Js_Error ''Terminal control sequence is too large''), p) else (Inr [], p))
          else (Inr (if string_query p then [] else p), []))
       else (Inr p, []))"

fun viewer_write :: "codes \<Rightarrow> codes \<Rightarrow> codes result \<times> codes" where
  "viewer_write [] p = (Inr [], p)"
| "viewer_write (c # cs) p = (case viewer_step c p of
      (Inl e, p) \<Rightarrow> (Inl e, p)
    | (Inr out, p) \<Rightarrow> apfst (map_sum id ((@) out)) (viewer_write cs p))"

text \<open>The output of a terminal, written in pieces; an error ends the attachment.\<close>

fun viewer_writes :: "codes list \<Rightarrow> codes \<Rightarrow> codes result \<times> codes" where
  "viewer_writes [] p = (Inr [], p)"
| "viewer_writes (d # ds) p = (case viewer_write d p of
      (Inl e, p) \<Rightarrow> (Inl e, p)
    | (Inr out, p) \<Rightarrow> apfst (map_sum id ((@) out)) (viewer_writes ds p))"

end
