(* ===== verification/Stream_Properties.thy ===== *)
theory Stream_Properties
  imports Streams
begin

text \<open>
  What the code that handles text in pieces guarantees: nothing is lost or split where it must
  not be, and the result does not depend on where the pieces were cut.
\<close>

section \<open>Pasted input\<close>

text \<open>A cut between the halves of a pair.\<close>

definition splits_pair :: "16 word list \<Rightarrow> 16 word list \<Rightarrow> bool" where
  "splits_pair xs ys \<longleftrightarrow> xs \<noteq> [] \<and> ys \<noteq> [] \<and> high_half (last xs) \<and> low_half (hd ys)"

lemma halves_differ: "high_half u \<Longrightarrow> \<not> low_half u"
  by (auto simp: high_half_def low_half_def word_le_nat_alt)

lemma cut_keeps_pairs: "\<not> splits_pair (take (chunk_length xs) xs) (drop (chunk_length xs) xs)"
proof (cases "chunk_length xs < length xs")
  case True
  then have n: "0 < chunk_length xs" using chunk_length_pos[of xs] by (cases "xs = []") auto
  have cut: "last (take (chunk_length xs) xs) = xs ! (chunk_length xs - 1)" "hd (drop (chunk_length xs) xs) = xs ! chunk_length xs"
    using True n by (simp_all add: last_conv_nth hd_drop_conv_nth flip: length_greater_0_conv)
  show ?thesis
  proof (cases "inputChunkLength < length xs \<and> high_half (xs ! (inputChunkLength - 1))")
    case True
    then have "chunk_length xs = inputChunkLength - 1" by (simp add: chunk_length_def Let_def min_def)
    then have "high_half (hd (drop (chunk_length xs) xs))" unfolding cut(2) using True by simp
    then show ?thesis using halves_differ by (simp add: splits_pair_def)
  next
    case False
    with \<open>chunk_length xs < length xs\<close> have "inputChunkLength < length xs" "chunk_length xs = inputChunkLength"
      by (auto simp: chunk_length_def Let_def min_def split: if_splits)
    then have "\<not> high_half (last (take (chunk_length xs) xs))" unfolding cut(1) using False by simp
    then show ?thesis by (simp add: splits_pair_def)
  qed
qed (simp add: splits_pair_def)

lemma chunks_concat: "concat (terminalInputChunks xs) = xs"
  by (induction xs rule: terminalInputChunks.induct) (subst terminalInputChunks.simps, simp)

lemma chunks_fit: "list_all (\<lambda>c. c \<noteq> [] \<and> length c \<le> inputChunkLength) (terminalInputChunks xs)"
proof (induction xs rule: terminalInputChunks.induct)
  case (1 xs)
  then show ?case using chunk_length_pos[of xs] chunk_length_le(2)[of xs]
    by (cases "xs = []") (subst terminalInputChunks.simps, force)+
qed

lemma chunks_keep_pairs: "\<not> splits_pair (concat (take k (terminalInputChunks xs))) (concat (drop k (terminalInputChunks xs)))"
proof (induction xs arbitrary: k rule: terminalInputChunks.induct)
  case (1 xs)
  show ?case
  proof (cases "xs = [] \<or> k = 0")
    case True
    then show ?thesis by (auto simp: splits_pair_def terminalInputChunks.simps[of "[]"])
  next
    case False
    let ?n = "chunk_length xs"
    have eq: "terminalInputChunks xs = take ?n xs # terminalInputChunks (drop ?n xs)" using False by (subst terminalInputChunks.simps) simp
    obtain j where k: "k = Suc j" using False by (cases k) auto
    let ?a = "concat (take j (terminalInputChunks (drop ?n xs)))" and ?b = "concat (drop j (terminalInputChunks (drop ?n xs)))"
    have all: "?a @ ?b = drop ?n xs" by (metis append_take_drop_id chunks_concat concat_append)
    have "\<not> splits_pair (take ?n xs @ ?a) ?b"
    proof (cases "?a = []")
      case True
      with all have "?b = drop ?n xs" by (metis append_Nil)
      with True show ?thesis using cut_keeps_pairs[of xs] by (metis append_Nil2)
    next
      case a: False
      then show ?thesis using "1.IH"[of j] False by (simp add: splits_pair_def)
    qed
    then show ?thesis by (simp add: eq k)
  qed
qed

text \<open>
  C36. Input typed or pasted into a terminal is sent in frames that the protocol allows (not
  empty, at most 16384 code units), that together are the input, and none of which ends
  between the two halves of a Unicode pair.
\<close>

theorem input_chunks_round_trip:
  "concat (terminalInputChunks xs) = xs \<and> list_all (\<lambda>c. c \<noteq> [] \<and> length c \<le> inputChunkLength) (terminalInputChunks xs) \<and>
   \<not> splits_pair (concat (take k (terminalInputChunks xs))) (concat (drop k (terminalInputChunks xs)))"
  using chunks_concat chunks_fit chunks_keep_pairs by blast

section \<open>Lines of a process\<close>

text \<open>The lines of a whole text.\<close>

fun lines_of :: "codes \<Rightarrow> codes list" where
  "lines_of [] = [[]]"
| "lines_of (c # cs) = (if c = 10 then [] # lines_of cs else (c # hd (lines_of cs)) # tl (lines_of cs))"

lemma lines_of_not_empty [simp]: "lines_of s \<noteq> []"
  by (cases s) auto

lemma lines_of_append: "lines_of (a @ b) = butlast (lines_of a) @ (last (lines_of a) @ hd (lines_of b)) # tl (lines_of b)"
proof (induction a)
  case (Cons c a)
  show ?case
  proof (cases "lines_of a")
    case (Cons l ls)
    then show ?thesis using Cons.IH by (cases ls) auto
  qed (simp add: lines_of_not_empty)
qed simp

lemma cut_lines_eq: "cut_lines s = (butlast (lines_of s), last (lines_of s))"
proof (induction s rule: cut_lines.induct)
  case (1 s)
  let ?p = "\<lambda>c::nat. c \<noteq> 10"
  have plain: "lines_of t = [t]" if "\<forall>c \<in> set t. c \<noteq> 10" for t :: codes using that by (induction t) auto
  show ?case
  proof (cases "dropWhile ?p s")
    case Nil
    then have "\<forall>c \<in> set s. c \<noteq> 10" by (simp add: dropWhile_eq_Nil_conv)
    from plain[OF this] have "lines_of s = [s]" .
    moreover have "cut_lines s = ([], s)" by (subst cut_lines.simps) (simp only: Nil list.case)
    ultimately show ?thesis by simp
  next
    case (Cons c rest)
    have c: "c = 10" using Cons hd_dropWhile[of ?p s] by simp
    let ?l = "takeWhile ?p s"
    have s: "s = ?l @ 10 # rest" using Cons c takeWhile_dropWhile_id[of ?p s] by simp
    have "lines_of ?l = [?l]" by (rule plain) (auto dest: set_takeWhileD)
    then have "lines_of s = ?l # lines_of rest" using lines_of_append[of ?l "10 # rest"] s by simp
    then show ?thesis using Cons "1.IH"[OF Cons] by (subst cut_lines.simps) simp
  qed
qed

lemma lines_of_plain: "10 \<notin> set t \<Longrightarrow> lines_of t = [t]"
  by (induction t) auto

lemma lines_have_no_newline: "l \<in> set (lines_of s) \<Longrightarrow> 10 \<notin> set l"
proof (induction s arbitrary: l)
  case (Cons c s)
  then show ?case by (cases "lines_of s") (auto split: if_splits)
qed simp

lemma ndjson_all_eq: "10 \<notin> set buf \<Longrightarrow> ndjson_all cs buf = concat (map clean_line (lines_of (buf @ concat cs)))"
proof (induction cs arbitrary: buf)
  case Nil
  then show ?case by (simp add: ndjson_flush_def lines_of_plain)
next
  case (Cons c cs)
  let ?ls = "lines_of (buf @ c)"
  have "10 \<notin> set (last ?ls)" by (rule lines_have_no_newline[OF last_in_set]) simp
  then have rest: "ndjson_all cs (last ?ls) = concat (map clean_line (lines_of (last ?ls @ concat cs)))"
    and last: "lines_of (last ?ls) = [last ?ls]" by (simp_all add: Cons.IH lines_of_plain)
  have "lines_of (last ?ls @ concat cs) = (last ?ls @ hd (lines_of (concat cs))) # tl (lines_of (concat cs))"
    using lines_of_append[of "last ?ls" "concat cs"] last by simp
  then have "lines_of (buf @ concat (c # cs)) = butlast ?ls @ lines_of (last ?ls @ concat cs)"
    using lines_of_append[of "buf @ c" "concat cs"] by simp
  then show ?case by (simp add: ndjson_push_def cut_lines_eq rest)
qed

lemma splitter_text: "ndjson_all cs [] = concat (map clean_line (lines_of (concat cs)))"
  using ndjson_all_eq[of "[]" cs] by simp

text \<open>
  C37. The splitter gives the lines of the whole output, trimmed and without empty ones, however
  the text was cut into chunks: the same as splitting all of it at once.
\<close>

theorem splitter_ignores_cuts: "ndjson_all cs [] = concat (map clean_line (lines_of (concat cs)))"
  by (rule splitter_text)

text \<open>
  That is a fact about text. Where the chunks are bytes (\<open>Buffer\<close>) each is decoded on its
  own, and a character that two chunks share is destroyed: the two bytes of an e with an acute
  accent arrive as two replacement characters.
\<close>

lemma cut_character_is_lost:
  "ndjson_all (map utf8 [[34, 195, 169, 34, 10]]) [] = [[34, 233, 34]]"
  "ndjson_all (map utf8 [[34, 195], [169, 34, 10]]) [] = [[34, 65533, 65533, 34]]"
  by (simp_all add: splitter_text utf8_lead_def clean_line_def trim_codes_def js_white_def)

section \<open>Terminal output\<close>

text \<open>
  The grammar of a terminal's output. A control sequence begins with ESC and is complete with:
  one more character; two more after a character set or line size; a final character after
  ESC [; a BEL or ESC \<open>\\<close> after ESC ] or ESC P. A token is a complete sequence, no beginning of which
  is complete, or another character.
\<close>

definition complete :: "codes \<Rightarrow> bool" where
  "complete t = (case t of
      e # k # rest \<Rightarrow> e = esc \<and> (
        if k \<in> set (code ''()*+#%'') then length rest = 1
        else if k \<in> set (code ''['') then rest \<noteq> [] \<and> 64 \<le> last rest \<and> last rest \<le> 126
        else if k \<in> set (code '']P'') then rest \<noteq> [] \<and> (last rest = 7 \<or> suffix [esc, 92] t)
        else rest = [])
    | _ \<Rightarrow> False)"

definition unfinished :: "codes \<Rightarrow> bool" where
  "unfinished p \<longleftrightarrow> p = [] \<or> hd p = esc \<and> list_all (\<lambda>n. \<not> complete (take n p)) [0..<Suc (length p)]"

definition token :: "codes \<Rightarrow> bool" where
  "token t \<longleftrightarrow> (\<exists>c. t = [c] \<and> c \<noteq> esc) \<or> complete t \<and> unfinished (butlast t)"

text \<open>What the host has answered already or a viewer must not do: queries and access to the clipboard.\<close>

definition query :: "codes \<Rightarrow> bool" where
  "query t \<longleftrightarrow> length t \<ge> 3 \<and> hd t = esc \<and> (t ! 1 \<in> set (code ''['') \<and> csi_query t \<or> t ! 1 \<in> set (code '']P'') \<and> string_query t)"

lemma complete_short [simp]: "\<not> complete []" "\<not> complete [c]"
  by (simp_all add: complete_def)

lemma unfinished_take: "unfinished p \<Longrightarrow> n \<le> length p \<Longrightarrow> \<not> complete (take n p)"
  by (cases "p = []"; cases "n = length p") (auto simp: unfinished_def list_all_iff)

lemma unfinished_snoc: "unfinished (p @ [c]) \<longleftrightarrow> (if p = [] then c = esc else unfinished p \<and> \<not> complete (p @ [c]))"
proof (cases "p = []")
  case True
  then show ?thesis by (simp add: unfinished_def)
next
  case False
  have "[0..<Suc (length (p @ [c]))] = [0..<Suc (length p)] @ [Suc (length p)]" by simp
  then show ?thesis using False by (auto simp: unfinished_def list_all_iff)
qed

lemma unfinished_kind:
  assumes "unfinished (e # k # rest)"
  shows "e = esc" "k \<in> set (code ''[]P()*+#%'')" "k \<in> set (code ''()*+#%'') \<Longrightarrow> rest = []"
proof -
  show e: "e = esc" using assms by (simp add: unfinished_def)
  show "k \<in> set (code ''[]P()*+#%'')"
    using unfinished_take[OF assms, of 2] e by (auto simp: complete_def numeral_2_eq_2 split: if_splits)
  show "rest = []" if "k \<in> set (code ''()*+#%'')"
    using unfinished_take[OF assms, of 3] that e by (cases rest) (auto simp: complete_def numeral_3_eq_3)
qed

lemma units_le: "length s \<le> units s"
  by (induction s) (auto simp: units_def)

lemma units_append [simp]: "units (a @ b) = units a + units b"
  by (simp add: units_def)

lemma units_two: "e < 65536 \<Longrightarrow> units [e, c] = 2 \<longleftrightarrow> c < 65536"
  by (simp add: units_def)

lemma kind_small: "k \<in> set (code ''[]P()*+#%'') \<Longrightarrow> k < 65536"
  by auto

text \<open>One character of a sequence: it is kept, or completes the sequence.\<close>

lemma viewer_step_cases:
  assumes p: "unfinished p" "p \<noteq> []" and small: "units (p @ [c]) \<le> 65536"
  shows "viewer_step c p = (if complete (p @ [c]) then (Inr (if query (p @ [c]) then [] else p @ [c]), []) else (Inr [], p @ [c]))"
proof (cases "tl p")
  case Nil
  with p have "p = [esc]" by (cases p) (auto simp: unfinished_def)
  then show ?thesis using units_two[of esc c] kind_small[of c] by (auto simp: viewer_step_def complete_def query_def esc_def Let_def)
next
  case (Cons k rest)
  then obtain e where pk: "p = e # k # rest" by (cases p) auto
  note kind = unfinished_kind[OF p(1)[unfolded pk]]
  have "3 \<le> length (p @ [c])" by (simp add: pk)
  then have "units (p @ [c]) \<noteq> 2" using units_le[of "p @ [c]"] by linarith
  then show ?thesis using kind small
    by (auto simp: viewer_step_def complete_def query_def Let_def pk split: if_splits)
qed

lemma unfinished_prefix: "unfinished (p @ q) \<Longrightarrow> unfinished p"
  by (induction q rule: rev_induct) (auto simp: unfinished_snoc simp flip: append_assoc split: if_splits simp: unfinished_def[of "[]"])

text \<open>Every text is a list of tokens and a rest.\<close>

lemma tokens_exist: "\<exists>ts rest. s = concat ts @ rest \<and> list_all token ts \<and> unfinished rest"
proof (induction s rule: rev_induct)
  case Nil
  show ?case by (intro exI[of _ "[]"]) (simp add: unfinished_def)
next
  case (snoc c s)
  then obtain ts rest where o: "s = concat ts @ rest" "list_all token ts" "unfinished rest" by blast
  consider "unfinished (rest @ [c])" | "token (rest @ [c])"
    using o(3) unfinished_snoc[of rest c] unfinished_snoc[of "[]" c] by (cases "rest = []") (auto simp: token_def)
  then show ?case
  proof cases
    case 1
    then show ?thesis using o by (intro exI[of _ ts] exI[of _ "rest @ [c]"]) simp
  next
    case 2
    then show ?thesis using o by (intro exI[of _ "ts @ [rest @ [c]]"] exI[of _ "[]"]) (simp add: unfinished_def)
  qed
qed

lemma show_nothing [simp]: "apfst (map_sum id ((@) [])) x = x"
  by (cases x; cases "fst x") auto

lemma viewer_keeps:
  "unfinished (p @ q) \<Longrightarrow> p \<noteq> [] \<Longrightarrow> units (p @ q) \<le> 65536 \<Longrightarrow> viewer_write (q @ d) p = viewer_write d (p @ q)"
proof (induction q arbitrary: p)
  case (Cons c q)
  then have "unfinished (p @ [c])" "unfinished p" using unfinished_prefix[of "p @ [c]" q] unfinished_prefix[of p "c # q"] by simp_all
  then have "viewer_step c p = (Inr [], p @ [c])"
    using Cons.prems(2,3) viewer_step_cases[of p c] by (auto simp: unfinished_snoc units_def)
  then show ?case using Cons.IH[of "p @ [c]"] Cons.prems by simp
qed simp

lemma viewer_token:
  assumes "token t" "units t \<le> 65536"
  shows "viewer_write (t @ d) [] = apfst (map_sum id ((@) (if query t then [] else t))) (viewer_write d [])"
proof -
  consider c where "t = [c]" "c \<noteq> esc" | "complete t" "unfinished (butlast t)" using assms(1) unfolding token_def by blast
  then show ?thesis
  proof cases
    case 1
    then show ?thesis by (simp add: viewer_step_def query_def)
  next
    case 2
    then have "2 \<le> length t" by (cases t; cases "tl t") auto
    then obtain e q c where t: "t = (e # q) @ [c]" by (cases t; cases "tl t" rule: rev_cases) auto
    then have u: "unfinished (e # q)" "e = esc" using 2(2) by (auto simp: unfinished_def)
    have "viewer_write (t @ d) [] = viewer_write (q @ c # d) [e]" using u(2) by (simp add: t viewer_step_def)
    also have "\<dots> = viewer_write (c # d) ([e] @ q)" using u(1) assms(2) by (intro viewer_keeps) (auto simp: t units_def)
    also have "\<dots> = apfst (map_sum id ((@) (if query t then [] else t))) (viewer_write d [])"
      using viewer_step_cases[OF u(1), of c] assms(2) 2(1) by (simp add: t)
    finally show ?thesis .
  qed
qed

lemma viewer_unfinished:
  assumes "unfinished p" "units p \<le> 65536"
  shows "viewer_write p [] = (Inr [], p)"
proof (cases p)
  case (Cons e q)
  then have "e = esc" using assms(1) by (simp add: unfinished_def)
  then have "viewer_write p [] = viewer_write (q @ []) [e]" by (simp add: Cons viewer_step_def)
  also have "\<dots> = (Inr [], p)" using viewer_keeps[of "[e]" q "[]"] assms Cons by simp
  finally show ?thesis .
qed simp

lemma viewer_tokens:
  "list_all token ts \<Longrightarrow> unfinished rest \<Longrightarrow> list_all (\<lambda>t. units t \<le> 65536) (rest # ts) \<Longrightarrow>
   viewer_write (concat ts @ rest) [] = (Inr (concat (filter (\<lambda>t. \<not> query t) ts)), rest)"
  by (induction ts) (auto simp: viewer_unfinished viewer_token)

lemma viewer_append:
  "viewer_write (a @ b) p = (case viewer_write a p of
      (Inl e, p) \<Rightarrow> (Inl e, p)
    | (Inr out, p) \<Rightarrow> apfst (map_sum id ((@) out)) (viewer_write b p))"
  by (induction a arbitrary: p) (auto split: prod.splits sum.splits simp: apfst_def map_prod_def map_sum_def)

lemma viewer_writes_eq: "viewer_writes ds p = viewer_write (concat ds) p"
  by (induction ds arbitrary: p) (auto simp: viewer_append split: prod.splits sum.splits)

text \<open>
  C38. However a terminal's output is cut into pieces, what a native terminal is given is that
  output without its queries and clipboard access, every other character and sequence
  unchanged and in order; an unfinished sequence is kept for the next piece. No error occurs
  while every sequence is at most 65536 code units long.
\<close>

theorem viewer_removes_queries_only:
  assumes "concat ds = concat ts @ rest" and "list_all token ts" and "unfinished rest"
    and "list_all (\<lambda>t. units t \<le> 65536) (rest # ts)"
  shows "viewer_writes ds [] = (Inr (concat (filter (\<lambda>t. \<not> query t) ts)), rest)"
  using viewer_tokens[OF assms(2-4)] assms(1) by (simp add: viewer_writes_eq)

lemma viewer_removes_queries_only_witness:
  "viewer_writes [[65, 27], [91, 54], [110, 27, 91, 109, 66], [27, 93]] [] = (Inr [65, 27, 91, 109, 66], [27, 93])"
proof -
  have t: "list_all token [[65], [27, 91, 54, 110], [27, 91, 109], [66]]" "unfinished [27, 93]"
    by (simp_all add: token_def unfinished_def complete_def esc_def numeral_3_eq_3 numeral_2_eq_2 upt_rec)
  have q: "query [27, 91, 54, 110]" "\<not> query [27, 91, 109]" "\<not> query [65]" "\<not> query [66]"
    by (simp_all add: query_def csi_query_def parameters_def esc_def)
  have "list_all (\<lambda>t. units t \<le> 65536) ([27, 93] # [[65], [27, 91, 54, 110], [27, 91, 109], [66]])" by (simp add: units_def)
  from viewer_removes_queries_only[OF _ t this, of "[[65, 27], [91, 54], [110, 27, 91, 109, 66], [27, 93]]"] show ?thesis by (simp add: q)
qed

end
