(* ===== verification/Runner.thy ===== *)
theory Runner
  imports Streams
begin

text \<open>
  The runner daemon (bootstrap/runner-daemon.ts), which owns the processes of turns and outlives
  the server, and the server's side of it (daemon-client.ts). Sockets are numbers; parsing a
  line of JSON and the outcome of \<open>spawn\<close> are arguments.
\<close>

section \<open>Messages\<close>

datatype client_msg =
    C_Hello
  | C_Start string "string list"
  | C_Attach string nat
  | C_Stdin string codes
  | C_CloseStdin string
  | C_Signal string string
  | C_Release string

datatype server_msg = S_Live "string list" | S_Line string nat codes | S_Stderr string codes | S_Exit string "int option"

section \<open>The daemon\<close>

text \<open>
  A turn and its child: what was written to the child's input, whether that can be written, and
  the signals sent. \<open>rt_key\<close> names the object and \<open>rt_mapped\<close> tells whether the map of turns
  holds it: a released turn's child still calls back.
\<close>

record rturn =
  rt_key :: nat
  rt_mapped :: bool
  rt_id :: string
  rt_lines :: "codes list"
  rt_code :: "int option option"
  rt_exited :: bool
  rt_subs :: "nat list"
  rt_buf :: codes
  rt_stdin :: "codes list"
  rt_writable :: bool
  rt_signals :: "string list"

text \<open>What each socket was sent, with the turn it comes from; the sockets that cannot be written; the unparsed text of each.\<close>

record daemon =
  d_turns :: "rturn list"
  d_wire :: "nat \<Rightarrow> (nat option \<times> server_msg) list"
  d_gone :: "nat list"
  d_bufs :: "nat \<Rightarrow> codes"

definition new_daemon :: daemon where
  "new_daemon = \<lparr>d_turns = [], d_wire = (\<lambda>_. []), d_gone = [], d_bufs = (\<lambda>_. [])\<rparr>"

definition send_to :: "nat option \<Rightarrow> server_msg \<Rightarrow> nat \<Rightarrow> daemon \<Rightarrow> daemon" where
  "send_to k m s d = (if s \<in> set (d_gone d) then d else d\<lparr>d_wire := (d_wire d)(s := d_wire d s @ [(k, m)])\<rparr>)"

definition broadcast_turn :: "rturn \<Rightarrow> server_msg \<Rightarrow> daemon \<Rightarrow> daemon" where
  "broadcast_turn t m d = fold (send_to (Some (rt_key t)) m) (rt_subs t) d"

definition mapped_turn :: "string \<Rightarrow> daemon \<Rightarrow> rturn option" where
  "mapped_turn i d = find (\<lambda>t. rt_mapped t \<and> rt_id t = i) (d_turns d)"

definition on_turn :: "nat \<Rightarrow> (rturn \<Rightarrow> rturn) \<Rightarrow> daemon \<Rightarrow> daemon" where
  "on_turn k f d = d\<lparr>d_turns := map (\<lambda>t. if rt_key t = k then f t else t) (d_turns d)\<rparr>"

definition the_turn :: "nat \<Rightarrow> daemon \<Rightarrow> rturn option" where
  "the_turn k d = find (\<lambda>t. rt_key t = k) (d_turns d)"

definition drop_socket :: "nat \<Rightarrow> daemon \<Rightarrow> daemon" where
  "drop_socket s d = d\<lparr>d_turns := map (\<lambda>t. if rt_mapped t then t\<lparr>rt_subs := filter (\<lambda>x. x \<noteq> s) (rt_subs t)\<rparr> else t) (d_turns d)\<rparr>"

definition replay :: "rturn \<Rightarrow> nat \<Rightarrow> server_msg list" where
  "replay t from = map (\<lambda>j. S_Line (rt_id t) (Suc j) (rt_lines t ! j)) [from..<length (rt_lines t)] @
     (if rt_exited t then [S_Exit (rt_id t) (case rt_code t of Some c \<Rightarrow> c | None \<Rightarrow> None)] else [])"

definition attachTurn :: "nat \<Rightarrow> string \<Rightarrow> nat \<Rightarrow> daemon \<Rightarrow> daemon" where
  "attachTurn s i from d = (case mapped_turn i d of
      None \<Rightarrow> d
    | Some t \<Rightarrow> fold (\<lambda>m. send_to (Some (rt_key t)) m s) (replay t from)
        (on_turn (rt_key t) (\<lambda>t. t\<lparr>rt_subs := (if s \<in> set (rt_subs t) then rt_subs t else rt_subs t @ [s])\<rparr>) d))"

definition new_turn :: "nat \<Rightarrow> string \<Rightarrow> nat \<Rightarrow> rturn" where
  "new_turn k i s = \<lparr>rt_key = k, rt_mapped = True, rt_id = i, rt_lines = [], rt_code = None, rt_exited = False, rt_subs = [s], rt_buf = [],
     rt_stdin = [], rt_writable = True, rt_signals = []\<rparr>"

text \<open>\<open>sp\<close> gives the error of a spawn that throws.\<close>

definition startTurn :: "(string list \<Rightarrow> codes option) \<Rightarrow> nat \<Rightarrow> string \<Rightarrow> string list \<Rightarrow> daemon \<Rightarrow> daemon" where
  "startTurn sp s i argv d = (
     if mapped_turn i d \<noteq> None then attachTurn s i 0 d
     else case sp argv of
       Some e \<Rightarrow> send_to None (S_Exit i (Some (- 1))) s (send_to None (S_Stderr i (code ''spawn failed: '' @ e)) s d)
     | None \<Rightarrow> d\<lparr>d_turns := d_turns d @ [new_turn (length (d_turns d)) i s]\<rparr>)"

definition on_mapped :: "string \<Rightarrow> (rturn \<Rightarrow> rturn) \<Rightarrow> daemon \<Rightarrow> daemon" where
  "on_mapped i f d = (case mapped_turn i d of None \<Rightarrow> d | Some t \<Rightarrow> on_turn (rt_key t) f d)"

definition handle_msg :: "(string list \<Rightarrow> codes option) \<Rightarrow> nat \<Rightarrow> client_msg \<Rightarrow> daemon \<Rightarrow> daemon" where
  "handle_msg sp s m d = (case m of
      C_Hello \<Rightarrow> send_to None (S_Live (map rt_id (filter rt_mapped (d_turns d)))) s d
    | C_Start i argv \<Rightarrow> startTurn sp s i argv d
    | C_Attach i from \<Rightarrow> attachTurn s i from d
    | C_Stdin i data \<Rightarrow> on_mapped i (\<lambda>t. if rt_writable t then t\<lparr>rt_stdin := rt_stdin t @ [data]\<rparr> else t) d
    | C_CloseStdin i \<Rightarrow> on_mapped i (\<lambda>t. t\<lparr>rt_writable := False\<rparr>) d
    | C_Signal i sig \<Rightarrow> on_mapped i (\<lambda>t. if rt_exited t then t else t\<lparr>rt_signals := rt_signals t @ [sig]\<rparr>) d
    | C_Release i \<Rightarrow> on_mapped i (\<lambda>t. (if rt_exited t then t else t\<lparr>rt_signals := rt_signals t @ [''SIGKILL'']\<rparr>)\<lparr>rt_mapped := False\<rparr>) d)"

text \<open>Data on a connection: complete lines that are not blank and parse.\<close>

definition parsed :: "(codes \<Rightarrow> 'm option) \<Rightarrow> codes list \<Rightarrow> 'm list" where
  "parsed parse ls = List.map_filter parse (filter (\<lambda>l. trim_codes l \<noteq> []) ls)"

definition socket_data :: "(codes \<Rightarrow> client_msg option) \<Rightarrow> (string list \<Rightarrow> codes option) \<Rightarrow> nat \<Rightarrow> nat list \<Rightarrow> daemon \<Rightarrow> daemon" where
  "socket_data parse sp s chunk d = (case cut_lines (d_bufs d s @ utf8 chunk) of (ls, buf) \<Rightarrow>
     fold (handle_msg sp s) (parsed parse ls) (d\<lparr>d_bufs := (d_bufs d)(s := buf)\<rparr>))"

section \<open>The child's callbacks\<close>

definition push_line :: "nat \<Rightarrow> codes \<Rightarrow> daemon \<Rightarrow> daemon" where
  "push_line k l d = (case the_turn k d of
      None \<Rightarrow> d
    | Some t \<Rightarrow> broadcast_turn t (S_Line (rt_id t) (Suc (length (rt_lines t))) l) (on_turn k (\<lambda>t. t\<lparr>rt_lines := rt_lines t @ [l]\<rparr>) d))"

definition child_stdout :: "nat \<Rightarrow> nat list \<Rightarrow> daemon \<Rightarrow> daemon" where
  "child_stdout k bytes d = (case the_turn k d of
      None \<Rightarrow> d
    | Some t \<Rightarrow> (case ndjson_push (utf8 bytes) (rt_buf t) of (ls, buf) \<Rightarrow>
        fold (push_line k) ls (on_turn k (\<lambda>t. t\<lparr>rt_buf := buf\<rparr>) d)))"

definition child_stderr :: "nat \<Rightarrow> nat list \<Rightarrow> daemon \<Rightarrow> daemon" where
  "child_stderr k bytes d = (case the_turn k d of
      None \<Rightarrow> d
    | Some t \<Rightarrow> let text = trim_codes (utf8 bytes) in
        if text = [] then d else broadcast_turn t (S_Stderr (rt_id t) text) d)"

definition child_exit :: "nat \<Rightarrow> int option \<Rightarrow> daemon \<Rightarrow> daemon" where
  "child_exit k c d = (case the_turn k d of
      None \<Rightarrow> d
    | Some t \<Rightarrow> (case ndjson_flush (rt_buf t) of (ls, buf) \<Rightarrow>
        broadcast_turn t (S_Exit (rt_id t) c)
          (on_turn k (\<lambda>t. t\<lparr>rt_exited := True, rt_code := Some c\<rparr>)
            (fold (push_line k) ls (on_turn k (\<lambda>t. t\<lparr>rt_buf := buf\<rparr>) d)))))"

definition child_error :: "nat \<Rightarrow> codes \<Rightarrow> daemon \<Rightarrow> daemon" where
  "child_error k err d = (case the_turn k d of
      None \<Rightarrow> d
    | Some t \<Rightarrow> let d = broadcast_turn t (S_Stderr (rt_id t) (code ''child error: '' @ err)) d in
        if rt_exited t then d
        else broadcast_turn t (S_Exit (rt_id t) (Some (- 1))) (on_turn k (\<lambda>t. t\<lparr>rt_exited := True, rt_code := Some (Some (- 1))\<rparr>) d))"

text \<open>The child's input can no longer be written: the pipe broke or the child ended.\<close>

definition child_input_gone :: "nat \<Rightarrow> daemon \<Rightarrow> daemon" where
  "child_input_gone k d = on_turn k (\<lambda>t. t\<lparr>rt_writable := False\<rparr>) d"

section \<open>The server's side\<close>

text \<open>A handle: what its callbacks were given, and the flags of the class.\<close>

record rhandle =
  h_key :: nat
  h_turn :: string
  h_lines :: "(nat \<times> codes) list"
  h_stderr :: "codes list"
  h_exits :: "int option list"
  h_exited :: bool
  h_stdin :: bool

text \<open>
  The backend: every handle made and the map from turn ids to them, the callers of
  \<open>listLive\<close> that wait and the answers given, what was sent, and the failed starts whose
  microtask has not run.
\<close>

record backend =
  b_connected :: bool
  b_closed :: bool
  b_buf :: codes
  b_objects :: "rhandle list"
  b_handles :: "(string \<times> nat) list"
  b_waiters :: "nat list"
  b_answers :: "(nat \<times> string list) list"
  b_sent :: "client_msg list"
  b_failed :: "nat list"

definition new_backend :: backend where
  "new_backend = \<lparr>b_connected = False, b_closed = False, b_buf = [], b_objects = [], b_handles = [], b_waiters = [], b_answers = [],
     b_sent = [], b_failed = []\<rparr>"

definition on_handle :: "nat \<Rightarrow> (rhandle \<Rightarrow> rhandle) \<Rightarrow> backend \<Rightarrow> backend" where
  "on_handle k f b = b\<lparr>b_objects := map (\<lambda>h. if h_key h = k then f h else h) (b_objects b)\<rparr>"

definition handle_exit :: "int option \<Rightarrow> rhandle \<Rightarrow> rhandle" where
  "handle_exit c h = (if h_exited h then h else h\<lparr>h_exited := True, h_stdin := False, h_exits := h_exits h @ [c]\<rparr>)"

definition answer_waiters_with :: "string list \<Rightarrow> backend \<Rightarrow> backend" where
  "answer_waiters_with ids b = b\<lparr>b_waiters := [], b_answers := b_answers b @ map (\<lambda>w. (w, ids)) (b_waiters b)\<rparr>"

definition attachSocket :: "backend \<Rightarrow> backend" where
  "attachSocket b = (if b_closed b then b else b\<lparr>b_connected := True, b_buf := []\<rparr>)"

definition connection_lost :: "backend \<Rightarrow> backend" where
  "connection_lost b = (let b = b\<lparr>b_connected := False\<rparr> in
     if b_closed b then b
     else answer_waiters_with [] ((fold (\<lambda>k. on_handle k (handle_exit (Some (- 1)))) (map snd (b_handles b)) b)\<lparr>b_handles := []\<rparr>))"

definition dispatch_msg :: "server_msg \<Rightarrow> backend \<Rightarrow> backend" where
  "dispatch_msg m b = (let at = (\<lambda>i f. case map_of (b_handles b) i of None \<Rightarrow> b | Some k \<Rightarrow> on_handle k f b) in
     case m of
       S_Live ids \<Rightarrow> answer_waiters_with ids b
     | S_Line i q l \<Rightarrow> at i (\<lambda>h. h\<lparr>h_lines := h_lines h @ [(q, l)]\<rparr>)
     | S_Stderr i e \<Rightarrow> at i (\<lambda>h. h\<lparr>h_stderr := h_stderr h @ [e]\<rparr>)
     | S_Exit i c \<Rightarrow> at i (handle_exit c))"

definition backend_data :: "(codes \<Rightarrow> server_msg option) \<Rightarrow> nat list \<Rightarrow> backend \<Rightarrow> backend" where
  "backend_data parse chunk b = (case cut_lines (b_buf b @ utf8 chunk) of (ls, buf) \<Rightarrow>
     fold dispatch_msg (parsed parse ls) (b\<lparr>b_buf := buf\<rparr>))"

definition close_backend :: "backend \<Rightarrow> backend" where
  "close_backend b = answer_waiters_with [] (b\<lparr>b_closed := True, b_connected := False, b_handles := []\<rparr>)"

definition send_msg :: "client_msg \<Rightarrow> backend \<Rightarrow> bool \<times> backend" where
  "send_msg m b = (if b_connected b then (True, b\<lparr>b_sent := b_sent b @ [m]\<rparr>) else (False, b))"

definition new_handle :: "string \<Rightarrow> backend \<Rightarrow> nat \<times> backend" where
  "new_handle i b = (let k = length (b_objects b) in
     (k, b\<lparr>b_objects := b_objects b @ [\<lparr>h_key = k, h_turn = i, h_lines = [], h_stderr = [], h_exits = [], h_exited = False, h_stdin = True\<rparr>],
          b_handles := (i, k) # filter (\<lambda>x. fst x \<noteq> i) (b_handles b)\<rparr>))"

definition start_remote :: "string \<Rightarrow> string list \<Rightarrow> backend \<Rightarrow> nat \<times> backend" where
  "start_remote i argv b = (case new_handle i b of (k, b) \<Rightarrow> (case send_msg (C_Start i argv) b of
      (True, b) \<Rightarrow> (k, b)
    | (False, b) \<Rightarrow> (k, b\<lparr>b_failed := b_failed b @ [k]\<rparr>)))"

text \<open>The microtask of a failed start.\<close>

definition run_failed :: "backend \<Rightarrow> backend" where
  "run_failed b = (case b_failed b of [] \<Rightarrow> b | k # ks \<Rightarrow> on_handle k (handle_exit (Some (- 1))) (b\<lparr>b_failed := ks\<rparr>))"

definition attach_remote :: "string \<Rightarrow> nat \<Rightarrow> backend \<Rightarrow> nat option \<times> backend" where
  "attach_remote i from b = (if \<not> b_connected b then (None, b) else (case new_handle i b of (k, b) \<Rightarrow> (Some k, snd (send_msg (C_Attach i from) b))))"

definition list_live :: "nat \<Rightarrow> backend \<Rightarrow> backend" where
  "list_live w b = (if \<not> b_connected b then b\<lparr>b_answers := b_answers b @ [(w, [])]\<rparr>
     else snd (send_msg C_Hello (b\<lparr>b_waiters := b_waiters b @ [w]\<rparr>)))"

definition live_timeout :: "nat \<Rightarrow> backend \<Rightarrow> backend" where
  "live_timeout w b = (if w \<in> set (b_waiters b) then b\<lparr>b_waiters := remove1 w (b_waiters b), b_answers := b_answers b @ [(w, [])]\<rparr> else b)"

definition release_remote :: "string \<Rightarrow> backend \<Rightarrow> backend" where
  "release_remote i b = snd (send_msg (C_Release i) (b\<lparr>b_handles := filter (\<lambda>x. fst x \<noteq> i) (b_handles b)\<rparr>))"

definition write_stdin :: "rhandle \<Rightarrow> codes \<Rightarrow> backend \<Rightarrow> bool \<times> backend" where
  "write_stdin h data b = (if \<not> h_stdin h \<or> h_exited h then (False, b) else send_msg (C_Stdin (h_turn h) data) b)"

definition close_stdin :: "rhandle \<Rightarrow> backend \<Rightarrow> backend" where
  "close_stdin h b = (if \<not> h_stdin h then b
     else snd (send_msg (C_CloseStdin (h_turn h)) (on_handle (h_key h) (\<lambda>h. h\<lparr>h_stdin := False\<rparr>) b)))"

definition kill_remote :: "rhandle \<Rightarrow> string \<Rightarrow> backend \<Rightarrow> backend" where
  "kill_remote h sig b = snd (send_msg (C_Signal (h_turn h) sig) b)"

end
