(* ===== verification/Runner_Laws.thy ===== *)
theory Runner_Laws
  imports Runner
begin

text \<open>
  The daemon and the server's side of it under every sequence of messages and callbacks: what
  a client that attached to a turn has received.
\<close>

section \<open>Steps of the daemon\<close>

inductive daemon_step :: "(codes \<Rightarrow> client_msg option) \<Rightarrow> (string list \<Rightarrow> codes option) \<Rightarrow> daemon \<Rightarrow> daemon \<Rightarrow> bool" for parse sp where
  D_Data: "daemon_step parse sp d (socket_data parse sp s chunk d)"
| D_Stdout: "daemon_step parse sp d (child_stdout k bytes d)"
| D_Stderr: "daemon_step parse sp d (child_stderr k bytes d)"
| D_Exit: "daemon_step parse sp d (child_exit k c d)"
| D_Error: "daemon_step parse sp d (child_error k err d)"
| D_Input: "daemon_step parse sp d (child_input_gone k d)"
| D_Break: "daemon_step parse sp d (d\<lparr>d_gone := s # d_gone d\<rparr>)"
| D_Drop: "s \<in> set (d_gone d) \<Longrightarrow> daemon_step parse sp d (drop_socket s d)"

abbreviation daemon_reach :: "(codes \<Rightarrow> client_msg option) \<Rightarrow> (string list \<Rightarrow> codes option) \<Rightarrow> daemon \<Rightarrow> bool" where
  "daemon_reach parse sp d \<equiv> (daemon_step parse sp)\<^sup>*\<^sup>* new_daemon d"

section \<open>What a client keeps\<close>

text \<open>
  The lines of one turn in what a socket was sent, and what is new in them to a client that has
  seen the first \<open>n\<close> lines and ignores the numbers it has passed.
\<close>

definition lines_from :: "nat \<Rightarrow> (nat option \<times> server_msg) list \<Rightarrow> (nat \<times> codes) list" where
  "lines_from k ms = concat (map (\<lambda>(j, m). case m of S_Line _ q l \<Rightarrow> if j = Some k then [(q, l)] else [] | _ \<Rightarrow> []) ms)"

fun fresh_lines :: "nat \<Rightarrow> (nat \<times> codes) list \<Rightarrow> codes list" where
  "fresh_lines n [] = []"
| "fresh_lines n ((q, l) # ms) = (if q \<le> n then fresh_lines n ms else l # fresh_lines q ms)"

definition seen_up_to :: "nat \<Rightarrow> (nat \<times> codes) list \<Rightarrow> nat" where
  "seen_up_to n ms = foldl max n (map fst ms)"

definition told_exit :: "nat \<Rightarrow> (nat option \<times> server_msg) list \<Rightarrow> bool" where
  "told_exit k ms \<longleftrightarrow> (\<exists>(j, m) \<in> set ms. j = Some k \<and> (case m of S_Exit _ _ \<Rightarrow> True | _ \<Rightarrow> False))"

lemma lines_from_simps [simp]:
  "lines_from k [] = []" "lines_from k (a @ b) = lines_from k a @ lines_from k b"
  "lines_from k ((j, m) # ms) = (case m of S_Line _ q l \<Rightarrow> if j = Some k then [(q, l)] else [] | _ \<Rightarrow> []) @ lines_from k ms"
  by (simp_all add: lines_from_def)

lemma told_exit_simps [simp]:
  "\<not> told_exit k []" "told_exit k (a @ b) \<longleftrightarrow> told_exit k a \<or> told_exit k b"
  by (auto simp: told_exit_def)

lemma seen_up_to_simps [simp]:
  "seen_up_to n [] = n" "seen_up_to n (a @ b) = seen_up_to (seen_up_to n a) b" "seen_up_to n ((q, l) # ms) = seen_up_to (max n q) ms"
  by (simp_all add: seen_up_to_def)

lemma fresh_lines_append: "fresh_lines n (a @ b) = fresh_lines n a @ fresh_lines (seen_up_to n a) b"
  by (induction n a rule: fresh_lines.induct) (auto simp: max_def)

lemma fresh_lines_old: "\<forall>(q, l) \<in> set ms. q \<le> n \<Longrightarrow> fresh_lines n ms = [] \<and> seen_up_to n ms = n"
  by (induction ms) auto

section \<open>Sending\<close>

lemma sends_eq:
  "fold (send_to j m) ss d = d\<lparr>d_wire := (\<lambda>s. if s \<in> set (d_gone d) then d_wire d s else d_wire d s @ replicate (count_list ss s) (j, m))\<rparr>"
proof (induction ss arbitrary: d)
  case (Cons a ss)
  have gone: "d_gone (send_to j m a d) = d_gone d" by (simp add: send_to_def)
  have "fold (send_to j m) (a # ss) d = (send_to j m a d)\<lparr>d_wire := (\<lambda>s. if s \<in> set (d_gone d) then d_wire (send_to j m a d) s
      else d_wire (send_to j m a d) s @ replicate (count_list ss s) (j, m))\<rparr>" using Cons.IH[of "send_to j m a d"] by (simp add: gone)
  also have "\<dots> = d\<lparr>d_wire := (\<lambda>s. if s \<in> set (d_gone d) then d_wire d s else d_wire d s @ replicate (count_list (a # ss) s) (j, m))\<rparr>"
    by (cases d) (auto simp: send_to_def fun_eq_iff replicate_app_Cons_same)
  finally show ?case .
next
  case Nil
  show ?case by (rule daemon.equality) auto
qed

lemma send_list_eq:
  "fold (\<lambda>m. send_to j m s) ms d = d\<lparr>d_wire := (d_wire d)(s := (if s \<in> set (d_gone d) then d_wire d s else d_wire d s @ map (Pair j) ms))\<rparr>"
proof (induction ms arbitrary: d)
  case Nil
  show ?case by (rule daemon.equality) auto
next
  case (Cons m ms)
  then show ?case by (cases d) (auto simp: send_to_def)
qed

section \<open>The keys of the turns\<close>

definition keys_ok :: "daemon \<Rightarrow> bool" where "keys_ok d \<longleftrightarrow> distinct (map rt_key (d_turns d)) \<and> (\<forall>t \<in> set (d_turns d). rt_key t < length (d_turns d))"

lemma the_turn_in: "the_turn k d = Some t \<Longrightarrow> t \<in> set (d_turns d) \<and> rt_key t = k"
  by (auto simp: the_turn_def dest: find_Some_in)

lemma the_turn_unique: "keys_ok d \<Longrightarrow> t \<in> set (d_turns d) \<Longrightarrow> the_turn (rt_key t) d = Some t"
  using find_key_unique[of rt_key "d_turns d" t] by (simp add: keys_ok_def the_turn_def)

lemma the_turn_same:
  assumes "keys_ok d" "v \<in> set (d_turns d)" "t \<in> set (d_turns d)" "rt_key v = rt_key t"
  shows "v = t"
proof -
  have "the_turn (rt_key t) d = Some v" using the_turn_unique[OF assms(1,2)] unfolding assms(4) .
  then show ?thesis unfolding the_turn_unique[OF assms(1,3)] by simp
qed

lemma mapped_turn_in: "mapped_turn i d = Some t \<Longrightarrow> t \<in> set (d_turns d) \<and> rt_id t = i \<and> rt_mapped t"
  by (auto simp: mapped_turn_def dest: find_Some_in)

lemma keys_ok_map: "keys_ok d \<Longrightarrow> (\<And>t. rt_key (f t) = rt_key t) \<Longrightarrow> d_turns d' = map f (d_turns d) \<Longrightarrow> keys_ok d'"
  by (auto simp: keys_ok_def comp_def)

section \<open>A client that attached\<close>

text \<open>
  Since the moment when the socket had been sent \<open>w\<close>, for a client that had the first \<open>n\<close> lines
  of the turn with key \<open>k\<close>.
\<close>

definition served :: "nat \<Rightarrow> nat \<Rightarrow> rturn \<Rightarrow> (nat option \<times> server_msg) list \<Rightarrow> bool" where
  "served k n t ms \<longleftrightarrow> fresh_lines n (lines_from k ms) = drop n (rt_lines t) \<and> seen_up_to n (lines_from k ms) = length (rt_lines t) \<and>
     (rt_exited t \<longrightarrow> told_exit k ms)"

definition following :: "nat \<Rightarrow> nat \<Rightarrow> nat \<Rightarrow> (nat option \<times> server_msg) list \<Rightarrow> daemon \<Rightarrow> bool" where
  "following s k n w d \<longleftrightarrow> keys_ok d \<and> (s \<notin> set (d_gone d) \<longrightarrow>
     (\<exists>t ms. t \<in> set (d_turns d) \<and> rt_key t = k \<and> s \<in> set (rt_subs t) \<and> d_wire d s = w @ ms \<and> served k n t ms))"

lemma served_more:
  assumes "served k n t ms" "\<forall>(q, l) \<in> set (lines_from k extra). q \<le> length (rt_lines t)" "rt_lines t' = rt_lines t"
    "rt_exited t' \<longrightarrow> rt_exited t \<or> told_exit k extra"
  shows "served k n t' (ms @ extra)"
  using assms fresh_lines_old[OF assms(2)] by (auto simp: served_def fresh_lines_append)

text \<open>A step that leaves the turn alone and sends nothing new about it.\<close>

lemma following_quiet:
  assumes f: "following s k n w d" and keys: "keys_ok d'" and gone: "set (d_gone d) \<subseteq> set (d_gone d')"
    and t: "\<And>t. t \<in> set (d_turns d) \<Longrightarrow> rt_key t = k \<Longrightarrow> s \<in> set (rt_subs t) \<Longrightarrow> s \<notin> set (d_gone d') \<Longrightarrow>
      (\<exists>t' extra. t' \<in> set (d_turns d') \<and> rt_key t' = k \<and> s \<in> set (rt_subs t') \<and> d_wire d' s = d_wire d s @ extra \<and> rt_lines t' = rt_lines t \<and>
        (rt_exited t' \<longrightarrow> rt_exited t \<or> told_exit k extra) \<and> (\<forall>(q, l) \<in> set (lines_from k extra). q \<le> length (rt_lines t)))"
  shows "following s k n w d'"
  unfolding following_def
proof (intro conjI impI keys)
  assume s: "s \<notin> set (d_gone d')"
  then obtain u ms where u: "u \<in> set (d_turns d)" "rt_key u = k" "s \<in> set (rt_subs u)" "d_wire d s = w @ ms" "served k n u ms"
    using f gone unfolding following_def by blast
  obtain u' extra where u': "u' \<in> set (d_turns d')" "rt_key u' = k" "s \<in> set (rt_subs u')" "d_wire d' s = d_wire d s @ extra" "rt_lines u' = rt_lines u"
      "rt_exited u' \<longrightarrow> rt_exited u \<or> told_exit k extra" "\<forall>(q, l) \<in> set (lines_from k extra). q \<le> length (rt_lines u)"
    using t[OF u(1-3) s] by blast
  have "served k n u' (ms @ extra)" using served_more[OF u(5) u'(7,5,6)] .
  then show "\<exists>t ms. t \<in> set (d_turns d') \<and> rt_key t = k \<and> s \<in> set (rt_subs t) \<and> d_wire d' s = w @ ms \<and> served k n t ms"
    using u' u(4) by (metis append.assoc)
qed

section \<open>Operations and a client that attached\<close>

lemma following_bufs [simp]: "following s k n w (d\<lparr>d_bufs := x\<rparr>) = following s k n w d"
  by (simp add: following_def keys_ok_def)

lemma following_keys: "following s k n w d \<Longrightarrow> keys_ok d"
  by (simp add: following_def)

lemma on_turn_turns: "d_turns (on_turn k f d) = map (\<lambda>t. if rt_key t = k then f t else t) (d_turns d)"
  by (simp add: on_turn_def)

lemma on_turn_frame [simp]: "d_wire (on_turn k f d) = d_wire d" "d_gone (on_turn k f d) = d_gone d"
  by (simp_all add: on_turn_def)

lemma in_on_turn: "t \<in> set (d_turns d) \<Longrightarrow> (if rt_key t = k then f t else t) \<in> set (d_turns (on_turn k f d))"
  unfolding on_turn_turns in_map_if by blast

definition silent :: "(rturn \<Rightarrow> rturn) \<Rightarrow> bool" where
  "silent f \<longleftrightarrow> (\<forall>t. rt_key (f t) = rt_key t \<and> rt_lines (f t) = rt_lines t \<and> rt_exited (f t) = rt_exited t \<and> set (rt_subs t) \<subseteq> set (rt_subs (f t)))"

lemma following_on_turn:
  assumes f: "following s k n w d" and g: "silent g"
  shows "following s k n w (on_turn j g d)"
proof (rule following_quiet[OF f])
  show "keys_ok (on_turn j g d)" using following_keys[OF f] g by (intro keys_ok_map[OF _ _ on_turn_turns]) (auto simp: silent_def)
  fix t assume t: "t \<in> set (d_turns d)" "rt_key t = k" "s \<in> set (rt_subs t)"
  let ?t = "if rt_key t = j then g t else t"
  have "?t \<in> set (d_turns (on_turn j g d))" using t(1) by (rule in_on_turn)
  moreover have "rt_key ?t = k" "s \<in> set (rt_subs ?t)" "rt_lines ?t = rt_lines t" "rt_exited ?t = rt_exited t" using g t by (auto simp: silent_def)
  ultimately show "\<exists>t' extra. t' \<in> set (d_turns (on_turn j g d)) \<and> rt_key t' = k \<and> s \<in> set (rt_subs t') \<and> d_wire (on_turn j g d) s = d_wire d s @ extra \<and>
      rt_lines t' = rt_lines t \<and> (rt_exited t' \<longrightarrow> rt_exited t \<or> told_exit k extra) \<and> (\<forall>(q, l) \<in> set (lines_from k extra). q \<le> length (rt_lines t))"
    by (intro exI[of _ ?t] exI[of _ "[]"]) simp
qed simp

lemma seen_le: "n \<le> seen_up_to n ms"
proof (induction ms arbitrary: n)
  case (Cons a ms)
  have "n \<le> max n (fst a)" by simp
  also have "\<dots> \<le> seen_up_to (max n (fst a)) ms" by (rule Cons.IH)
  finally show ?case by (cases a) simp
qed simp

text \<open>A change of another turn.\<close>

lemma following_other:
  assumes f: "following s k n w d" and j: "j \<noteq> k" and g: "\<And>t. rt_key (g t) = rt_key t"
  shows "following s k n w (on_turn j g d)"
proof (rule following_quiet[OF f])
  show "keys_ok (on_turn j g d)" using following_keys[OF f] g by (intro keys_ok_map[OF _ _ on_turn_turns]) auto
  fix t assume t: "t \<in> set (d_turns d)" "rt_key t = k" "s \<in> set (rt_subs t)"
  then have "t \<in> set (d_turns (on_turn j g d))" using in_on_turn[of t d j g] j by simp
  with t show "\<exists>t' extra. t' \<in> set (d_turns (on_turn j g d)) \<and> rt_key t' = k \<and> s \<in> set (rt_subs t') \<and> d_wire (on_turn j g d) s = d_wire d s @ extra \<and>
      rt_lines t' = rt_lines t \<and> (rt_exited t' \<longrightarrow> rt_exited t \<or> told_exit k extra) \<and> (\<forall>(q, l) \<in> set (lines_from k extra). q \<le> length (rt_lines t))"
    by (intro exI[of _ t] exI[of _ "[]"] conjI) simp_all
qed simp

text \<open>Sending what is no new line of the turn.\<close>

lemma following_wire:
  assumes f: "following s k n w d" and d': "d' = d\<lparr>d_wire := W\<rparr>" and W: "s \<notin> set (d_gone d) \<Longrightarrow> W s = d_wire d s @ extra"
    and q: "\<And>t. t \<in> set (d_turns d) \<Longrightarrow> rt_key t = k \<Longrightarrow> \<forall>(q, l) \<in> set (lines_from k extra). q \<le> length (rt_lines t)"
  shows "following s k n w d'"
proof (rule following_quiet[OF f])
  show "keys_ok d'" using following_keys[OF f] by (simp add: d' keys_ok_def)
  fix t assume t: "t \<in> set (d_turns d)" "rt_key t = k" "s \<in> set (rt_subs t)" "s \<notin> set (d_gone d')"
  then have "s \<notin> set (d_gone d)" by (simp add: d')
  from W[OF this] q[OF t(1,2)] t show "\<exists>t' extra. t' \<in> set (d_turns d') \<and> rt_key t' = k \<and> s \<in> set (rt_subs t') \<and> d_wire d' s = d_wire d s @ extra \<and>
      rt_lines t' = rt_lines t \<and> (rt_exited t' \<longrightarrow> rt_exited t \<or> told_exit k extra) \<and> (\<forall>(q, l) \<in> set (lines_from k extra). q \<le> length (rt_lines t))"
    by (intro exI[of _ t] exI[of _ extra]) (simp add: d')
qed (simp add: d')

lemma lines_from_replicate: "lines_from k (replicate c (j, m)) = concat (replicate c (lines_from k [(j, m)]))"
  by (induction c) auto

lemma following_sends:
  assumes f: "following s k n w d" and m: "lines_from k [(j, m)] = []"
  shows "following s k n w (fold (send_to j m) ss d)"
  by (rule following_wire[OF f sends_eq, where extra = "replicate (count_list ss s) (j, m)"]) (use m in \<open>auto simp: lines_from_replicate\<close>)

lemma following_send: "following s k n w d \<Longrightarrow> lines_from k [(j, m)] = [] \<Longrightarrow> following s k n w (send_to j m x d)"
  using following_sends[of s k n w d j m "[x]"] by simp

lemma following_broadcast:
  "following s k n w d \<Longrightarrow> lines_from k [(Some (rt_key t), m)] = [] \<Longrightarrow> following s k n w (broadcast_turn t m d)"
  unfolding broadcast_turn_def by (rule following_sends)

lemma following_attach:
  assumes f: "following s k n w d"
  shows "following s k n w (attachTurn x i from d)"
proof (cases "mapped_turn i d")
  case None
  then show ?thesis using f by (simp add: attachTurn_def)
next
  case (Some t)
  let ?g = "\<lambda>t. t\<lparr>rt_subs := (if x \<in> set (rt_subs t) then rt_subs t else rt_subs t @ [x])\<rparr>"
  let ?d = "on_turn (rt_key t) ?g d" and ?ms = "map (Pair (Some (rt_key t))) (replay t from)"
  have f1: "following s k n w ?d" by (rule following_on_turn[OF f]) (auto simp: silent_def)
  have "following s k n w (fold (\<lambda>m. send_to (Some (rt_key t)) m x) (replay t from) ?d)"
  proof (rule following_wire[OF f1 send_list_eq, where extra = "if s = x then ?ms else []"])
    fix u assume u: "u \<in> set (d_turns ?d)" "rt_key u = k"
    have "q \<le> length (rt_lines u)" if q: "(q, l) \<in> set (lines_from k ?ms)" for q l
    proof -
      have "rt_key t = k" "q \<le> length (rt_lines t)" using q by (auto simp: lines_from_def replay_def split: if_splits)
      moreover obtain v where "v \<in> set (d_turns d)" "u = (if rt_key v = rt_key t then ?g v else v)" using u(1) unfolding on_turn_turns in_map_if by blast
      moreover have "v = t" if "v \<in> set (d_turns d)" "rt_key v = rt_key t" for v
        by (rule the_turn_same[OF following_keys[OF f] that(1) _ that(2)]) (use mapped_turn_in[OF Some] in blast)
      ultimately show ?thesis using u(2) by (auto split: if_splits)
    qed
    then show "\<forall>(q, l) \<in> set (lines_from k (if s = x then ?ms else [])). q \<le> length (rt_lines u)" by auto
  qed auto
  then show ?thesis using Some by (simp add: attachTurn_def)
qed

lemma following_start:
  assumes f: "following s k n w d"
  shows "following s k n w (startTurn sp x i argv d)"
proof -
  have keys: "keys_ok d" using following_keys[OF f] .
  have "following s k n w (d\<lparr>d_turns := d_turns d @ [new_turn (length (d_turns d)) i x]\<rparr>)"
  proof (rule following_quiet[OF f])
    show "keys_ok (d\<lparr>d_turns := d_turns d @ [new_turn (length (d_turns d)) i x]\<rparr>)" using keys by (auto simp: keys_ok_def new_turn_def)
  next
    fix t assume "t \<in> set (d_turns d)" "rt_key t = k" "s \<in> set (rt_subs t)"
    then show "\<exists>t' extra. t' \<in> set (d_turns (d\<lparr>d_turns := d_turns d @ [new_turn (length (d_turns d)) i x]\<rparr>)) \<and> rt_key t' = k \<and> s \<in> set (rt_subs t') \<and>
        d_wire (d\<lparr>d_turns := d_turns d @ [new_turn (length (d_turns d)) i x]\<rparr>) s = d_wire d s @ extra \<and> rt_lines t' = rt_lines t \<and>
        (rt_exited t' \<longrightarrow> rt_exited t \<or> told_exit k extra) \<and> (\<forall>(q, l) \<in> set (lines_from k extra). q \<le> length (rt_lines t))"
      by (intro exI[of _ t] exI[of _ "[]"]) simp
  qed simp
  then show ?thesis using following_attach[OF f] f by (auto simp: startTurn_def following_send split: option.split)
qed

lemma following_mapped: "following s k n w d \<Longrightarrow> silent g \<Longrightarrow> following s k n w (on_mapped i g d)"
  by (auto simp: on_mapped_def following_on_turn split: option.split)

lemma following_handle:
  assumes "following s k n w d"
  shows "following s k n w (handle_msg sp x m d)"
  using assms by (cases m) (auto simp: handle_msg_def following_send following_start following_attach silent_def intro!: following_mapped)

lemma following_fold: "(\<And>y d. following s k n w d \<Longrightarrow> following s k n w (g y d)) \<Longrightarrow> following s k n w d \<Longrightarrow> following s k n w (fold g ys d)"
  by (induction ys arbitrary: d) auto

lemma following_data: "following s k n w d \<Longrightarrow> following s k n w (socket_data parse sp x chunk d)"
  by (auto simp: socket_data_def following_handle intro!: following_fold split: prod.split)

text \<open>A new line, and the end of the child, reach every subscriber.\<close>

lemma following_grows:
  assumes f: "following s k n w d" and t: "the_turn k d = Some t"
    and g: "\<And>t. rt_key (g t) = rt_key t \<and> rt_subs (g t) = rt_subs t"
    and news: "\<And>ms c. served k n t ms \<Longrightarrow> 0 < c \<Longrightarrow> served k n (g t) (ms @ replicate c (Some k, m))"
  shows "following s k n w (broadcast_turn t m (on_turn k g d))"
  unfolding following_def
proof (intro conjI impI)
  let ?d = "broadcast_turn t m (on_turn k g d)"
  have keys: "keys_ok d" using following_keys[OF f] .
  have "d_turns ?d = map (\<lambda>t. if rt_key t = k then g t else t) (d_turns d)" unfolding broadcast_turn_def sends_eq on_turn_turns[symmetric] by simp
  then show "keys_ok ?d" by (rule keys_ok_map[OF keys, rotated]) (simp add: g)
  assume "s \<notin> set (d_gone ?d)"
  then have s: "s \<notin> set (d_gone d)" by (simp add: broadcast_turn_def sends_eq)
  obtain u ms where u: "u \<in> set (d_turns d)" "rt_key u = k" "s \<in> set (rt_subs u)" "d_wire d s = w @ ms" "served k n u ms"
    using f s unfolding following_def by blast
  have ut: "u = t" using the_turn_unique[OF keys u(1)] t u(2) by simp
  have key: "rt_key t = k" using the_turn_in[OF t] by simp
  have wire: "d_wire ?d s = w @ (ms @ replicate (count_list (rt_subs t) s) (Some k, m))"
    using s u(4) by (simp add: broadcast_turn_def sends_eq key)
  have "0 < count_list (rt_subs t) s" using u(3) ut by (simp add: count_list_0_iff neq0_conv[symmetric] del: neq0_conv)
  from news[OF _ this, of ms] have "served k n (g t) (ms @ replicate (count_list (rt_subs t) s) (Some k, m))" using u(5) ut by simp
  moreover have "g t \<in> set (d_turns ?d)" using in_on_turn[of t d k g] u(1) ut key by (simp add: broadcast_turn_def sends_eq)
  ultimately show "\<exists>t ms. t \<in> set (d_turns ?d) \<and> rt_key t = k \<and> s \<in> set (rt_subs t) \<and> d_wire ?d s = w @ ms \<and> served k n t ms"
    using wire key g u(3) ut by (intro exI[of _ "g t"] exI[of _ "ms @ replicate (count_list (rt_subs t) s) (Some k, m)"] conjI) simp_all
qed

lemma served_line:
  assumes "served k n t ms" "0 < c"
  shows "served k n (t\<lparr>rt_lines := rt_lines t @ [l]\<rparr>) (ms @ replicate c (Some k, S_Line i (Suc (length (rt_lines t))) l))"
proof -
  obtain b where c: "c = Suc b" using assms(2) gr0_conv_Suc by blast
  let ?x = "(Suc (length (rt_lines t)), l)"
  have lines: "lines_from k (replicate b (Some k, S_Line i (Suc (length (rt_lines t))) l)) = replicate b ?x" for b
    by (induction b) auto
  have old: "fresh_lines (Suc (length (rt_lines t))) (replicate b ?x) = [] \<and> seen_up_to (Suc (length (rt_lines t))) (replicate b ?x) = Suc (length (rt_lines t))"
    by (rule fresh_lines_old) auto
  have "n \<le> length (rt_lines t)" using assms(1) seen_le[of n "lines_from k ms"] by (simp add: served_def)
  then show ?thesis using assms(1) lines[of "Suc b"] old by (simp add: served_def c fresh_lines_append max_def)
qed

lemma following_push:
  assumes f: "following s k n w d"
  shows "following s k n w (push_line j l d)"
proof (cases "the_turn j d")
  case None
  then show ?thesis using f by (simp add: push_line_def)
next
  case (Some t)
  show ?thesis
  proof (cases "j = k")
    case True
    have "following s k n w (broadcast_turn t (S_Line (rt_id t) (Suc (length (rt_lines t))) l) (on_turn k (\<lambda>t. t\<lparr>rt_lines := rt_lines t @ [l]\<rparr>) d))"
      using Some True served_line by (intro following_grows[OF f]) auto
    then show ?thesis using Some True by (simp add: push_line_def)
  next
    case False
    have key: "rt_key t = j" using the_turn_in[OF Some] by simp
    have "following s k n w (on_turn j (\<lambda>t. t\<lparr>rt_lines := rt_lines t @ [l]\<rparr>) d)" using False by (intro following_other[OF f]) auto
    then show ?thesis using Some False key by (simp add: push_line_def following_broadcast)
  qed
qed

section \<open>The end of a child\<close>

lemma the_turn_on_turn:
  "(\<And>t. rt_key (g t) = rt_key t) \<Longrightarrow> the_turn j (on_turn k g d) = map_option (\<lambda>t. if rt_key t = k then g t else t) (the_turn j d)"
  unfolding the_turn_def on_turn_turns find_map by (rule arg_cong[where f = "map_option _"]) (rule arg_cong[where f = "\<lambda>p. find p _"], auto)

lemma the_turn_broadcast [simp]: "the_turn j (broadcast_turn t m d) = the_turn j d"
  by (simp add: the_turn_def broadcast_turn_def sends_eq)

definition same_subs :: "nat \<Rightarrow> daemon \<Rightarrow> daemon \<Rightarrow> bool" where
  "same_subs j d d' \<longleftrightarrow> (\<forall>t. the_turn j d = Some t \<longrightarrow> (\<exists>t'. the_turn j d' = Some t' \<and> rt_subs t' = rt_subs t))"

lemma same_subs_on_turn: "(\<And>t. rt_key (g t) = rt_key t \<and> rt_subs (g t) = rt_subs t) \<Longrightarrow> same_subs j d (on_turn k g d)"
  by (auto simp: same_subs_def the_turn_on_turn)

lemma same_subs_push: "same_subs j d (push_line k l d)"
proof (cases "the_turn k d")
  case None
  then show ?thesis by (simp add: push_line_def same_subs_def)
next
  case (Some t)
  have "same_subs j d (on_turn k (\<lambda>t. t\<lparr>rt_lines := rt_lines t @ [l]\<rparr>) d)" by (rule same_subs_on_turn) simp
  then show ?thesis using Some by (simp add: push_line_def same_subs_def)
qed

lemma same_subs_pushes: "same_subs j d (fold (push_line k) ls d)"
proof (induction ls arbitrary: d)
  case (Cons l ls)
  then show ?case using same_subs_push[of j d k l] Cons.IH[of "push_line k l d"] unfolding same_subs_def by (metis fold_Cons comp_apply)
qed (simp add: same_subs_def)

lemma served_exit:
  assumes "served k n t ms" "0 < c"
  shows "served k n (t\<lparr>rt_exited := True, rt_code := x\<rparr>) (ms @ replicate c (Some k, S_Exit i y))"
proof -
  have "told_exit k (replicate c (Some k, S_Exit i y))" using assms(2) by (cases c) (auto simp: told_exit_def)
  moreover have "lines_from k (replicate c (Some k, S_Exit i y)) = []" by (simp add: lines_from_replicate)
  ultimately show ?thesis using assms(1) by (simp add: served_def)
qed

lemma following_ended:
  assumes f: "following s k n w d" and t: "the_turn j d = Some t'" "rt_key t = j" "rt_subs t = rt_subs t'"
  shows "following s k n w (broadcast_turn t (S_Exit i y) (on_turn j (\<lambda>t. t\<lparr>rt_exited := True, rt_code := x\<rparr>) d))"
proof (cases "j = k")
  case True
  have "rt_key t' = j" using the_turn_in[OF t(1)] by simp
  then have "broadcast_turn t m = broadcast_turn t' m" for m using t(2,3) by (simp add: broadcast_turn_def fun_eq_iff)
  moreover have "following s k n w (broadcast_turn t' (S_Exit i y) (on_turn k (\<lambda>t. t\<lparr>rt_exited := True, rt_code := x\<rparr>) d))"
    using t(1) True served_exit by (intro following_grows[OF f]) auto
  ultimately show ?thesis using True by simp
next
  case False
  have "following s k n w (on_turn j (\<lambda>t. t\<lparr>rt_exited := True, rt_code := x\<rparr>) d)" using False by (intro following_other[OF f]) auto
  then show ?thesis by (rule following_broadcast) simp
qed

lemma following_buf: "following s k n w d \<Longrightarrow> following s k n w (on_turn j (\<lambda>t. t\<lparr>rt_buf := b\<rparr>) d)"
  by (rule following_on_turn) (auto simp: silent_def)

lemma following_pushes: "following s k n w d \<Longrightarrow> following s k n w (fold (push_line j) ls d)"
  by (rule following_fold[OF following_push])

lemma following_stdout: "following s k n w d \<Longrightarrow> following s k n w (child_stdout j bytes d)"
  by (auto simp: child_stdout_def following_pushes following_buf split: option.split prod.split)

lemma following_stderr: "following s k n w d \<Longrightarrow> following s k n w (child_stderr j bytes d)"
  by (auto simp: child_stderr_def Let_def following_broadcast split: option.split)

lemma following_exit:
  assumes f: "following s k n w d"
  shows "following s k n w (child_exit j c d)"
proof (cases "the_turn j d")
  case None
  then show ?thesis using f by (simp add: child_exit_def)
next
  case (Some t)
  obtain ls buf where fl: "ndjson_flush (rt_buf t) = (ls, buf)" by fastforce
  let ?b = "on_turn j (\<lambda>t. t\<lparr>rt_buf := buf\<rparr>) d"
  let ?d = "fold (push_line j) ls ?b"
  have "same_subs j d ?b" by (rule same_subs_on_turn) simp
  then obtain t' where "the_turn j ?d = Some t'" "rt_subs t = rt_subs t'" using Some same_subs_pushes[of j ?b j ls] unfolding same_subs_def by metis
  with the_turn_in[OF Some] have "following s k n w (broadcast_turn t (S_Exit (rt_id t) c) (on_turn j (\<lambda>t. t\<lparr>rt_exited := True, rt_code := Some c\<rparr>) ?d))"
    by (intro following_ended[OF following_pushes[OF following_buf[OF f]]]) simp_all
  then show ?thesis using Some fl by (simp add: child_exit_def)
qed

lemma following_error:
  assumes f: "following s k n w d"
  shows "following s k n w (child_error j err d)"
proof (cases "the_turn j d")
  case None
  then show ?thesis using f by (simp add: child_error_def)
next
  case (Some t)
  let ?d = "broadcast_turn t (S_Stderr (rt_id t) (code ''child error: '' @ err)) d"
  have b: "following s k n w ?d" by (rule following_broadcast[OF f]) simp
  then have "following s k n w (broadcast_turn t (S_Exit (rt_id t) (Some (- 1))) (on_turn j (\<lambda>t. t\<lparr>rt_exited := True, rt_code := Some (Some (- 1))\<rparr>) ?d))"
    using Some the_turn_in[OF Some] by (intro following_ended[OF b, of _ t]) simp_all
  then show ?thesis using Some b by (simp add: child_error_def Let_def)
qed

lemma following_drop:
  assumes f: "following s k n w d" and x: "x \<in> set (d_gone d)"
  shows "following s k n w (drop_socket x d)"
proof (rule following_quiet[OF f])
  let ?g = "\<lambda>t. if rt_mapped t then t\<lparr>rt_subs := filter (\<lambda>y. y \<noteq> x) (rt_subs t)\<rparr> else t"
  have turns: "d_turns (drop_socket x d) = map ?g (d_turns d)" by (simp add: drop_socket_def)
  show "keys_ok (drop_socket x d)" by (rule keys_ok_map[OF following_keys[OF f] _ turns]) simp
  fix t assume t: "t \<in> set (d_turns d)" "rt_key t = k" "s \<in> set (rt_subs t)" "s \<notin> set (d_gone (drop_socket x d))"
  then have "s \<noteq> x" using x by (auto simp: drop_socket_def)
  moreover have "?g t \<in> set (d_turns (drop_socket x d))" unfolding turns in_map_if using t(1) by blast
  ultimately show "\<exists>t' extra. t' \<in> set (d_turns (drop_socket x d)) \<and> rt_key t' = k \<and> s \<in> set (rt_subs t') \<and> d_wire (drop_socket x d) s = d_wire d s @ extra \<and>
      rt_lines t' = rt_lines t \<and> (rt_exited t' \<longrightarrow> rt_exited t \<or> told_exit k extra) \<and> (\<forall>(q, l) \<in> set (lines_from k extra). q \<le> length (rt_lines t))"
    using t by (intro exI[of _ "?g t"] exI[of _ "[]"] conjI) (simp_all add: drop_socket_def)
qed (simp add: drop_socket_def)

lemma following_break: "following s k n w d \<Longrightarrow> following s k n w (d\<lparr>d_gone := x # d_gone d\<rparr>)"
  by (auto simp: following_def keys_ok_def)

lemma following_step: "daemon_step parse sp d d' \<Longrightarrow> following s k n w d \<Longrightarrow> following s k n w d'"
proof (induction rule: daemon_step.induct)
  case (D_Input d j)
  then show ?case unfolding child_input_gone_def by (intro following_on_turn) (auto simp: silent_def)
qed (simp_all add: following_data following_stdout following_stderr following_exit following_error following_break following_drop)

section \<open>The keys in reachable states\<close>

lemma keys_send [simp]: "keys_ok (fold (send_to j m) ss d) = keys_ok d" "keys_ok (send_to j m s d) = keys_ok d"
    "keys_ok (fold (\<lambda>m. send_to j m s) ms d) = keys_ok d" "keys_ok (broadcast_turn t m d) = keys_ok d"
  using sends_eq[of j m "[s]" d] by (simp_all add: sends_eq send_list_eq keys_ok_def broadcast_turn_def)

lemma keys_on_turn: "keys_ok d \<Longrightarrow> (\<And>t. rt_key (g t) = rt_key t) \<Longrightarrow> keys_ok (on_turn k g d)"
  by (rule keys_ok_map[OF _ _ on_turn_turns]) auto

lemma keys_attach: "keys_ok d \<Longrightarrow> keys_ok (attachTurn s i f d)"
  by (auto simp: attachTurn_def split: option.split intro: keys_on_turn)

lemma keys_start: "keys_ok d \<Longrightarrow> keys_ok (startTurn sp s i argv d)"
  by (auto simp: startTurn_def keys_attach split: option.split) (auto simp: keys_ok_def new_turn_def)

lemma keys_mapped: "keys_ok d \<Longrightarrow> (\<And>t. rt_key (g t) = rt_key t) \<Longrightarrow> keys_ok (on_mapped i g d)"
  by (auto simp: on_mapped_def split: option.split intro: keys_on_turn)

lemma keys_handle: "keys_ok d \<Longrightarrow> keys_ok (handle_msg sp s m d)"
  by (cases m) (auto simp: handle_msg_def keys_start keys_attach intro!: keys_mapped)

lemma keys_fold: "(\<And>y d. keys_ok d \<Longrightarrow> keys_ok (g y d)) \<Longrightarrow> keys_ok d \<Longrightarrow> keys_ok (fold g ys d)"
  by (induction ys arbitrary: d) auto

lemma keys_push: "keys_ok d \<Longrightarrow> keys_ok (push_line k l d)"
  by (auto simp: push_line_def split: option.split intro!: keys_on_turn)

lemma keys_bufs [simp]: "keys_ok (d\<lparr>d_bufs := x\<rparr>) = keys_ok d"
  by (simp add: keys_ok_def)

lemma keys_step: "daemon_step parse sp d d' \<Longrightarrow> keys_ok d \<Longrightarrow> keys_ok d'"
proof (induction rule: daemon_step.induct)
  case (D_Data d s chunk)
  then show ?case by (auto simp: socket_data_def keys_handle split: prod.split intro!: keys_fold)
next
  case (D_Drop s d)
  have "d_turns (drop_socket s d) = map (\<lambda>t. if rt_mapped t then t\<lparr>rt_subs := filter (\<lambda>x. x \<noteq> s) (rt_subs t)\<rparr> else t) (d_turns d)"
    by (simp add: drop_socket_def)
  then show ?case by (rule keys_ok_map[OF D_Drop(2), rotated]) simp
next
  case (D_Break d s)
  then show ?case by (simp add: keys_ok_def)
qed (auto simp: child_stdout_def child_stderr_def child_exit_def child_error_def child_input_gone_def Let_def keys_push
    split: option.split prod.split intro!: keys_on_turn keys_fold)

lemma keys_reach: "daemon_reach parse sp d \<Longrightarrow> keys_ok d"
  by (induction rule: rtranclp_induct) (auto simp: keys_step, simp add: keys_ok_def new_daemon_def)

section \<open>Attaching\<close>

lemma replay_fresh:
  "n \<le> l \<Longrightarrow> l \<le> length xs \<Longrightarrow> fresh_lines n (map (\<lambda>j. (Suc j, xs ! j)) [n..<l]) = take (l - n) (drop n xs) \<and>
     seen_up_to n (map (\<lambda>j. (Suc j, xs ! j)) [n..<l]) = l"
proof (induction l)
  case (Suc l)
  show ?case
  proof (cases "n = Suc l")
    case False
    then have l: "n \<le> l" using Suc.prems by simp
    with Suc have "fresh_lines n (map (\<lambda>j. (Suc j, xs ! j)) [n..<l]) = take (l - n) (drop n xs)" "seen_up_to n (map (\<lambda>j. (Suc j, xs ! j)) [n..<l]) = l" by simp_all
    moreover have "take (Suc l - n) (drop n xs) = take (l - n) (drop n xs) @ [xs ! l]"
      using l Suc.prems(2) by (simp add: Suc_diff_le take_Suc_conv_app_nth)
    ultimately show ?thesis using l by (simp add: fresh_lines_append)
  qed simp
qed simp

lemma replay_served:
  assumes "n \<le> length (rt_lines t)"
  shows "served (rt_key t) n t (map (Pair (Some (rt_key t))) (replay t n))"
proof -
  have "lines_from (rt_key t) (map (Pair (Some (rt_key t))) (replay t n)) = map (\<lambda>j. (Suc j, rt_lines t ! j)) [n..<length (rt_lines t)]"
    by (simp add: replay_def lines_from_def comp_def)
  then show ?thesis using replay_fresh[OF assms order_refl] by (auto simp: served_def told_exit_def replay_def)
qed

lemma attach_follows:
  assumes keys: "keys_ok d" and t: "mapped_turn i d = Some t" and n: "n \<le> length (rt_lines t)"
  shows "following s (rt_key t) n (d_wire d s) (attachTurn s i n d)"
  unfolding following_def
proof (intro conjI impI)
  show "keys_ok (attachTurn s i n d)" using keys by (rule keys_attach)
  let ?g = "\<lambda>t. t\<lparr>rt_subs := (if s \<in> set (rt_subs t) then rt_subs t else rt_subs t @ [s])\<rparr>"
  assume "s \<notin> set (d_gone (attachTurn s i n d))"
  then have s: "s \<notin> set (d_gone d)" by (simp add: attachTurn_def t send_list_eq)
  let ?ms = "map (Pair (Some (rt_key t))) (replay t n)"
  have "?g t \<in> set (d_turns (attachTurn s i n d))"
    using in_on_turn[of t d "rt_key t" ?g] mapped_turn_in[OF t] by (simp add: attachTurn_def t send_list_eq)
  moreover have "d_wire (attachTurn s i n d) s = d_wire d s @ ?ms" using s by (simp add: attachTurn_def t send_list_eq)
  moreover have "served (rt_key t) n (?g t) ?ms" using replay_served[OF n] by (simp add: served_def)
  ultimately show "\<exists>u ms. u \<in> set (d_turns (attachTurn s i n d)) \<and> rt_key u = rt_key t \<and> s \<in> set (rt_subs u) \<and>
      d_wire (attachTurn s i n d) s = d_wire d s @ ms \<and> served (rt_key t) n u ms"
    by (intro exI[of _ "?g t"] exI[of _ ?ms]) simp
qed

end
