(* ===== verification/Runner_Properties.thy ===== *)
theory Runner_Properties
  imports Runner_Laws
begin

text \<open>
  What the runner daemon guarantees to the server across reconnections, and the server's side of
  it to the turns.
\<close>

section \<open>A client that attaches misses nothing\<close>

text \<open>
  C39. A client that attaches to a turn with the number of lines it already has gets every later
  line of that turn, in order and without a gap or a repetition once it ignores numbers it
  has passed, and learns of the turn's end; whatever other clients do, and however often it
  attaches again, for as long as its connection lasts.
\<close>

theorem attached_client_misses_nothing:
  assumes "daemon_reach parse sp d" and "mapped_turn i d = Some t" and "n \<le> length (rt_lines t)"
    and "(daemon_step parse sp)\<^sup>*\<^sup>* (attachTurn s i n d) d'" and "s \<notin> set (d_gone d')"
  shows "\<exists>t' ms. the_turn (rt_key t) d' = Some t' \<and> d_wire d' s = d_wire d s @ ms \<and>
    fresh_lines n (lines_from (rt_key t) ms) = drop n (rt_lines t') \<and> (rt_exited t' \<longrightarrow> told_exit (rt_key t) ms)"
proof -
  have "following s (rt_key t) n (d_wire d s) (attachTurn s i n d)" using attach_follows[OF keys_reach[OF assms(1)] assms(2,3)] .
  with assms(4) have f: "following s (rt_key t) n (d_wire d s) d'"
    by (induction rule: rtranclp_induct) (simp_all add: following_step)
  then obtain t' ms where t': "t' \<in> set (d_turns d')" "rt_key t' = rt_key t" "d_wire d' s = d_wire d s @ ms" "served (rt_key t) n t' ms"
    using assms(5) unfolding following_def by blast
  then have "the_turn (rt_key t) d' = Some t'" using the_turn_unique[OF following_keys[OF f] t'(1)] by simp
  with t' show ?thesis by (auto simp: served_def)
qed

text \<open>A run: a turn is started, prints a line, a second client attaches, and it prints another.\<close>

definition run_parse :: "codes \<Rightarrow> client_msg option" where
  "run_parse l = (if l = [97] then Some (C_Start ''t'' []) else if l = [98] then Some (C_Release ''t'') else None)"

definition run_spawn :: "string list \<Rightarrow> codes option" where "run_spawn argv = None"

definition run_begun :: daemon where "run_begun = socket_data run_parse run_spawn 1 [97, 10] new_daemon"

definition run_printed :: daemon where "run_printed = child_stdout 0 [120, 10] run_begun"

definition run_ended :: daemon where "run_ended = child_stdout 0 [121, 10] (attachTurn 2 ''t'' 0 run_printed)"

lemma run_lines [simp]: "cut_lines [97, 10] = ([[97]], [])" "cut_lines [98, 10] = ([[98]], [])" "cut_lines [120, 10] = ([[120]], [])" "cut_lines [121, 10] = ([[121]], [])"
  by (subst cut_lines.simps, simp add: cut_lines.simps[of "[]"])+

lemmas run_ops = socket_data_def new_daemon_def parsed_def trim_codes_def js_white_def run_parse_def run_spawn_def handle_msg_def startTurn_def
  mapped_turn_def new_turn_def child_stdout_def the_turn_def ndjson_push_def clean_line_def push_line_def on_turn_def broadcast_turn_def send_to_def
  attachTurn_def replay_def List.map_filter_def on_mapped_def child_exit_def ndjson_flush_def

lemma run_facts:
  "d_turns run_printed = [(new_turn 0 ''t'' 1)\<lparr>rt_lines := [[120]]\<rparr>]" "d_wire run_printed 2 = []" "d_gone run_printed = []"
  "d_turns run_ended = [(new_turn 0 ''t'' 1)\<lparr>rt_lines := [[120], [121]], rt_subs := [1, 2]\<rparr>]" "d_gone run_ended = []"
  by (simp_all add: run_begun_def run_printed_def run_ended_def run_ops)

lemma attached_client_misses_nothing_witness:
  "\<exists>ms. d_wire run_ended 2 = ms \<and> fresh_lines 0 (lines_from 0 ms) = [[120], [121]]"
proof -
  have "daemon_reach run_parse run_spawn run_begun" unfolding run_begun_def by (rule r_into_rtranclp) (rule D_Data)
  then have r: "daemon_reach run_parse run_spawn run_printed" unfolding run_printed_def by (rule rtranclp.rtrancl_into_rtrancl) (rule D_Stdout)
  have t: "mapped_turn ''t'' run_printed = Some ((new_turn 0 ''t'' 1)\<lparr>rt_lines := [[120]]\<rparr>)"
    by (simp add: mapped_turn_def run_facts new_turn_def)
  have "(daemon_step run_parse run_spawn)\<^sup>*\<^sup>* (attachTurn 2 ''t'' 0 run_printed) run_ended"
    unfolding run_ended_def by (rule r_into_rtranclp) (rule D_Stdout)
  from attached_client_misses_nothing[OF r t _ this] show ?thesis by (auto simp: run_facts the_turn_def new_turn_def)
qed

section \<open>Children that call back late\<close>

text \<open>
  A turn's id is its task's id, so the next turn of a task uses it again. A child that was
  released while it ran still calls back, and the client, which knows only the id, is told
  that the turn it has just started has ended.
\<close>

lemma released_child_ends_next_turn:
  defines "again \<equiv> socket_data run_parse run_spawn 1 [97, 10] (socket_data run_parse run_spawn 1 [98, 10] run_begun)"
  shows "mapped_turn ''t'' (child_exit 0 None again) = Some (new_turn 1 ''t'' 1)"
    and "d_wire (child_exit 0 None again) 1 = [(Some 0, S_Exit ''t'' None)]"
  unfolding again_def by (simp_all add: run_begun_def run_ops)

text \<open>
  The daemon reports the end of a turn at the child's \<open>exit\<close>, which may come before the last of
  its output: a line cut by it is delivered in two pieces, one of them after the end.
\<close>

lemma output_after_the_end:
  "d_wire (child_stdout 0 [98, 10] (child_exit 0 (Some 0) (child_stdout 0 [97] run_begun))) 1 =
     [(Some 0, S_Line ''t'' 1 [97]), (Some 0, S_Exit ''t'' (Some 0)), (Some 0, S_Line ''t'' 2 [98])]"
proof -
  have "cut_lines [97] = ([], [97])" by (subst cut_lines.simps) simp
  then show ?thesis by (simp add: run_begun_def run_ops)
qed

section \<open>The server's side\<close>

inductive backend_step :: "(codes \<Rightarrow> server_msg option) \<Rightarrow> backend \<Rightarrow> backend \<Rightarrow> bool" for parse where
  B_Connect: "\<not> b_connected b \<Longrightarrow> backend_step parse b (attachSocket b)"
| B_Lost: "backend_step parse b (connection_lost b)"
| B_Data: "b_connected b \<Longrightarrow> backend_step parse b (backend_data parse chunk b)"
| B_Close: "backend_step parse b (close_backend b)"
| B_Start: "backend_step parse b (snd (start_remote i argv b))"
| B_Microtask: "backend_step parse b (run_failed b)"
| B_Attach: "backend_step parse b (snd (attach_remote i n b))"
| B_List: "w \<notin> set (b_waiters b @ map fst (b_answers b)) \<Longrightarrow> backend_step parse b (list_live w b)"
| B_Timeout: "backend_step parse b (live_timeout w b)"
| B_Release: "backend_step parse b (release_remote i b)"
| B_Stdin: "h \<in> set (b_objects b) \<Longrightarrow> backend_step parse b (snd (write_stdin h data b))"
| B_Close_Stdin: "h \<in> set (b_objects b) \<Longrightarrow> backend_step parse b (close_stdin h b)"
| B_Kill: "h \<in> set (b_objects b) \<Longrightarrow> backend_step parse b (kill_remote h sig b)"

abbreviation backend_reach :: "(codes \<Rightarrow> server_msg option) \<Rightarrow> backend \<Rightarrow> bool" where
  "backend_reach parse b \<equiv> (backend_step parse)\<^sup>*\<^sup>* new_backend b"

definition exits_ok :: "rhandle \<Rightarrow> bool" where
  "exits_ok h \<longleftrightarrow> length (h_exits h) \<le> 1 \<and> (h_exited h \<longleftrightarrow> h_exits h \<noteq> [])"

definition settled_key :: "nat \<Rightarrow> backend \<Rightarrow> bool" where
  "settled_key k b \<longleftrightarrow> k \<in> set (b_failed b) \<or> (\<exists>h \<in> set (b_objects b). h_key h = k \<and> h_exited h)"

definition backend_ok :: "backend \<Rightarrow> bool" where
  "backend_ok b \<longleftrightarrow> (\<forall>h \<in> set (b_objects b). exits_ok h) \<and> (\<forall>k < length (b_objects b). \<exists>h \<in> set (b_objects b). h_key h = k) \<and>
     snd ` set (b_handles b) \<subseteq> {..<length (b_objects b)} \<and> set (b_failed b) \<subseteq> {..<length (b_objects b)} \<and>
     distinct (b_waiters b @ map fst (b_answers b)) \<and> (\<not> b_connected b \<longrightarrow> b_waiters b = []) \<and> (b_closed b \<longrightarrow> \<not> b_connected b) \<and>
     (\<not> b_connected b \<and> \<not> b_closed b \<longrightarrow> (\<forall>(i, k) \<in> set (b_handles b). settled_key k b))"

lemma on_handle_objects: "b_objects (on_handle k f b) = map (\<lambda>h. if h_key h = k then f h else h) (b_objects b)"
  by (simp add: on_handle_def)

lemma in_on_handle: "h \<in> set (b_objects b) \<Longrightarrow> (if h_key h = k then f h else h) \<in> set (b_objects (on_handle k f b))"
  unfolding on_handle_objects in_map_if by blast

lemma on_handle_elim:
  assumes "h' \<in> set (b_objects (on_handle k f b))"
  obtains h where "h \<in> set (b_objects b)" "h' = (if h_key h = k then f h else h)"
  using assms unfolding on_handle_objects in_map_if by blast

text \<open>A callback of a handle.\<close>

definition handle_op :: "(rhandle \<Rightarrow> rhandle) \<Rightarrow> bool" where
  "handle_op f \<longleftrightarrow> (\<forall>h. h_key (f h) = h_key h \<and> (h_exited h \<longrightarrow> h_exited (f h)) \<and> (exits_ok h \<longrightarrow> exits_ok (f h)))"

lemma handle_op_exit: "handle_op (handle_exit c)"
  by (auto simp: handle_op_def handle_exit_def exits_ok_def)

lemma on_handle_frame [simp]:
  "b_connected (on_handle k f b) = b_connected b" "b_closed (on_handle k f b) = b_closed b" "b_handles (on_handle k f b) = b_handles b"
  "b_waiters (on_handle k f b) = b_waiters b" "b_answers (on_handle k f b) = b_answers b" "b_failed (on_handle k f b) = b_failed b"
  "length (b_objects (on_handle k f b)) = length (b_objects b)"
  by (simp_all add: on_handle_def)

lemma on_handle_ok:
  assumes ok: "backend_ok b" and f: "handle_op f"
  shows "backend_ok (on_handle k f b)"
proof -
  have "exits_ok h" if h: "h \<in> set (b_objects (on_handle k f b))" for h
  proof -
    obtain g where "g \<in> set (b_objects b)" "h = (if h_key g = k then f g else g)" using h by (rule on_handle_elim)
    then show ?thesis using ok f by (simp add: backend_ok_def handle_op_def)
  qed
  moreover have moved: "\<exists>h' \<in> set (b_objects (on_handle k f b)). h_key h' = h_key h \<and> (h_exited h \<longrightarrow> h_exited h')" if "h \<in> set (b_objects b)" for h
    using in_on_handle[OF that, of k f] f by (intro bexI) (auto simp: handle_op_def)
  moreover have "\<exists>h \<in> set (b_objects (on_handle k f b)). h_key h = j" if "j < length (b_objects b)" for j
    using ok that moved unfolding backend_ok_def by metis
  moreover have settled: "settled_key j (on_handle k f b)" if s: "settled_key j b" for j
  proof (cases "j \<in> set (b_failed b)")
    case False
    then obtain h where h: "h \<in> set (b_objects b)" "h_key h = j" "h_exited h" using s unfolding settled_key_def by blast
    from moved[OF h(1)] h(2,3) show ?thesis unfolding settled_key_def by auto
  qed (simp add: settled_key_def)
  have "\<forall>(i, j) \<in> set (b_handles b). settled_key j (on_handle k f b)" if "\<forall>(i, j) \<in> set (b_handles b). settled_key j b"
    using that settled by auto
  with calculation show ?thesis using ok unfolding backend_ok_def by (simp only: on_handle_frame) simp
qed

lemma backend_ok_sent [simp]: "backend_ok (b\<lparr>b_sent := x\<rparr>) = backend_ok b" "backend_ok (b\<lparr>b_buf := y\<rparr>) = backend_ok b"
  by (simp_all add: backend_ok_def settled_key_def)

lemma send_msg_ok: "backend_ok b \<Longrightarrow> backend_ok (snd (send_msg m b))"
  by (simp add: send_msg_def)

lemma answer_ok: "backend_ok b \<Longrightarrow> backend_ok (answer_waiters_with ids b)"
  by (auto simp: answer_waiters_with_def backend_ok_def settled_key_def comp_def)

lemma dispatch_ok:
  assumes "backend_ok b"
  shows "backend_ok (dispatch_msg m b)"
proof (cases m)
  case (S_Line i q l)
  have "handle_op (\<lambda>h. h\<lparr>h_lines := h_lines h @ [(q, l)]\<rparr>)" by (simp add: handle_op_def exits_ok_def)
  then show ?thesis using S_Line on_handle_ok[OF assms] assms by (simp add: dispatch_msg_def split: option.split)
next
  case (S_Stderr i e)
  have "handle_op (\<lambda>h. h\<lparr>h_stderr := h_stderr h @ [e]\<rparr>)" by (simp add: handle_op_def exits_ok_def)
  then show ?thesis using S_Stderr on_handle_ok[OF assms] assms by (simp add: dispatch_msg_def split: option.split)
next
  case (S_Exit i c)
  then show ?thesis using on_handle_ok[OF assms handle_op_exit] assms by (simp add: dispatch_msg_def split: option.split)
qed (use assms answer_ok in \<open>simp add: dispatch_msg_def\<close>)

lemma backend_fold: "(\<And>y b. backend_ok b \<Longrightarrow> backend_ok (g y b)) \<Longrightarrow> backend_ok b \<Longrightarrow> backend_ok (fold g ys b)"
  by (induction ys arbitrary: b) auto

lemma backend_data_ok: "backend_ok b \<Longrightarrow> backend_ok (backend_data parse chunk b)"
  by (auto simp: backend_data_def dispatch_ok intro!: backend_fold split: prod.split)

lemma release_ok: "backend_ok b \<Longrightarrow> backend_ok (release_remote i b)"
  unfolding release_remote_def by (rule send_msg_ok) (auto simp: backend_ok_def settled_key_def)

lemma close_ok: "backend_ok b \<Longrightarrow> backend_ok (close_backend b)"
  by (auto simp: close_backend_def answer_waiters_with_def backend_ok_def comp_def)

lemma list_ok: "backend_ok b \<Longrightarrow> w \<notin> set (b_waiters b @ map fst (b_answers b)) \<Longrightarrow> backend_ok (list_live w b)"
  by (auto simp: list_live_def send_msg_def backend_ok_def settled_key_def)

lemma timeout_ok: "backend_ok b \<Longrightarrow> backend_ok (live_timeout w b)"
  by (auto simp: live_timeout_def backend_ok_def settled_key_def distinct_remove1 dest: notin_set_remove1)

lemma connect_ok: "backend_ok b \<Longrightarrow> backend_ok (attachSocket b)"
  by (auto simp: attachSocket_def backend_ok_def)

lemma on_handles_frame [simp]:
  "b_closed (fold (\<lambda>k. on_handle k f) ks b) = b_closed b" "b_handles (fold (\<lambda>k. on_handle k f) ks b) = b_handles b"
  "b_connected (fold (\<lambda>k. on_handle k f) ks b) = b_connected b"
  by (induction ks arbitrary: b) simp_all

text \<open>Losing the connection: the handles are settled one after the other, then all forgotten.\<close>

definition forgetting :: "backend \<Rightarrow> backend" where "forgetting b = b\<lparr>b_handles := [], b_waiters := [], b_answers := b_answers b @ map (\<lambda>w. (w, [])) (b_waiters b), b_connected := False\<rparr>"

lemma forgetting_ok: "backend_ok b \<Longrightarrow> backend_ok (forgetting b)"
  by (auto simp: forgetting_def backend_ok_def comp_def)

lemma settle_all_disconnected:
  "fold (\<lambda>k. on_handle k f) ks (b\<lparr>b_connected := x\<rparr>) = (fold (\<lambda>k. on_handle k f) ks b)\<lparr>b_connected := x\<rparr>"
proof (induction ks arbitrary: b)
  case (Cons k ks)
  have "on_handle k f (b\<lparr>b_connected := x\<rparr>) = (on_handle k f b)\<lparr>b_connected := x\<rparr>" by (simp add: on_handle_def)
  then show ?case using Cons.IH by simp
qed simp

lemma lost_ok:
  assumes ok: "backend_ok b"
  shows "backend_ok (connection_lost b)"
proof (cases "b_closed b")
  case True
  then have "\<not> b_connected b" using ok by (simp add: backend_ok_def)
  then have "b\<lparr>b_connected := False\<rparr> = b" by simp
  then show ?thesis using ok True by (simp add: connection_lost_def)
next
  case False
  have "connection_lost b = forgetting (fold (\<lambda>k. on_handle k (handle_exit (Some (- 1)))) (map snd (b_handles b)) b)"
    using False by (simp add: connection_lost_def settle_all_disconnected answer_waiters_with_def forgetting_def)
  moreover have "backend_ok (fold (\<lambda>k. on_handle k (handle_exit (Some (- 1)))) (map snd (b_handles b)) b)"
    by (rule backend_fold[OF on_handle_ok[OF _ handle_op_exit] ok])
  ultimately show ?thesis using forgetting_ok by simp
qed

lemma new_handle_frame:
  "new_handle i b = (k, b1) \<Longrightarrow> k = length (b_objects b) \<and> b_connected b1 = b_connected b \<and> b_closed b1 = b_closed b"
  by (auto simp: new_handle_def Let_def)

text \<open>A new handle: registered at once, so a start that was not sent must be settled by its microtask.\<close>

lemma new_handle_ok:
  assumes ok: "backend_ok b" and n: "new_handle i b = (k, b1)"
  shows "b_connected b \<Longrightarrow> backend_ok b1" "backend_ok (b1\<lparr>b_failed := b_failed b1 @ [k]\<rparr>)"
proof -
  let ?h = "\<lparr>h_key = length (b_objects b), h_turn = i, h_lines = [], h_stderr = [], h_exits = [], h_exited = False, h_stdin = True\<rparr>"
  have b1: "k = length (b_objects b)" "b1 = b\<lparr>b_objects := b_objects b @ [?h], b_handles := (i, k) # filter (\<lambda>x. fst x \<noteq> i) (b_handles b)\<rparr>"
    using n by (auto simp: new_handle_def Let_def)
  have "exits_ok ?h" by (simp add: exits_ok_def)
  then have objs: "\<forall>h \<in> set (b_objects b1). exits_ok h" "\<forall>j < length (b_objects b1). \<exists>h \<in> set (b_objects b1). h_key h = j"
    using ok by (auto simp: backend_ok_def b1 less_Suc_eq)
  have keep: "settled_key j b \<Longrightarrow> settled_key j (b1\<lparr>b_failed := b_failed b1 @ [k]\<rparr>)" for j by (auto simp: settled_key_def b1)
  have new: "settled_key k (b1\<lparr>b_failed := b_failed b1 @ [k]\<rparr>)" by (simp add: settled_key_def)
  show "backend_ok b1" if "b_connected b" using ok objs that by (auto simp: backend_ok_def b1)
  show "backend_ok (b1\<lparr>b_failed := b_failed b1 @ [k]\<rparr>)"
    using ok objs keep new by (auto simp: backend_ok_def b1)
qed

lemma start_ok:
  assumes ok: "backend_ok b"
  shows "backend_ok (snd (start_remote i argv b))"
proof -
  obtain k b1 where n: "new_handle i b = (k, b1)" by fastforce
  show ?thesis using new_handle_ok[OF ok n] new_handle_frame[OF n] by (auto simp: start_remote_def n send_msg_def)
qed

lemma attach_remote_ok:
  assumes ok: "backend_ok b"
  shows "backend_ok (snd (attach_remote i n b))"
proof -
  obtain k b1 where n: "new_handle i b = (k, b1)" by fastforce
  show ?thesis using new_handle_ok[OF ok n] ok by (auto simp: attach_remote_def n send_msg_ok)
qed

lemma microtask_ok:
  assumes ok: "backend_ok b"
  shows "backend_ok (run_failed b)"
proof (cases "b_failed b")
  case (Cons k ks)
  let ?b = "on_handle k (handle_exit (Some (- 1))) b"
  have okb: "backend_ok ?b" by (rule on_handle_ok[OF ok handle_op_exit])
  have "k < length (b_objects b)" using ok Cons by (auto simp: backend_ok_def)
  then obtain h where h: "h \<in> set (b_objects b)" "h_key h = k" using ok unfolding backend_ok_def by blast
  have "h_exited (handle_exit (Some (- 1)) h)" "h_key (handle_exit (Some (- 1)) h) = k" using h(2) by (simp_all add: handle_exit_def)
  then have ended: "\<exists>h \<in> set (b_objects ?b). h_key h = k \<and> h_exited h"
    using in_on_handle[OF h(1), of k "handle_exit (Some (- 1))"] h(2) by auto
  have eq: "run_failed b = ?b\<lparr>b_failed := ks\<rparr>" using Cons by (simp add: run_failed_def on_handle_def)
  have "settled_key j (?b\<lparr>b_failed := ks\<rparr>)" if "settled_key j ?b" for j
    using that Cons ended by (auto simp: settled_key_def)
  then show ?thesis using okb Cons unfolding eq backend_ok_def by auto
qed (use ok in \<open>simp add: run_failed_def\<close>)

lemma write_ok: "backend_ok b \<Longrightarrow> backend_ok (snd (write_stdin h data b))"
  by (simp add: write_stdin_def send_msg_ok)

lemma close_stdin_ok: "backend_ok b \<Longrightarrow> backend_ok (close_stdin h b)"
  by (auto simp: close_stdin_def handle_op_def exits_ok_def intro!: send_msg_ok on_handle_ok)

lemma kill_ok: "backend_ok b \<Longrightarrow> backend_ok (kill_remote h sig b)"
  by (simp add: kill_remote_def send_msg_ok)

lemma backend_step_ok: "backend_step parse b b' \<Longrightarrow> backend_ok b \<Longrightarrow> backend_ok b'"
  by (induction rule: backend_step.induct)
    (simp_all add: connect_ok lost_ok backend_data_ok close_ok start_ok microtask_ok attach_remote_ok list_ok timeout_ok release_ok write_ok close_stdin_ok kill_ok)

lemma backend_reach_ok: "backend_reach parse b \<Longrightarrow> backend_ok b"
  by (induction rule: rtranclp_induct) (simp_all add: backend_step_ok, simp add: backend_ok_def new_backend_def)



end
