(* ===== verification/Conversation.thy ===== *)
theory Conversation
  imports Js_Text Permissions
begin

text \<open>
  The transcript of a task (packages/shared/src/conversation.ts): the events of the log as rows,
  with the work of a turn folded into activities and its failures into one disclosure. Of a
  payload the fields that the code reads are kept, each with the type the code tests for
  (\<open>y_inputCommand\<close>, \<open>y_filePath\<close> and \<open>y_path\<close> are those of its \<open>input\<close>). The steps of an
  activity are in Conversation_Trace.
\<close>

section \<open>The log\<close>

datatype event_kind = K_Status | K_Image | K_Text | K_Call | K_Result_Of_Call | K_Approval | K_Question | K_Result | K_Error

datatype phase = Progress | Partial | Final

text \<open>A command is a text, a list whose parts may be texts, or something else.\<close>

datatype shell_command = Shell_Text string | Shell_Parts "string option list" | Shell_Other

record item_payload =
  y_subtype :: "string option"
  y_source :: "string option"
  y_text :: "string option"
  y_status :: "string option"
  y_isError :: bool
  y_exitCode :: "int option"
  y_code :: "int option"
  y_codeName :: "string option"
  y_messageId :: "string option"
  y_phase :: "phase option"
  y_result :: "string option"
  y_id :: "string option"
  y_toolUse :: "string option"
  y_name :: "string option"
  y_traceTitle :: "string option"
  y_command :: "shell_command option"
  y_inputCommand :: "shell_command option"
  y_filePath :: "string option"
  y_path :: "string option"

definition no_payload :: item_payload where
  "no_payload = \<lparr>y_subtype = None, y_source = None, y_text = None, y_status = None, y_isError = False, y_exitCode = None, y_code = None, y_codeName = None,
     y_messageId = None, y_phase = None, y_result = None, y_id = None, y_toolUse = None, y_name = None, y_traceTitle = None, y_command = None, y_inputCommand = None,
     y_filePath = None, y_path = None\<rparr>"

record log_item =
  l_key :: nat
  l_end :: "nat option"
  l_kind :: event_kind
  l_agent :: agent_kind
  l_task :: string
  l_session :: "string option"
  l_text :: string
  l_messageId :: "string option"
  l_phase :: "phase option"
  l_payload :: item_payload

definition payload :: "log_item \<Rightarrow> item_payload" where
  "payload i = (if l_kind i = K_Text then no_payload else l_payload i)"

definition subtype :: "log_item \<Rightarrow> string" where
  "subtype i = (case y_subtype (payload i) of None \<Rightarrow> [] | Some s \<Rightarrow> s)"

definition traceImage :: "log_item \<Rightarrow> bool" where
  "traceImage i \<longleftrightarrow> l_kind i = K_Image \<and> y_source (payload i) \<noteq> Some ''message''"

definition item_failed :: "log_item \<Rightarrow> bool" where
  "item_failed i \<longleftrightarrow> (let p = payload i in
     l_kind i = K_Error \<or> y_isError p \<or> y_status p = Some ''failed'' \<or> (y_exitCode p \<noteq> None \<and> y_exitCode p \<noteq> Some 0) \<or>
     (l_kind i = K_Status \<and> subtype i = ''process_exit'' \<and> y_code p \<noteq> None \<and> y_code p \<noteq> Some 0) \<or>
     (l_kind i = K_Result \<and> prefix ''error'' (subtype i)))"

definition userMessage :: "log_item \<Rightarrow> bool" where
  "userMessage i \<longleftrightarrow> l_kind i = K_Status \<and> subtype i \<in> {''dispatch'', ''followup'', ''steer'', ''answer''}"

text \<open>Environment updates that Codex writes into its history as messages of the user.\<close>

definition occurs_at :: "string \<Rightarrow> string \<Rightarrow> nat \<Rightarrow> bool" where
  "occurs_at w s k \<longleftrightarrow> take (length w) (drop k s) = w"

definition isNativeEnvironmentContext :: "log_item \<Rightarrow> bool" where
  "isNativeEnvironmentContext i \<longleftrightarrow> (let ending = ''</environment_context>'' in
     l_agent i = Codex \<and> l_kind i = K_Status \<and> y_subtype (l_payload i) = Some ''followup'' \<and> y_source (l_payload i) = Some ''local'' \<and>
     (case y_text (l_payload i) of
        None \<Rightarrow> False
      | Some t \<Rightarrow> let t = trim t in prefix ''<environment_context>'' t \<and> suffix ending t \<and>
          \<not> list_ex (occurs_at ending t) [0..<length t - length ending]))"

text \<open>An event joins the text before it when it continues the same message.\<close>

definition continues :: "log_item \<Rightarrow> log_item \<Rightarrow> bool" where
  "continues prev i \<longleftrightarrow> l_kind prev = K_Text \<and> l_agent prev = l_agent i \<and> l_messageId prev = l_messageId i \<and>
     (l_messageId i \<noteq> None \<or> l_phase prev = l_phase i)"

definition appendHistoryEvent :: "log_item list \<Rightarrow> log_item \<Rightarrow> nat \<Rightarrow> log_item list" where
  "appendHistoryEvent items i q = (
     if isNativeEnvironmentContext i then items
     else if l_kind i = K_Text \<and> items \<noteq> [] \<and> continues (last items) i
     then butlast items @ [(last items)\<lparr>l_end := Some q, l_text := l_text (last items) @ l_text i\<rparr>]
     else items @ [i\<lparr>l_key := q, l_end := Some q\<rparr>])"

section \<open>Rows\<close>

record activity =
  ac_key :: nat
  ac_items :: "log_item list"
  ac_live :: bool
  ac_preview :: "string option"

record run_failure =
  fl_key :: nat
  fl_items :: "log_item list"
  fl_previous :: bool
  fl_completed :: bool

datatype row = Row_Activity activity | Row_Failure run_failure | Row_Message nat log_item

fun is_activity :: "row \<Rightarrow> bool" where "is_activity (Row_Activity a) = True" | "is_activity _ = False"
fun is_failure :: "row \<Rightarrow> bool" where "is_failure (Row_Failure f) = True" | "is_failure _ = False"

fun on_activity :: "(activity \<Rightarrow> activity) \<Rightarrow> row \<Rightarrow> row" where "on_activity g (Row_Activity a) = Row_Activity (g a)" | "on_activity g r = r"
fun on_fail :: "(run_failure \<Rightarrow> run_failure) \<Rightarrow> row \<Rightarrow> row" where "on_fail g (Row_Failure f) = Row_Failure (g f)" | "on_fail g r = r"

definition upd_last :: "('a \<Rightarrow> bool) \<Rightarrow> ('a \<Rightarrow> 'a) \<Rightarrow> 'a list \<Rightarrow> 'a list" where
  "upd_last p f xs = rev (upd_first p f (rev xs))"

section \<open>One turn\<close>

text \<open>\<open>phases\<close>: the first classification of each message in the turn.\<close>

definition note_phase :: "log_item \<Rightarrow> (string \<rightharpoonup> phase option) \<Rightarrow> (string \<rightharpoonup> phase option)" where
  "note_phase i ps = (
    let ps = (case l_messageId i of Some m \<Rightarrow> if l_kind i = K_Text \<and> m \<noteq> [] \<and> ps m = None then ps(m \<mapsto> l_phase i) else ps | None \<Rightarrow> ps)
    in (case (y_messageId (payload i), y_phase (payload i)) of
         (Some m, Some ph) \<Rightarrow> if subtype i = ''assistant_message'' \<and> ps m = None then ps(m \<mapsto> Some ph) else ps
       | _ \<Rightarrow> ps))"

definition phases :: "log_item list \<Rightarrow> string \<rightharpoonup> phase option" where "phases turn = fold note_phase turn (\<lambda>_. None)"

definition phaseOf :: "(string \<rightharpoonup> phase option) \<Rightarrow> log_item \<Rightarrow> phase option" where
  "phaseOf ps i = (if l_kind i \<noteq> K_Text then None else case l_messageId i of
      None \<Rightarrow> l_phase i
    | Some m \<Rightarrow> if m = [] then l_phase i else Option.bind (ps m) id)"

definition machinery :: "log_item \<Rightarrow> bool" where
  "machinery i \<longleftrightarrow> l_kind i \<in> {K_Status, K_Call, K_Result_Of_Call, K_Result} \<or> traceImage i"

definition work_item :: "(string \<rightharpoonup> phase option) \<Rightarrow> log_item \<Rightarrow> bool" where
  "work_item ps i \<longleftrightarrow> l_kind i \<in> {K_Call, K_Result_Of_Call} \<or> traceImage i \<or> phaseOf ps i = Some Progress"

text \<open>
  The rows before the turn and those of the turn, whether \<open>failure\<close> and \<open>group\<close> are set (to the
  last failure row and to the turn's last activity), and the texts shown.
\<close>

record flushing =
  f_old :: "row list"
  f_seg :: "row list"
  f_failure :: bool
  f_group :: bool
  f_texts :: "string list"

definition on_failure :: "(run_failure \<Rightarrow> run_failure) \<Rightarrow> flushing \<Rightarrow> flushing" where
  "on_failure g s = (if list_ex is_failure (f_seg s) then s\<lparr>f_seg := upd_last is_failure (on_fail g) (f_seg s)\<rparr>
     else s\<lparr>f_old := upd_last is_failure (on_fail g) (f_old s)\<rparr>)"

definition add_failure :: "log_item \<Rightarrow> flushing \<Rightarrow> flushing" where
  "add_failure i s = on_failure (\<lambda>f. f\<lparr>fl_items := fl_items f @ [i], fl_completed := False\<rparr>)
     (if f_failure s then s
      else s\<lparr>f_failure := True, f_seg := f_seg s @ [Row_Failure \<lparr>fl_key = l_key i, fl_items = [], fl_previous = False, fl_completed = False\<rparr>]\<rparr>)"

definition add_to_group :: "log_item \<Rightarrow> (activity \<Rightarrow> activity) \<Rightarrow> flushing \<Rightarrow> flushing" where
  "add_to_group i g s = (
    let s = (if f_group s then s else s\<lparr>f_group := True,
      f_seg := f_seg s @ [Row_Activity \<lparr>ac_key = l_key i, ac_items = [], ac_live = False, ac_preview = None\<rparr>]\<rparr>)
    in s\<lparr>f_seg := upd_last is_activity (on_activity (\<lambda>a. g (a\<lparr>ac_items := ac_items a @ [i]\<rparr>))) (f_seg s)\<rparr>)"

definition result_answer :: "log_item \<Rightarrow> string \<Rightarrow> log_item" where
  "result_answer i t = \<lparr>l_key = l_key i, l_end = None, l_kind = K_Text, l_agent = l_agent i, l_task = [], l_session = None, l_text = t,
     l_messageId = None, l_phase = Some Final, l_payload = no_payload\<rparr>"

definition add_answer :: "log_item \<Rightarrow> flushing \<Rightarrow> flushing" where
  "add_answer i s = (case y_result (payload i) of
      None \<Rightarrow> s
    | Some t \<Rightarrow> if l_kind i = K_Result \<and> \<not> item_failed i \<and> trim t \<noteq> [] \<and> trim t \<notin> set (f_texts s)
        then s\<lparr>f_seg := f_seg s @ [Row_Message (l_key i) (result_answer i t)], f_texts := trim t # f_texts s\<rparr> else s)"

definition flush_item :: "(string \<rightharpoonup> phase option) \<Rightarrow> nat option \<Rightarrow> bool \<Rightarrow> nat \<times> log_item \<Rightarrow> flushing \<Rightarrow> flushing" where
  "flush_item ps latest active ni s = (case ni of (n, i) \<Rightarrow>
     if item_failed i \<and> l_kind i \<notin> {K_Call, K_Result_Of_Call} then add_failure i s
     else
       let s = (if l_kind i = K_Result \<and> f_failure s then on_failure (\<lambda>f. f\<lparr>fl_completed := True\<rparr>) s else s) in
       if l_kind i = K_Status \<and> subtype i = ''assistant_message''
       then s\<lparr>f_seg := upd_last is_activity (on_activity (\<lambda>a. a\<lparr>ac_items := ac_items a @ [i]\<rparr>)) (f_seg s)\<rparr>
       else add_answer i
         (if machinery i \<or> phaseOf ps i = Some Progress
          then add_to_group i (\<lambda>a. if latest = Some n \<and> active \<and> l_kind i = K_Text then a\<lparr>ac_preview := Some (l_text i)\<rparr> else a) s
          else s\<lparr>f_group := False, f_seg := f_seg s @ [Row_Message (l_key i) i]\<rparr>))"

text \<open>Activities without work give their items to the next one with work, or to the last.\<close>

fun is_work :: "(string \<rightharpoonup> phase option) \<Rightarrow> row \<Rightarrow> bool" where
  "is_work ps (Row_Activity a) = list_ex (work_item ps) (ac_items a)"
| "is_work ps _ = False"

fun after_key :: "nat \<Rightarrow> row \<Rightarrow> bool" where
  "after_key k (Row_Activity a) = (k < ac_key a)"
| "after_key k _ = False"

definition take_over :: "log_item list \<Rightarrow> activity \<Rightarrow> activity" where
  "take_over xs a = a\<lparr>ac_items := sort_key l_key (ac_items a @ xs)\<rparr>"

fun merge_group :: "(string \<rightharpoonup> phase option) \<Rightarrow> row \<Rightarrow> row list \<Rightarrow> row list" where
  "merge_group ps (Row_Activity g) seg = (
     if list_ex (\<lambda>r. is_work ps r \<and> after_key (ac_key g) r) seg
     then upd_first (\<lambda>r. is_work ps r \<and> after_key (ac_key g) r) (on_activity (take_over (ac_items g))) seg
     else upd_last (is_work ps) (on_activity (take_over (ac_items g))) seg)"
| "merge_group ps _ seg = seg"

definition idle_groups :: "(string \<rightharpoonup> phase option) \<Rightarrow> row list \<Rightarrow> row list" where
  "idle_groups ps seg = filter (\<lambda>r. is_activity r \<and> \<not> is_work ps r) seg"

definition earliest_key :: "activity \<Rightarrow> activity" where
  "earliest_key a = a\<lparr>ac_key := foldl (\<lambda>k i. min k (l_key i)) (ac_key a) (ac_items a)\<rparr>"

definition settle_groups :: "(string \<rightharpoonup> phase option) \<Rightarrow> bool \<Rightarrow> row list \<Rightarrow> row list" where
  "settle_groups ps active seg = (
    let merged = fold (merge_group ps) (idle_groups ps seg) seg;
        visible = map (on_activity earliest_key) (filter (\<lambda>r. \<not> is_activity r \<or> is_work ps r) merged)
    in if active then upd_last is_activity (on_activity (\<lambda>a. a\<lparr>ac_live := True\<rparr>)) visible else visible)"

section \<open>The transcript\<close>

record presenting =
  s_rows :: "row list"
  s_turn :: "log_item list"
  s_failure :: bool

definition latest_progress :: "(string \<rightharpoonup> phase option) \<Rightarrow> log_item list \<Rightarrow> nat option" where
  "latest_progress ps turn = (case filter (\<lambda>n. phaseOf ps (turn ! n) = Some Progress) [0..<length turn] of [] \<Rightarrow> None | ns \<Rightarrow> Some (last ns))"

definition shown_texts :: "(string \<rightharpoonup> phase option) \<Rightarrow> log_item list \<Rightarrow> string list" where
  "shown_texts ps turn = map (\<lambda>i. trim (l_text i)) (filter (\<lambda>i. l_kind i = K_Text \<and> phaseOf ps i \<noteq> Some Progress) turn)"

definition flush_turn :: "bool \<Rightarrow> presenting \<Rightarrow> presenting" where
  "flush_turn active s = (if s_turn s = [] then s else
     let turn = s_turn s; ps = phases turn;
         done' = fold (flush_item ps (latest_progress ps turn) active) (zip [0..<length turn] turn)
           \<lparr>f_old = s_rows s, f_seg = [], f_failure = s_failure s, f_group = False, f_texts = shown_texts ps turn\<rparr>
     in \<lparr>s_rows = f_old done' @ settle_groups ps active (f_seg done'), s_turn = [], s_failure = f_failure done'\<rparr>)"

definition new_run :: "presenting \<Rightarrow> presenting" where
  "new_run s = (let s = flush_turn False s in
     s\<lparr>s_rows := (if s_failure s then upd_last is_failure (on_fail (\<lambda>f. f\<lparr>fl_previous := True\<rparr>)) (s_rows s) else s_rows s), s_failure := False\<rparr>)"

definition present_item :: "log_item \<Rightarrow> presenting \<Rightarrow> presenting" where
  "present_item i s = (
     if l_kind i = K_Status \<and> subtype i = ''context_compacted'' then flush_turn False s
     else let s = (if l_kind i = K_Status \<and> subtype i \<in> {''dispatch'', ''followup'', ''turn_started''} then new_run s else s) in
       if userMessage i \<or> l_kind i = K_Question \<or> l_kind i = K_Approval
       then let s = flush_turn False s in s\<lparr>s_rows := s_rows s @ [Row_Message (l_key i) i]\<rparr>
       else let s = (if l_kind i = K_Status \<and> subtype i = ''turn_started'' then flush_turn False s else s);
                s = s\<lparr>s_turn := s_turn s @ [i]\<rparr>
         in if l_kind i = K_Result then flush_turn False s else s)"

datatype output_mode = Compact | Verbose

definition presentTranscript :: "log_item list \<Rightarrow> output_mode \<Rightarrow> bool \<Rightarrow> row list" where
  "presentTranscript log m live = (case m of
      Verbose \<Rightarrow> map (\<lambda>i. Row_Message (l_key i) i) (filter (\<lambda>i. l_kind i \<noteq> K_Status \<or> subtype i \<noteq> ''context_compacted'') log)
    | Compact \<Rightarrow> s_rows (flush_turn live (fold present_item log \<lparr>s_rows = [], s_turn = [], s_failure = False\<rparr>)))"

definition runInterrupted :: "run_failure \<Rightarrow> bool" where
  "runInterrupted f \<longleftrightarrow> \<not> fl_completed f \<and> list_ex (\<lambda>i. l_kind i = K_Result \<or> (l_kind i = K_Status \<and> subtype i = ''process_exit'') \<or>
     (l_kind i = K_Error \<and> y_codeName (payload i) = Some ''turn_result_missing'')) (fl_items f)"

end
