(* ===== verification/Conversation_Trace.thy ===== *)
theory Conversation_Trace
  imports Conversation
begin

text \<open>
  The steps of the activities (packages/shared/src/conversation-trace.ts): tool calls joined with
  their results by task, agent, session and call id, the other work as steps of their own, and
  each step attached to the activity that shows one of its events.
\<close>

section \<open>Titles\<close>

text \<open>Runs of white space become one blank.\<close>

fun squeeze :: "bool \<Rightarrow> string \<Rightarrow> string" where
  "squeeze sp [] = []"
| "squeeze sp (c # s) = (if js_space c then (if sp then squeeze True s else CHR '' '' # squeeze True s) else c # squeeze False s)"

definition short :: "string \<Rightarrow> string" where
  "short s = take 160 (trim (squeeze False s))"

definition text_of :: "string option \<Rightarrow> string" where
  "text_of v = (case v of None \<Rightarrow> [] | Some s \<Rightarrow> s)"

definition or_text :: "string \<Rightarrow> string \<Rightarrow> string" where
  "or_text s d = (if s = [] then d else s)"

definition join_blank :: "string list \<Rightarrow> string" where
  "join_blank ws = (case ws of [] \<Rightarrow> [] | w # ws \<Rightarrow> w @ concat (map (\<lambda>w. '' '' @ w) ws))"

definition toolSummary :: "item_payload \<Rightarrow> string" where
  "toolSummary p = (case y_traceTitle p of
      Some t \<Rightarrow> short t
    | None \<Rightarrow> (case (case y_command p of None \<Rightarrow> y_inputCommand p | c \<Rightarrow> c) of
        Some (Shell_Text c) \<Rightarrow> short c
      | Some (Shell_Parts ps) \<Rightarrow> short (join_blank (map the (filter (\<lambda>p. p \<noteq> None) ps)))
      | _ \<Rightarrow> let path = or_text (text_of (y_filePath p)) (text_of (y_path p)) in
          if path \<noteq> [] then short (or_text (text_of (y_name p)) ''File'' @ '' '' @ path)
          else short (or_text (text_of (y_name p)) ''Tool'')))"

section \<open>Operations\<close>

datatype trace_state = Tr_Running | Tr_Completed | Tr_Error | Tr_Interrupted | Tr_Unknown

datatype trace_kind = Tk_Tool | Tk_Reasoning | Tk_Progress | Tk_Event

record operation =
  o_key :: nat
  o_title :: string
  o_kind :: trace_kind
  o_state :: trace_state
  o_members :: "nat list"

text \<open>The key of a call; \<open>JSON.stringify\<close> of a list of texts is taken as the list.\<close>

type_synonym call_key = "string \<times> agent_kind \<times> string \<times> string"

definition call_key :: "log_item \<Rightarrow> string \<Rightarrow> call_key option" where
  "call_key i ident = (if ident = [] then None else Some (l_task i, l_agent i, text_of (l_session i), ident))"

record tracing =
  t_operations :: "operation list"
  t_calls :: "call_key \<rightharpoonup> nat"
  t_active :: "nat list"

definition boundary :: "log_item \<Rightarrow> bool" where
  "boundary i \<longleftrightarrow> l_kind i = K_Status \<and> subtype i \<in> {''dispatch'', ''followup'', ''turn_started''}"

definition terminal_item :: "log_item \<Rightarrow> bool" where
  "terminal_item i \<longleftrightarrow> l_kind i = K_Result \<or> l_kind i = K_Error \<or> (l_kind i = K_Status \<and> subtype i \<in> {''process_exit'', ''stop'', ''error''})"

definition settle_state :: "bool \<Rightarrow> operation \<Rightarrow> operation" where
  "settle_state interrupted x = (if o_state x = Tr_Running then x\<lparr>o_state := if interrupted then Tr_Interrupted else Tr_Unknown\<rparr> else x)"

definition trace_finish :: "bool \<Rightarrow> tracing \<Rightarrow> tracing" where
  "trace_finish interrupted t =
     \<lparr>t_operations = map (\<lambda>(n, x). if n \<in> set (t_active t) then settle_state interrupted x else x) (enumerate 0 (t_operations t)),
       t_calls = Map.empty, t_active = []\<rparr>"

definition push_operation :: "operation \<Rightarrow> tracing \<Rightarrow> tracing" where
  "push_operation x t = t\<lparr>t_operations := t_operations t @ [x]\<rparr>"

definition on_operation :: "nat \<Rightarrow> (operation \<Rightarrow> operation) \<Rightarrow> tracing \<Rightarrow> tracing" where
  "on_operation n f t = t\<lparr>t_operations := (t_operations t)[n := f (t_operations t ! n)]\<rparr>"

text \<open>The operation a call or a result belongs to; one is opened when there is none.\<close>

definition call_ident :: "log_item \<Rightarrow> string" where
  "call_ident i = or_text (text_of (y_toolUse (payload i))) (text_of (y_id (payload i)))"

definition open_operation :: "log_item \<Rightarrow> call_key option \<Rightarrow> tracing \<Rightarrow> nat \<times> tracing" where
  "open_operation i key t = (case Option.bind key (t_calls t) of
      Some n \<Rightarrow> (n, t)
    | None \<Rightarrow> let n = length (t_operations t);
          t = push_operation \<lparr>o_key = l_key i, o_title = if l_kind i = K_Call then toolSummary (payload i) else ''Tool result'',
            o_kind = if l_kind i = K_Call then Tk_Tool else Tk_Event, o_state = Tr_Running, o_members = []\<rparr> t
        in (n, t\<lparr>t_active := t_active t @ [n], t_calls := (case key of None \<Rightarrow> t_calls t | Some k \<Rightarrow> (t_calls t)(k \<mapsto> n))\<rparr>))"

definition next_state :: "log_item \<Rightarrow> trace_state \<Rightarrow> trace_state" where
  "next_state i s = (let st = text_of (y_status (payload i)) in
     if item_failed i then Tr_Error
     else if st \<in> {''interrupted'', ''cancelled'', ''canceled''} then Tr_Interrupted
     else if st \<in> {''completed'', ''success'', ''succeeded''} \<or> (l_kind i = K_Result_Of_Call \<and> st \<notin> {''in_progress'', ''running'', ''pending''}) then Tr_Completed
     else if s \<noteq> Tr_Error \<and> s \<noteq> Tr_Completed then Tr_Running else s)"

definition trace_call :: "log_item \<Rightarrow> tracing \<Rightarrow> tracing" where
  "trace_call i t = (case open_operation i (call_key i (call_ident i)) t of (n, t) \<Rightarrow>
     on_operation n (\<lambda>x. let x = x\<lparr>o_members := o_members x @ [l_key i]\<rparr>;
         x = (if l_kind i = K_Call then x\<lparr>o_kind := Tk_Tool, o_title := toolSummary (payload i)\<rparr> else x)
       in x\<lparr>o_state := next_state i (o_state x)\<rparr>) t)"

definition single :: "log_item \<Rightarrow> trace_kind \<Rightarrow> string \<Rightarrow> trace_state \<Rightarrow> operation" where
  "single i k title st = \<lparr>o_key = l_key i, o_title = title, o_kind = k, o_state = st, o_members = [l_key i]\<rparr>"

definition trace_image :: "log_item \<Rightarrow> tracing \<Rightarrow> tracing" where
  "trace_image i t = (case Option.bind (call_key i (text_of (y_toolUse (payload i)))) (t_calls t) of
      Some n \<Rightarrow> on_operation n (\<lambda>x. x\<lparr>o_members := o_members x @ [l_key i]\<rparr>) t
    | None \<Rightarrow> push_operation (single i Tk_Event ''Image output'' Tr_Completed) t)"

definition silent_subtypes :: "string set" where
  "silent_subtypes = {''init'', ''session_started'', ''turn_started'', ''dispatch'', ''followup'', ''steer'', ''answer'',
     ''assistant_message'', ''message_delivered'', ''usage'', ''context_usage'', ''context_compacted''}"

definition trace_item :: "log_item \<Rightarrow> tracing \<Rightarrow> tracing" where
  "trace_item i t = (let t = (if boundary i then trace_finish False t else t) in
     if terminal_item i then trace_finish (item_failed i \<or> l_kind i \<noteq> K_Result) t
     else if l_kind i \<in> {K_Call, K_Result_Of_Call} then trace_call i t
     else if traceImage i then trace_image i t
     else if l_kind i = K_Text then push_operation (single i Tk_Progress (or_text (short (l_text i)) ''Progress update'') Tr_Completed) t
     else if l_kind i = K_Status \<and> subtype i = ''reasoning'' then push_operation (single i Tk_Reasoning ''Reasoning'' Tr_Completed) t
     else if l_kind i = K_Status \<and> subtype i \<notin> silent_subtypes
     then push_operation (single i Tk_Event (or_text (short (map (\<lambda>c. if c = CHR ''_'' then CHR '' '' else c) (subtype i))) ''Status update'')
       (if item_failed i then Tr_Error else Tr_Completed)) t
     else t)"

definition traceOperations :: "log_item list \<Rightarrow> bool \<Rightarrow> operation list" where
  "traceOperations log live = (let t = fold trace_item log \<lparr>t_operations = [], t_calls = Map.empty, t_active = []\<rparr> in
     t_operations (if live then t else trace_finish False t))"

section \<open>Steps of the rows\<close>

text \<open>Rows of the transcript with the operations of their activities.\<close>

type_synonym traced_row = "row \<times> operation list"

fun activity_items :: "row \<Rightarrow> log_item list" where
  "activity_items (Row_Activity a) = ac_items a"
| "activity_items _ = []"

definition owners :: "row list \<Rightarrow> nat \<rightharpoonup> nat" where
  "owners rows = fold (\<lambda>(n, r). fold (\<lambda>i m. m(l_key i \<mapsto> n)) (activity_items r)) (enumerate 0 rows) Map.empty"

definition owner_of :: "(nat \<rightharpoonup> nat) \<Rightarrow> operation \<Rightarrow> nat option" where
  "owner_of m x = Option.bind (find (\<lambda>k. m k \<noteq> None) (o_members x)) m"

definition attach_operation :: "(nat \<rightharpoonup> nat) \<Rightarrow> operation \<Rightarrow> traced_row list \<Rightarrow> traced_row list" where
  "attach_operation m x rows = (case owner_of m x of
      None \<Rightarrow> rows
    | Some n \<Rightarrow> rows[n := (fst (rows ! n), snd (rows ! n) @ [x])])"

definition attachTraceOperations :: "row list \<Rightarrow> log_item list \<Rightarrow> bool \<Rightarrow> traced_row list" where
  "attachTraceOperations rows log live = fold (attach_operation (owners rows)) (traceOperations log live) (map (\<lambda>r. (r, [])) rows)"

definition projectConversation :: "log_item list \<Rightarrow> bool \<Rightarrow> traced_row list" where
  "projectConversation log live =
     filter (\<lambda>(r, xs). \<not> is_activity r \<or> xs \<noteq> []) (attachTraceOperations (presentTranscript log Compact live) log live)"

definition traceStepTitle :: "operation \<Rightarrow> string" where
  "traceStepTitle x = (if o_kind x = Tk_Tool \<or> o_state x \<in> {Tr_Error, Tr_Interrupted}
     then (case o_state x of Tr_Running \<Rightarrow> ''Running'' | Tr_Completed \<Rightarrow> ''Completed'' | Tr_Error \<Rightarrow> ''Failed''
       | Tr_Interrupted \<Rightarrow> ''Interrupted'' | Tr_Unknown \<Rightarrow> ''Result unavailable'') @ '': '' @ o_title x
     else o_title x)"

section \<open>The label of the task\<close>

text \<open>\<open>transcriptActivity\<close> (packages/shared/src/conversation-activity.ts).\<close>

datatype label = L_Idle | L_Working | L_Output | L_Blocked | L_Ended

definition status_subtype :: "log_item \<Rightarrow> string" where
  "status_subtype i = (if l_kind i = K_Status then subtype i else [])"

definition label_step :: "log_item \<Rightarrow> label \<Rightarrow> label" where
  "label_step i s = (let st = status_subtype i in
     if st \<in> {''dispatch'', ''followup'', ''turn_started''} then L_Working
     else if l_kind i \<in> {K_Result, K_Error} \<or> st \<in> {''process_exit'', ''stop'', ''error''} then L_Ended
     else if s = L_Ended then s
     else if l_kind i \<in> {K_Question, K_Approval} then L_Blocked
     else if st \<in> {''answer'', ''approval'', ''input_resolved''} then (if s = L_Blocked then L_Working else s)
     else if s = L_Blocked then s
     else if (l_kind i = K_Text \<and> trim (l_text i) \<noteq> []) \<or> (l_kind i = K_Image \<and> \<not> traceImage i) then L_Output
     else if l_kind i \<in> {K_Call, K_Result_Of_Call} \<or> traceImage i \<or> st \<in> {''reasoning'', ''steer''} then L_Working
     else s)"

definition acknowledged :: "log_item list \<Rightarrow> string set" where
  "acknowledged log = set (List.map_filter (\<lambda>i. if userMessage i \<or> status_subtype i = ''message_delivered'' then y_messageId (payload i) else None) log)"

definition transcriptActivity :: "log_item list \<Rightarrow> label option \<Rightarrow> bool \<Rightarrow> bool \<Rightarrow> bool \<Rightarrow> string list \<Rightarrow> label" where
  "transcriptActivity log projected running loading blocked sending = (
     let s = (case projected of Some l \<Rightarrow> l | None \<Rightarrow> fold label_step log L_Working) in
     if blocked then L_Blocked
     else if \<exists>m \<in> set sending. m \<notin> acknowledged log then L_Working
     else if loading \<or> (\<not> running \<and> sending = []) then L_Idle
     else s)"

end
