(* ===== verification/Conversation_Laws.thy ===== *)
theory Conversation_Laws
  imports Conversation
begin

text \<open>
  Laws of the transcript: what rows show, what one item, one turn and the settling of the turn's
  activities keep of it, and the invariant of the fold over the log.
\<close>

section \<open>What rows show\<close>

fun row_items :: "row \<Rightarrow> log_item list" where
  "row_items (Row_Activity a) = ac_items a"
| "row_items (Row_Failure f) = fl_items f"
| "row_items (Row_Message k i) = [i]"

definition displayed :: "row list \<Rightarrow> log_item set" where "displayed rows = (\<Union>r \<in> set rows. set (row_items r))"

lemma displayed_simps [simp]:
  "displayed [] = {}" "displayed (r # rs) = set (row_items r) \<union> displayed rs" "displayed (rs @ qs) = displayed rs \<union> displayed qs"
  "displayed (rev rs) = displayed rs"
  by (auto simp: displayed_def)

lemma displayed_upd_first:
  "(\<And>r. p r \<Longrightarrow> set (row_items (g r)) = set (row_items r) \<union> X) \<Longrightarrow>
   displayed (upd_first p g rs) = displayed rs \<union> (if list_ex p rs then X else {})"
  by (induction rs) auto

lemma displayed_upd_last:
  "(\<And>r. p r \<Longrightarrow> set (row_items (g r)) = set (row_items r) \<union> X) \<Longrightarrow>
   displayed (upd_last p g rs) = displayed rs \<union> (if list_ex p rs then X else {})"
  using displayed_upd_first[of p g X "rev rs"] by (simp add: upd_last_def list_ex_iff)

lemma ex_upd_first: "(\<And>r. q (g r) = q r) \<Longrightarrow> list_ex q (upd_first p g rs) = list_ex q rs"
  by (induction rs) auto

lemma ex_upd_last: "(\<And>r. q (g r) = q r) \<Longrightarrow> list_ex q (upd_last p g rs) = list_ex q rs"
  using ex_upd_first[of q g p "rev rs"] by (simp add: upd_last_def list_ex_iff)

lemma kinds_on [simp]:
  "is_activity (on_activity g r) = is_activity r" "is_failure (on_activity g r) = is_failure r"
  "is_activity (on_fail h r) = is_activity r" "is_failure (on_fail h r) = is_failure r"
  by (cases r; simp)+

lemma on_activity_items: "is_activity r \<Longrightarrow> (\<And>a. set (ac_items (g a)) = set (ac_items a) \<union> X) \<Longrightarrow> set (row_items (on_activity g r)) = set (row_items r) \<union> X"
  by (cases r) auto

lemma on_fail_items: "is_failure r \<Longrightarrow> (\<And>f. set (fl_items (h f)) = set (fl_items f) \<union> X) \<Longrightarrow> set (row_items (on_fail h r)) = set (row_items r) \<union> X"
  by (cases r) auto

section \<open>One item of a turn\<close>

text \<open>Lifecycle events and results without a failure may stay behind; everything else but the marks of a compaction must be seen.\<close>

definition must_show :: "log_item \<Rightarrow> bool" where
  "must_show i \<longleftrightarrow> (l_kind i \<notin> {K_Status, K_Result} \<or> userMessage i \<or> item_failed i) \<and> \<not> (l_kind i = K_Status \<and> subtype i = ''context_compacted'')"

definition on_screen :: "flushing \<Rightarrow> log_item set" where "on_screen s = displayed (f_old s) \<union> displayed (f_seg s)"

text \<open>What activities of the turn hold is work or need not be seen.\<close>

definition tidy :: "(string \<rightharpoonup> phase option) \<Rightarrow> row \<Rightarrow> bool" where
  "tidy ps r \<longleftrightarrow> (is_activity r \<longrightarrow> (\<forall>i \<in> set (row_items r). must_show i \<longrightarrow> work_item ps i))"

definition flushing_ok :: "(string \<rightharpoonup> phase option) \<Rightarrow> flushing \<Rightarrow> bool" where
  "flushing_ok ps s \<longleftrightarrow> (f_failure s \<longrightarrow> list_ex is_failure (f_old s @ f_seg s)) \<and> (f_group s \<longrightarrow> list_ex is_activity (f_seg s)) \<and>
     list_all (tidy ps) (f_seg s)"

lemma tidy_upd_last: "list_all (tidy ps) rs \<Longrightarrow> (\<And>r. tidy ps r \<Longrightarrow> tidy ps (g r)) \<Longrightarrow> list_all (tidy ps) (upd_last p g rs)"
  using set_upd_first[of _ p g "rev rs"] by (fastforce simp: upd_last_def list_all_iff)

lemma tidy_fail: "tidy ps r \<Longrightarrow> tidy ps (on_fail h r)"
  by (cases r) (auto simp: tidy_def)

lemma tidy_activity: "tidy ps r \<Longrightarrow> (\<And>a. set (ac_items (g a)) = set (ac_items a) \<union> {i}) \<Longrightarrow> must_show i \<longrightarrow> work_item ps i \<Longrightarrow> tidy ps (on_activity g r)"
  by (cases r) (auto simp: tidy_def)

lemma on_failure_ok:
  assumes ok: "flushing_ok ps s" and f: "f_failure s" and h: "\<And>f. set (fl_items (h f)) = set (fl_items f) \<union> X"
  shows "flushing_ok ps (on_failure h s) \<and> on_screen (on_failure h s) = on_screen s \<union> X \<and> f_failure (on_failure h s) \<and> f_group (on_failure h s) = f_group s"
proof (cases "list_ex is_failure (f_seg s)")
  case True
  have "displayed (upd_last is_failure (on_fail h) (f_seg s)) = displayed (f_seg s) \<union> X"
    using displayed_upd_last[of is_failure "on_fail h" X "f_seg s"] on_fail_items[OF _ h] True by simp
  moreover have "list_all (tidy ps) (upd_last is_failure (on_fail h) (f_seg s))" using ok tidy_fail by (intro tidy_upd_last) (auto simp: flushing_ok_def)
  ultimately show ?thesis using ok f True by (auto simp: on_failure_def flushing_ok_def on_screen_def ex_upd_last)
next
  case False
  then have old: "list_ex is_failure (f_old s)" using ok f by (simp add: flushing_ok_def)
  then have "displayed (upd_last is_failure (on_fail h) (f_old s)) = displayed (f_old s) \<union> X"
    using displayed_upd_last[of is_failure "on_fail h" X "f_old s"] on_fail_items[OF _ h] by simp
  then show ?thesis using ok f False old by (auto simp: on_failure_def flushing_ok_def on_screen_def ex_upd_last)
qed

lemma add_failure_ok:
  assumes ok: "flushing_ok ps s"
  shows "flushing_ok ps (add_failure i s) \<and> on_screen (add_failure i s) = on_screen s \<union> {i}"
proof -
  let ?s = "if f_failure s then s
      else s\<lparr>f_failure := True, f_seg := f_seg s @ [Row_Failure \<lparr>fl_key = l_key i, fl_items = [], fl_previous = False, fl_completed = False\<rparr>]\<rparr>"
  have "flushing_ok ps ?s" "f_failure ?s" "on_screen ?s = on_screen s" using ok by (auto simp: flushing_ok_def tidy_def on_screen_def)
  then show ?thesis using on_failure_ok[of ps ?s "\<lambda>f. f\<lparr>fl_items := fl_items f @ [i], fl_completed := False\<rparr>" "{i}"] by (simp add: add_failure_def)
qed

lemma add_to_group_ok:
  assumes ok: "flushing_ok ps s" and g: "\<And>a. ac_items (g a) = ac_items a" and i: "must_show i \<longrightarrow> work_item ps i"
  shows "flushing_ok ps (add_to_group i g s) \<and> on_screen (add_to_group i g s) = on_screen s \<union> {i}"
proof -
  let ?s = "if f_group s then s else s\<lparr>f_group := True,
      f_seg := f_seg s @ [Row_Activity \<lparr>ac_key = l_key i, ac_items = [], ac_live = False, ac_preview = None\<rparr>]\<rparr>"
  let ?g = "\<lambda>a. g (a\<lparr>ac_items := ac_items a @ [i]\<rparr>)"
  have s: "flushing_ok ps ?s" "list_ex is_activity (f_seg ?s)" "on_screen ?s = on_screen s" using ok by (auto simp: flushing_ok_def tidy_def on_screen_def)
  have h: "set (ac_items (?g a)) = set (ac_items a) \<union> {i}" for a by (simp add: g)
  have "displayed (upd_last is_activity (on_activity ?g) (f_seg ?s)) = displayed (f_seg ?s) \<union> {i}"
    using displayed_upd_last[of is_activity "on_activity ?g" "{i}" "f_seg ?s"] on_activity_items[OF _ h] s(2) by simp
  moreover have "list_all (tidy ps) (upd_last is_activity (on_activity ?g) (f_seg ?s))"
    using s(1) tidy_activity[OF _ h i] by (intro tidy_upd_last) (auto simp: flushing_ok_def)
  ultimately show ?thesis using s unfolding add_to_group_def Let_def
    by (simp add: flushing_ok_def on_screen_def ex_upd_last)
qed

text \<open>An answer that only the result of the turn carries.\<close>

definition answers :: "log_item \<Rightarrow> log_item set" where
  "answers i = (case y_result (payload i) of Some t \<Rightarrow> if l_kind i = K_Result then {result_answer i t} else {} | None \<Rightarrow> {})"

lemma add_answer_ok:
  "flushing_ok ps s \<Longrightarrow> flushing_ok ps (add_answer i s) \<and> on_screen s \<subseteq> on_screen (add_answer i s) \<and> on_screen (add_answer i s) \<subseteq> on_screen s \<union> answers i"
  by (auto simp: add_answer_def answers_def flushing_ok_def on_screen_def tidy_def split: option.split)

lemma add_message_ok:
  "flushing_ok ps s \<Longrightarrow> flushing_ok ps (s\<lparr>f_group := False, f_seg := f_seg s @ [Row_Message k i]\<rparr>) \<and>
     on_screen (s\<lparr>f_group := False, f_seg := f_seg s @ [Row_Message k i]\<rparr>) = on_screen s \<union> {i}"
  by (auto simp: flushing_ok_def on_screen_def tidy_def)

lemma add_late_ok:
  assumes ok: "flushing_ok ps s" and i: "\<not> must_show i"
  defines "s' \<equiv> s\<lparr>f_seg := upd_last is_activity (on_activity (\<lambda>a. a\<lparr>ac_items := ac_items a @ [i]\<rparr>)) (f_seg s)\<rparr>"
  shows "flushing_ok ps s' \<and> on_screen s \<subseteq> on_screen s' \<and> on_screen s' \<subseteq> on_screen s \<union> {i}"
proof -
  let ?g = "\<lambda>a. a\<lparr>ac_items := ac_items a @ [i]\<rparr>"
  have h: "set (ac_items (?g a)) = set (ac_items a) \<union> {i}" for a :: activity by simp
  have "displayed (upd_last is_activity (on_activity ?g) (f_seg s)) = displayed (f_seg s) \<union> (if list_ex is_activity (f_seg s) then {i} else {})"
    using displayed_upd_last[of is_activity "on_activity ?g" "{i}" "f_seg s"] on_activity_items[OF _ h] by simp
  moreover have "list_all (tidy ps) (upd_last is_activity (on_activity ?g) (f_seg s))"
    using ok i tidy_activity[OF _ h] by (intro tidy_upd_last) (auto simp: flushing_ok_def)
  ultimately show ?thesis using ok unfolding s'_def by (auto simp: flushing_ok_def on_screen_def ex_upd_last)
qed

lemma flush_item_ok:
  assumes ok: "flushing_ok ps s" and user: "\<not> userMessage i"
  shows "flushing_ok ps (flush_item ps latest active (n, i) s) \<and> on_screen s \<subseteq> on_screen (flush_item ps latest active (n, i) s) \<and>
    on_screen (flush_item ps latest active (n, i) s) \<subseteq> on_screen s \<union> {i} \<union> answers i \<and>
    (must_show i \<longrightarrow> i \<in> on_screen (flush_item ps latest active (n, i) s))"
proof (cases "item_failed i \<and> l_kind i \<notin> {K_Call, K_Result_Of_Call}")
  case True
  then show ?thesis using add_failure_ok[OF ok, of i] by (auto simp: flush_item_def)
next
  case False
  let ?s = "if l_kind i = K_Result \<and> f_failure s then on_failure (\<lambda>f. f\<lparr>fl_completed := True\<rparr>) s else s"
  have s: "flushing_ok ps ?s \<and> on_screen ?s = on_screen s"
    using ok on_failure_ok[OF ok, of "\<lambda>f. f\<lparr>fl_completed := True\<rparr>" "{}"] by simp
  show ?thesis
  proof (cases "l_kind i = K_Status \<and> subtype i = ''assistant_message''")
    case late: True
    then have "\<not> must_show i" using False user by (auto simp: must_show_def)
    from add_late_ok[OF _ this, of ps ?s] show ?thesis using s late False \<open>\<not> must_show i\<close> by (auto simp: flush_item_def Let_def)
  next
    case now: False
    let ?g = "\<lambda>a. if latest = Some n \<and> active \<and> l_kind i = K_Text then a\<lparr>ac_preview := Some (l_text i)\<rparr> else a"
    let ?t = "if machinery i \<or> phaseOf ps i = Some Progress then add_to_group i ?g ?s
      else ?s\<lparr>f_group := False, f_seg := f_seg ?s @ [Row_Message (l_key i) i]\<rparr>"
    have "must_show i \<longrightarrow> work_item ps i" if "machinery i \<or> phaseOf ps i = Some Progress"
      using that False user by (auto simp: machinery_def must_show_def work_item_def)
    then have t: "flushing_ok ps ?t \<and> on_screen ?t = on_screen s \<union> {i}"
      using add_to_group_ok[of ps ?s ?g i] add_message_ok[of ps ?s "l_key i" i] s by simp
    have "flush_item ps latest active (n, i) s = add_answer i ?t" using False now by (auto simp: flush_item_def Let_def)
    then show ?thesis using add_answer_ok[of ps ?t i] t by auto
  qed
qed

lemma flush_items_ok:
  "flushing_ok ps s \<Longrightarrow> \<forall>i \<in> snd ` set nis. \<not> userMessage i \<Longrightarrow>
   flushing_ok ps (fold (flush_item ps latest active) nis s) \<and> on_screen s \<subseteq> on_screen (fold (flush_item ps latest active) nis s) \<and>
   on_screen (fold (flush_item ps latest active) nis s) \<subseteq> on_screen s \<union> (\<Union>i \<in> snd ` set nis. {i} \<union> answers i) \<and>
   (\<forall>i \<in> snd ` set nis. must_show i \<longrightarrow> i \<in> on_screen (fold (flush_item ps latest active) nis s))"
proof (induction nis arbitrary: s)
  case (Cons ni nis)
  obtain n i where ni: "ni = (n, i)" by fastforce
  then have "\<not> userMessage i" using Cons.prems(2) by simp
  note one = flush_item_ok[OF Cons.prems(1) this, of latest active n]
  have rest: "\<forall>i \<in> snd ` set nis. \<not> userMessage i" using Cons.prems(2) by simp
  note more = Cons.IH[OF conjunct1[OF one] rest]
  from one more show ?case unfolding fold_Cons comp_apply ni by (auto 0 4)
qed simp

section \<open>Activities without work\<close>

definition kept :: "(string \<rightharpoonup> phase option) \<Rightarrow> row \<Rightarrow> bool" where "kept ps r \<longleftrightarrow> \<not> is_activity r \<or> is_work ps r"

definition absorbs :: "(string \<rightharpoonup> phase option) \<Rightarrow> log_item set \<Rightarrow> row \<Rightarrow> row \<Rightarrow> bool" where
  "absorbs ps X r q \<longleftrightarrow> is_activity q = is_activity r \<and> set (row_items r) \<subseteq> set (row_items q) \<and> set (row_items q) \<subseteq> set (row_items r) \<union> X \<and> (kept ps r \<longrightarrow> kept ps q)"

lemma all2_back: "list_all2 R xs ys \<Longrightarrow> y \<in> set ys \<Longrightarrow> \<exists>x \<in> set xs. R x y"
  by (induction rule: list_all2_induct) auto

lemma all2_forth: "list_all2 R xs ys \<Longrightarrow> x \<in> set xs \<Longrightarrow> \<exists>y \<in> set ys. R x y"
  by (induction rule: list_all2_induct) auto

lemma absorbs_refl [simp]: "absorbs ps X r r"
  by (simp add: absorbs_def)

lemma absorbs_list_refl: "list_all2 (absorbs ps X) rs rs"
  by (simp add: list_all2_same)

lemma absorbs_upd_first: "(\<And>r. p r \<Longrightarrow> absorbs ps X r (g r)) \<Longrightarrow> list_all2 (absorbs ps X) rs (upd_first p g rs)"
  by (induction rs) (auto simp: absorbs_list_refl)

lemma absorbs_upd_last: "(\<And>r. p r \<Longrightarrow> absorbs ps X r (g r)) \<Longrightarrow> list_all2 (absorbs ps X) rs (upd_last p g rs)"
  using absorbs_upd_first[of p ps X g "rev rs"] by (simp add: upd_last_def list_all2_rev1)

lemma absorbs_take_over:
  assumes "is_work ps r" "set xs \<subseteq> X"
  shows "absorbs ps X r (on_activity (take_over xs) r)"
  using assms by (cases r) (auto simp: absorbs_def take_over_def kept_def list_ex_iff)

lemma absorbs_merge:
  assumes "displayed [g] \<subseteq> X"
  shows "list_all2 (absorbs ps X) seg (merge_group ps g seg)"
proof (cases g)
  case (Row_Activity a)
  then have "set (ac_items a) \<subseteq> X" using assms by simp
  then show ?thesis using Row_Activity
    by (auto intro!: absorbs_upd_first absorbs_upd_last absorbs_take_over)
qed (simp_all add: absorbs_list_refl)

lemma absorbs_trans: "absorbs ps X r q \<Longrightarrow> absorbs ps X q p \<Longrightarrow> absorbs ps X r p"
  by (auto simp: absorbs_def)

lemma absorbs_merges: "\<forall>g \<in> set gs. displayed [g] \<subseteq> X \<Longrightarrow> list_all2 (absorbs ps X) seg (fold (merge_group ps) gs seg)"
proof (induction gs arbitrary: seg)
  case (Cons g gs)
  have "list_all2 (absorbs ps X) seg (merge_group ps g seg)" using Cons.prems by (intro absorbs_merge) simp
  moreover have "list_all2 (absorbs ps X) (merge_group ps g seg) (fold (merge_group ps) gs (merge_group ps g seg))" using Cons by simp
  ultimately show ?case using list_all2_trans[of "absorbs ps X" "absorbs ps X" "absorbs ps X"] absorbs_trans by (metis fold_Cons comp_apply)
qed (simp add: absorbs_list_refl)

lemma settled_display: "displayed (settle_groups ps active seg) = displayed (filter (kept ps) (fold (merge_group ps) (idle_groups ps seg) seg))"
proof -
  have keep: "displayed (map (on_activity earliest_key) rs) = displayed rs" for rs
  proof (induction rs)
    case (Cons r rs)
    then show ?case by (cases r) (simp_all add: earliest_key_def)
  qed simp
  have "displayed (upd_last is_activity (on_activity (\<lambda>a. a\<lparr>ac_live := True\<rparr>)) rs) = displayed rs" for rs
    using displayed_upd_last[of is_activity "on_activity (\<lambda>a. a\<lparr>ac_live := True\<rparr>)" "{}" rs] on_activity_items[of _ "\<lambda>a. a\<lparr>ac_live := True\<rparr>" "{}"] by simp
  then show ?thesis by (simp add: settle_groups_def Let_def keep kept_def[abs_def])
qed

lemma settle_groups_ok:
  assumes "list_all (tidy ps) seg"
  shows "displayed (settle_groups ps active seg) \<subseteq> displayed seg"
    and "\<And>i. i \<in> displayed seg \<Longrightarrow> must_show i \<Longrightarrow> i \<in> displayed (settle_groups ps active seg)"
proof -
  let ?seg = "fold (merge_group ps) (idle_groups ps seg) seg"
  have "\<forall>g \<in> set (idle_groups ps seg). displayed [g] \<subseteq> displayed seg" by (auto simp: idle_groups_def displayed_def)
  then have all2: "list_all2 (absorbs ps (displayed seg)) seg ?seg" by (rule absorbs_merges)
  show "displayed (settle_groups ps active seg) \<subseteq> displayed seg"
  proof
    fix i assume "i \<in> displayed (settle_groups ps active seg)"
    then obtain q where q: "q \<in> set ?seg" "i \<in> set (row_items q)" unfolding settled_display by (auto simp: displayed_def)
    then obtain r where "r \<in> set seg" "absorbs ps (displayed seg) r q"
      using all2_back[OF all2 q(1)] by blast
    then show "i \<in> displayed seg" using q(2) unfolding absorbs_def displayed_def by blast
  qed
  fix i assume i: "i \<in> displayed seg" "must_show i"
  then obtain r where r: "r \<in> set seg" "i \<in> set (row_items r)" by (auto simp: displayed_def)
  have "kept ps r"
  proof (cases "is_activity r")
    case True
    then have "work_item ps i" using assms r i(2) by (auto simp: list_all_iff tidy_def)
    then show ?thesis using r(2) True by (cases r) (auto simp: kept_def list_ex_iff)
  qed (simp add: kept_def)
  moreover obtain q where "q \<in> set ?seg" "absorbs ps (displayed seg) r q"
    using all2_forth[OF all2 r(1)] by blast
  ultimately show "i \<in> displayed (settle_groups ps active seg)"
    unfolding settled_display using r(2) by (auto simp: absorbs_def displayed_def)
qed

text \<open>What an activity hides of the log is found again among the steps of the log.\<close>

definition traced :: "log_item \<Rightarrow> bool" where
  "traced i \<longleftrightarrow> l_kind i \<in> {K_Call, K_Result_Of_Call, K_Text} \<or> traceImage i"

definition calm :: "row \<Rightarrow> bool" where
  "calm r \<longleftrightarrow> (is_activity r \<longrightarrow> (\<forall>i \<in> set (row_items r). must_show i \<longrightarrow> traced i))"

lemma work_is_traced: "work_item ps i \<Longrightarrow> traced i"
  by (auto simp: work_item_def traced_def phaseOf_def split: if_splits)

lemma calm_fail: "calm r \<Longrightarrow> calm (on_fail h r)"
  by (cases r) (auto simp: calm_def)

lemma calm_upd_last: "list_all calm rs \<Longrightarrow> (\<And>r. calm r \<Longrightarrow> calm (g r)) \<Longrightarrow> list_all calm (upd_last p g rs)"
  using set_upd_first[of _ p g "rev rs"] by (fastforce simp: upd_last_def list_all_iff)

lemma on_failure_calm: "list_all calm (f_old s) \<Longrightarrow> list_all calm (f_old (on_failure h s))"
  by (simp add: on_failure_def calm_upd_last calm_fail)

lemma flush_item_calm: "list_all calm (f_old s) \<Longrightarrow> list_all calm (f_old (flush_item ps latest active ni s))"
  by (cases ni) (auto simp: flush_item_def Let_def add_failure_def add_answer_def add_to_group_def on_failure_calm split: option.splits)

lemma flush_items_calm: "list_all calm (f_old s) \<Longrightarrow> list_all calm (f_old (fold (flush_item ps latest active) nis s))"
  by (induction nis arbitrary: s) (simp_all add: flush_item_calm)

lemma settled_calm:
  assumes tidy: "list_all (tidy ps) seg"
  shows "list_all calm (settle_groups ps active seg)"
proof -
  let ?seg = "fold (merge_group ps) (idle_groups ps seg) seg"
  have "\<forall>g \<in> set (idle_groups ps seg). displayed [g] \<subseteq> displayed (idle_groups ps seg)" by (auto simp: displayed_def)
  then have all2: "list_all2 (absorbs ps (displayed (idle_groups ps seg))) seg ?seg" by (rule absorbs_merges)
  have idle: "\<not> must_show i" if "i \<in> displayed (idle_groups ps seg)" for i
  proof -
    from that obtain r where r: "r \<in> set seg" "is_activity r" "\<not> is_work ps r" "i \<in> set (row_items r)" by (auto simp: displayed_def idle_groups_def)
    have "\<not> work_item ps i" using r(2-4) by (cases "r") (auto simp: list_ex_iff)
    with r tidy show ?thesis by (auto simp: list_all_iff tidy_def)
  qed
  have "calm q" if q: "q \<in> set ?seg" for q
    unfolding calm_def
  proof (intro impI ballI)
    fix i assume i: "is_activity q" "i \<in> set (row_items q)" "must_show i"
    obtain r where r: "r \<in> set seg" "absorbs ps (displayed (idle_groups ps seg)) r q"
      using all2_back[OF all2 q] by blast
    then have "is_activity r" "i \<in> set (row_items r) \<union> displayed (idle_groups ps seg)" using i(1,2) unfolding absorbs_def by auto
    moreover have "i \<notin> displayed (idle_groups ps seg)" using idle i(3) by metis
    ultimately show "traced i" using tidy r(1) i(3) by (auto simp: list_all_iff tidy_def intro: work_is_traced)
  qed
  moreover have early: "calm (on_activity earliest_key r)" if "calm r" for r
    using that by (cases "r") (simp_all add: calm_def earliest_key_def)
  ultimately have "list_all calm (map (on_activity earliest_key) (filter (\<lambda>r. \<not> is_activity r \<or> is_work ps r) ?seg))"
    unfolding list_all_iff by auto
  moreover have "calm (on_activity (\<lambda>a. a\<lparr>ac_live := True\<rparr>) r)" if "calm r" for r
    using that by (cases "r") (simp_all add: calm_def)
  ultimately show ?thesis unfolding settle_groups_def Let_def by (simp only: calm_upd_last if_split simp_thms)
qed

section \<open>The fold over the log\<close>

lemma turn_items: "snd ` set (zip [0..<length turn] turn) = set turn"
  by (metis length_upt map_snd_zip minus_nat.diff_0 set_map)

text \<open>What the turn so far holds and what the rows show; \<open>seen\<close> is the part of the log gone through.\<close>

definition presenting_ok :: "log_item set \<Rightarrow> presenting \<Rightarrow> bool" where
  "presenting_ok seen s \<longleftrightarrow> (s_failure s \<longrightarrow> list_ex is_failure (s_rows s)) \<and> (\<forall>i \<in> set (s_turn s). \<not> userMessage i) \<and> set (s_turn s) \<subseteq> seen \<and>
     (\<forall>i \<in> seen. must_show i \<longrightarrow> i \<in> displayed (s_rows s) \<union> set (s_turn s)) \<and> displayed (s_rows s) \<subseteq> seen \<union> (\<Union>i \<in> seen. answers i) \<and> list_all calm (s_rows s)"

lemma merges_failure: "list_ex is_failure (fold (merge_group ps) gs rs) = list_ex is_failure rs"
proof (induction gs arbitrary: rs)
  case (Cons g gs)
  have "list_ex is_failure (merge_group ps g rs) = list_ex is_failure rs" by (cases g) (simp_all add: ex_upd_first ex_upd_last)
  then show ?case using Cons by simp
qed simp

lemma settled_failure: 
  assumes "list_ex is_failure seg"
  shows "list_ex is_failure (settle_groups ps active seg)"
proof -
  have "list_ex is_failure (fold (merge_group ps) (idle_groups ps seg) seg)" using assms by (simp only: merges_failure)
  then obtain r where "r \<in> set (fold (merge_group ps) (idle_groups ps seg) seg)" "is_failure r" by (auto simp: list_ex_iff)
  moreover from this(2) have "\<not> is_activity r" by (cases r) simp_all
  ultimately have "list_ex is_failure (filter (\<lambda>r. \<not> is_activity r \<or> is_work ps r) (fold (merge_group ps) (idle_groups ps seg) seg))"
    unfolding list_ex_iff by auto
  then show ?thesis by (simp add: settle_groups_def Let_def ex_upd_last) (auto simp: list_ex_iff)
qed

lemma flush_turn_ok:
  assumes ok: "presenting_ok seen s"
  shows "presenting_ok seen (flush_turn active s) \<and> s_turn (flush_turn active s) = []"
proof (cases "s_turn s = []")
  case True
  then show ?thesis using ok by (simp add: flush_turn_def)
next
  case False
  define ps where "ps = phases (s_turn s)"
  define start where "start = \<lparr>f_old = s_rows s, f_seg = [], f_failure = s_failure s, f_group = False, f_texts = shown_texts ps (s_turn s)\<rparr>"
  define stop where "stop = fold (flush_item ps (latest_progress ps (s_turn s)) active) (zip [0..<length (s_turn s)] (s_turn s)) start"
  have flush: "flush_turn active s = \<lparr>s_rows = f_old stop @ settle_groups ps active (f_seg stop), s_turn = [], s_failure = f_failure stop\<rparr>"
    using False by (simp add: flush_turn_def Let_def stop_def start_def ps_def)
  have "flushing_ok ps start" "on_screen start = displayed (s_rows s)" using ok
    by (auto simp: flushing_ok_def start_def presenting_ok_def on_screen_def)
  moreover have "\<forall>i \<in> snd ` set (zip [0..<length (s_turn s)] (s_turn s)). \<not> userMessage i" unfolding turn_items using ok by (simp add: presenting_ok_def)
  ultimately have stop: "flushing_ok ps stop" "displayed (s_rows s) \<subseteq> on_screen stop"
    "on_screen stop \<subseteq> displayed (s_rows s) \<union> (\<Union>i \<in> set (s_turn s). {i} \<union> answers i)" "\<forall>i \<in> set (s_turn s). must_show i \<longrightarrow> i \<in> on_screen stop"
    using flush_items_ok[of ps start "zip [0..<length (s_turn s)] (s_turn s)" "latest_progress ps (s_turn s)" active] unfolding turn_items stop_def by simp_all
  have tidy: "list_all (tidy ps) (f_seg stop)" using stop(1) by (simp add: flushing_ok_def)
  have calm: "list_all calm (s_rows (flush_turn active s))" using ok settled_calm[OF tidy, of active] flush_items_calm[of start]
    by (simp add: flush stop_def start_def presenting_ok_def)
  note settle = settle_groups_ok[OF tidy, where active = active]
  have rows: "displayed (s_rows (flush_turn active s)) \<subseteq> on_screen stop" using settle(1) by (auto simp: flush on_screen_def)
  have must: "i \<in> displayed (s_rows (flush_turn active s))" if "i \<in> on_screen stop" "must_show i" for i
    using that settle(2) by (auto simp: flush on_screen_def)
  have failure: "s_failure (flush_turn active s) \<longrightarrow> list_ex is_failure (s_rows (flush_turn active s))"
    using stop(1) settled_failure[of "f_seg stop" ps active] by (auto simp: flush flushing_ok_def)
  have "i \<in> displayed (s_rows (flush_turn active s))" if i: "i \<in> seen" "must_show i" for i
  proof (intro must i(2))
    have "i \<in> displayed (s_rows s) \<union> set (s_turn s)" using ok i unfolding presenting_ok_def by blast
    then show "i \<in> on_screen stop" using stop(2,4) i(2) by blast
  qed
  moreover have "displayed (s_rows (flush_turn active s)) \<subseteq> seen \<union> (\<Union>i \<in> seen. answers i)"
  proof -
    have "displayed (s_rows s) \<subseteq> seen \<union> (\<Union>i \<in> seen. answers i)" "(\<Union>i \<in> set (s_turn s). {i} \<union> answers i) \<subseteq> seen \<union> (\<Union>i \<in> seen. answers i)"
      using ok unfolding presenting_ok_def by auto
    then show ?thesis using order_trans[OF rows stop(3)] by (meson Un_least order_trans)
  qed
  ultimately show ?thesis using failure calm by (simp add: presenting_ok_def flush)
qed

lemma new_run_ok:
  assumes "presenting_ok seen s"
  shows "presenting_ok seen (new_run s) \<and> s_turn (new_run s) = []"
proof -
  have "displayed (upd_last is_failure (on_fail (\<lambda>f. f\<lparr>fl_previous := True\<rparr>)) rs) = displayed rs" for rs
    using displayed_upd_last[of is_failure "on_fail (\<lambda>f. f\<lparr>fl_previous := True\<rparr>)" "{}" rs] on_fail_items[of _ "\<lambda>f. f\<lparr>fl_previous := True\<rparr>" "{}"] by simp
  moreover have "presenting_ok seen (flush_turn False s)" "s_turn (flush_turn False s) = []" using flush_turn_ok[OF assms, of False] by simp_all
  ultimately show ?thesis by (simp add: new_run_def Let_def presenting_ok_def calm_upd_last calm_fail)
qed

lemma presenting_ok_hidden: "presenting_ok seen s \<Longrightarrow> \<not> must_show i \<Longrightarrow> presenting_ok (insert i seen) s"
  unfolding presenting_ok_def by blast

lemma presenting_ok_row: "presenting_ok seen s \<Longrightarrow> presenting_ok (insert i seen) (s\<lparr>s_rows := s_rows s @ [Row_Message k i]\<rparr>)"
  unfolding presenting_ok_def calm_def by auto

lemma presenting_ok_turn: "presenting_ok seen s \<Longrightarrow> \<not> userMessage i \<Longrightarrow> presenting_ok (insert i seen) (s\<lparr>s_turn := s_turn s @ [i]\<rparr>)"
  unfolding presenting_ok_def by auto

lemma present_item_ok:
  assumes ok: "presenting_ok seen s"
  shows "presenting_ok (insert i seen) (present_item i s)"
proof (cases "l_kind i = K_Status \<and> subtype i = ''context_compacted''")
  case True
  then have "\<not> must_show i" by (simp add: must_show_def)
  with flush_turn_ok[OF ok, of False] True show ?thesis by (simp add: present_item_def presenting_ok_hidden)
next
  case False
  define s1 where "s1 = (if l_kind i = K_Status \<and> subtype i \<in> {''dispatch'', ''followup'', ''turn_started''} then new_run s else s)"
  have s: "presenting_ok seen s1" using ok new_run_ok[OF ok] by (simp add: s1_def)
  show ?thesis
  proof (cases "userMessage i \<or> l_kind i = K_Question \<or> l_kind i = K_Approval")
    case True
    then show ?thesis using False flush_turn_ok[OF s, of False]
      unfolding present_item_def Let_def if_not_P[OF False] if_P[OF True] s1_def[symmetric] by (intro presenting_ok_row) simp
  next
    case other: False
    let ?t = "if l_kind i = K_Status \<and> subtype i = ''turn_started'' then flush_turn False s1 else s1"
    have "presenting_ok seen ?t" using s flush_turn_ok[OF s, of False] by simp
    then have t: "presenting_ok (insert i seen) (?t\<lparr>s_turn := s_turn ?t @ [i]\<rparr>)" using other by (intro presenting_ok_turn) simp_all
    show ?thesis unfolding present_item_def Let_def if_not_P[OF False] if_not_P[OF other] s1_def[symmetric]
      using t flush_turn_ok[OF t, of False] by (cases "l_kind i = K_Result") simp_all
  qed
qed

lemma present_all_ok: "presenting_ok seen s \<Longrightarrow> presenting_ok (seen \<union> set log) (fold present_item log s)"
proof (induction log arbitrary: seen s)
  case (Cons i log)
  from Cons.IH[OF present_item_ok[OF Cons.prems]] show ?case by simp
qed simp

lemma presented_ok:
  "presenting_ok (set log) (flush_turn live (fold present_item log \<lparr>s_rows = [], s_turn = [], s_failure = False\<rparr>)) \<and>
   s_turn (flush_turn live (fold present_item log \<lparr>s_rows = [], s_turn = [], s_failure = False\<rparr>)) = []"
proof -
  have "presenting_ok {} \<lparr>s_rows = [], s_turn = [], s_failure = False\<rparr>" by (simp add: presenting_ok_def)
  from flush_turn_ok[OF present_all_ok[OF this, of log], of live] show ?thesis by simp
qed

end
