(* ===== verification/Conversation_Trace_Laws.thy ===== *)
theory Conversation_Trace_Laws
  imports Conversation_Trace Conversation_Laws
begin

text \<open>
  Laws of the steps: every call, result, image and text of the log is a member of a step, no step
  stays running when the task does not, and every step of which an activity shows an event is
  attached to one.
\<close>

section \<open>The steps of the log\<close>

definition members :: "operation list \<Rightarrow> nat set" where "members xs = (\<Union>x \<in> set xs. set (o_members x))"

lemma members_simps [simp]: "members [] = {}" "members (x # xs) = set (o_members x) \<union> members xs" "members (xs @ ys) = members xs \<union> members ys"
  by (auto simp: members_def)

lemma members_update: "n < length xs \<Longrightarrow> set (o_members (f (xs ! n))) = set (o_members (xs ! n)) \<union> M \<Longrightarrow> members (xs[n := f (xs ! n)]) = members xs \<union> M"
proof (induction xs arbitrary: n)
  case (Cons x xs)
  then show ?case by (cases n) auto
qed simp

text \<open>Running operations are active; calls point to active operations.\<close>

definition tracing_ok :: "tracing \<Rightarrow> bool" where
  "tracing_ok t \<longleftrightarrow> (\<forall>n < length (t_operations t). o_state (t_operations t ! n) = Tr_Running \<longrightarrow> n \<in> set (t_active t)) \<and>
     ran (t_calls t) \<subseteq> set (t_active t) \<and> (\<forall>n \<in> set (t_active t). n < length (t_operations t))"

lemma trace_finish_ok: "tracing_ok t \<Longrightarrow> tracing_ok (trace_finish b t) \<and> members (t_operations (trace_finish b t)) = members (t_operations t) \<and>
    (\<forall>x \<in> set (t_operations (trace_finish b t)). o_state x \<noteq> Tr_Running)"
proof -
  assume ok: "tracing_ok t"
  let ?f = "\<lambda>(n, x). if n \<in> set (t_active t) then settle_state b x else x"
  have "o_members (?f (n, x)) = o_members x" for n x by (simp add: settle_state_def)
  then have "members (map ?f (enumerate k xs)) = members xs" for k xs
    by (induction xs arbitrary: k) simp_all
  moreover have "\<forall>x \<in> set (t_operations (trace_finish b t)). o_state x \<noteq> Tr_Running"
    using ok by (auto simp: trace_finish_def in_set_enumerate_eq tracing_ok_def settle_state_def split: if_splits)
  ultimately show ?thesis by (auto simp: trace_finish_def tracing_ok_def)
qed

lemma push_ok: "tracing_ok t \<Longrightarrow> o_state x \<noteq> Tr_Running \<Longrightarrow> tracing_ok (push_operation x t) \<and>
    members (t_operations (push_operation x t)) = members (t_operations t) \<union> set (o_members x)"
  by (auto simp: push_operation_def tracing_ok_def nth_append less_Suc_eq)

lemma ran_update: "ran (m(k \<mapsto> v)) \<subseteq> insert v (ran m)"
  by (auto simp: ran_def)

lemma open_ok: 
  assumes ok: "tracing_ok t" and u: "open_operation i key t = (n, u)"
  shows "tracing_ok u \<and> n \<in> set (t_active u) \<and> members (t_operations u) = members (t_operations t)"
proof (cases "Option.bind key (t_calls t)")
  case (Some m)
  then have "n = m" "u = t" using u by (simp_all add: open_operation_def)
  moreover from Some obtain k where "t_calls t k = Some m" by (cases key) simp_all
  then have "m \<in> ran (t_calls t)" by (rule ranI)
  ultimately show ?thesis using ok by (auto simp: tracing_ok_def)
next
  case None
  let ?m = "length (t_operations t)"
  let ?calls = "case key of None \<Rightarrow> t_calls t | Some k \<Rightarrow> (t_calls t)(k \<mapsto> ?m)"
  have "ran ?calls \<subseteq> insert ?m (ran (t_calls t))" using ran_update by (cases key) fastforce+
  then have calls: "ran ?calls \<subseteq> set (t_active t @ [?m])" using ok by (auto simp: tracing_ok_def)
  have "n = ?m" "t_calls u = ?calls" "t_active u = t_active t @ [?m]" "\<exists>x. t_operations u = t_operations t @ [x] \<and> o_members x = []"
    using u None by (auto simp: open_operation_def push_operation_def Let_def split: option.split)
  then show ?thesis using ok calls unfolding tracing_ok_def by (auto simp: nth_append less_Suc_eq)
qed

lemma on_operation_ok:
  assumes ok: "tracing_ok t" and n: "n \<in> set (t_active t)" and m: "\<And>x. set (o_members (f x)) = set (o_members x) \<union> M"
  shows "tracing_ok (on_operation n f t) \<and> members (t_operations (on_operation n f t)) = members (t_operations t) \<union> M"
proof -
  have "n < length (t_operations t)" using ok n by (simp add: tracing_ok_def)
  then show ?thesis using ok n members_update[of n "t_operations t" f M] m
    by (auto simp: on_operation_def tracing_ok_def nth_list_update)
qed

lemma trace_call_ok: "tracing_ok t \<Longrightarrow> tracing_ok (trace_call i t) \<and> members (t_operations (trace_call i t)) = members (t_operations t) \<union> {l_key i}"
proof -
  assume ok: "tracing_ok t"
  obtain n u where u: "open_operation i (call_key i (call_ident i)) t = (n, u)" by fastforce
  note opened = open_ok[OF ok u]
  show ?thesis using on_operation_ok[of u n _ "{l_key i}"] opened by (auto simp: trace_call_def u Let_def)
qed

lemma trace_image_ok: "tracing_ok t \<Longrightarrow> tracing_ok (trace_image i t) \<and> members (t_operations (trace_image i t)) = members (t_operations t) \<union> {l_key i}"
proof (cases "Option.bind (call_key i (text_of (y_toolUse (payload i)))) (t_calls t)")
  case None
  then show "tracing_ok t \<Longrightarrow> ?thesis" using push_ok[of t "single i Tk_Event ''Image output'' Tr_Completed"] by (simp add: trace_image_def single_def)
next
  case (Some n)
  assume ok: "tracing_ok t"
  from Some obtain k where "t_calls t k = Some n" unfolding bind_eq_Some_conv by blast
  then have "n \<in> ran (t_calls t)" by (rule ranI)
  then have "n \<in> set (t_active t)" using ok by (auto simp: tracing_ok_def)
  from on_operation_ok[OF ok this, of "\<lambda>x. x\<lparr>o_members := o_members x @ [l_key i]\<rparr>" "{l_key i}"] Some show ?thesis by (simp add: trace_image_def)
qed

lemma trace_item_ok:
  assumes ok: "tracing_ok t"
  shows "tracing_ok (trace_item i t) \<and> members (t_operations t) \<subseteq> members (t_operations (trace_item i t)) \<and>
    (traced i \<longrightarrow> l_key i \<in> members (t_operations (trace_item i t)))"
proof -
  define u where "u = (if boundary i then trace_finish False t else t)"
  have u: "tracing_ok u" "members (t_operations u) = members (t_operations t)" using trace_finish_ok[OF ok, of False] ok by (simp_all add: u_def)
  have item: "trace_item i t = (if terminal_item i then trace_finish (item_failed i \<or> l_kind i \<noteq> K_Result) u
     else if l_kind i \<in> {K_Call, K_Result_Of_Call} then trace_call i u
     else if traceImage i then trace_image i u
     else if l_kind i = K_Text then push_operation (single i Tk_Progress (or_text (short (l_text i)) ''Progress update'') Tr_Completed) u
     else if l_kind i = K_Status \<and> subtype i = ''reasoning'' then push_operation (single i Tk_Reasoning ''Reasoning'' Tr_Completed) u
     else if l_kind i = K_Status \<and> subtype i \<notin> silent_subtypes
     then push_operation (single i Tk_Event (or_text (short (map (\<lambda>c. if c = CHR ''_'' then CHR '' '' else c) (subtype i))) ''Status update'')
       (if item_failed i then Tr_Error else Tr_Completed)) u
     else u)" unfolding trace_item_def Let_def u_def ..
  have single: "o_state (single i k t st) = st" "set (o_members (single i k t st)) = {l_key i}" for k t st by (simp_all add: single_def)
  have "terminal_item i \<Longrightarrow> \<not> traced i" by (auto simp: terminal_item_def traced_def traceImage_def)
  then show ?thesis unfolding item
    using trace_finish_ok[OF u(1), of "item_failed i \<or> l_kind i \<noteq> K_Result"] trace_call_ok[OF u(1), of i] trace_image_ok[OF u(1), of i] push_ok[OF u(1)] u
    by (auto simp: single traced_def)
qed

lemma trace_items_ok:
  "tracing_ok t \<Longrightarrow> tracing_ok (fold trace_item log t) \<and> members (t_operations t) \<subseteq> members (t_operations (fold trace_item log t)) \<and>
   (\<forall>i \<in> set log. traced i \<longrightarrow> l_key i \<in> members (t_operations (fold trace_item log t)))"
proof (induction log arbitrary: t)
  case (Cons i log)
  note one = trace_item_ok[OF Cons.prems, of i]
  from Cons.IH[OF conjunct1[OF one]] one show ?case by auto
qed simp

lemma traced_members: "i \<in> set log \<Longrightarrow> traced i \<Longrightarrow> l_key i \<in> members (traceOperations log live)"
  and none_running: "x \<in> set (traceOperations log False) \<Longrightarrow> o_state x \<noteq> Tr_Running"
proof -
  let ?t = "\<lparr>t_operations = [], t_calls = Map.empty, t_active = []\<rparr>"
  have "tracing_ok ?t" by (simp add: tracing_ok_def)
  note all = trace_items_ok[OF this, of log]
  note stop = trace_finish_ok[OF conjunct1[OF all], of False]
  show "i \<in> set log \<Longrightarrow> traced i \<Longrightarrow> l_key i \<in> members (traceOperations log live)"
    using all stop by (simp add: traceOperations_def Let_def)
  show "x \<in> set (traceOperations log False) \<Longrightarrow> o_state x \<noteq> Tr_Running"
    using stop by (simp add: traceOperations_def Let_def)
qed

section \<open>Steps of rows\<close>

text \<open>An event that an activity shows has an owner, and owners are activities.\<close>

lemma owner_items: "fold (\<lambda>i m. m(l_key i \<mapsto> n)) is m k = (if k \<in> l_key ` set is then Some n else m k)"
  by (induction "is" arbitrary: m) auto

definition own :: "nat \<times> row \<Rightarrow> (nat \<rightharpoonup> nat) \<Rightarrow> (nat \<rightharpoonup> nat)" where
  "own = (\<lambda>(n, r). fold (\<lambda>i m. m(l_key i \<mapsto> n)) (activity_items r))"

lemma own_apply: "own (n, r) m k = (if k \<in> l_key ` set (activity_items r) then Some n else m k)"
  by (simp add: own_def owner_items)

lemma own_keeps: "m k \<noteq> None \<Longrightarrow> fold own nrs m k \<noteq> None"
proof (induction nrs arbitrary: m)
  case (Cons nr nrs)
  obtain n r where "nr = (n, r)" by fastforce
  with Cons.prems have "own nr m k \<noteq> None" by (simp add: own_apply)
  then show ?case using Cons.IH[of "own nr m"] by simp
qed simp

lemma own_some: "(n, r) \<in> set nrs \<Longrightarrow> k \<in> l_key ` set (activity_items r) \<Longrightarrow> fold own nrs m k \<noteq> None"
proof (induction nrs arbitrary: m)
  case (Cons nr nrs)
  then show ?case
  proof (cases "nr = (n, r)")
    case True
    then show ?thesis using own_keeps[of "own nr m" k nrs] Cons.prems(2) by (simp add: own_apply)
  qed auto
qed simp

lemma own_from: "fold own nrs m k = Some n \<Longrightarrow> m k = Some n \<or> (\<exists>r. (n, r) \<in> set nrs \<and> activity_items r \<noteq> [])"
proof (induction nrs arbitrary: m)
  case (Cons nr nrs)
  obtain b r where nr: "nr = (b, r)" by fastforce
  from Cons.IH[of "own nr m"] Cons.prems have "own nr m k = Some n \<or> (\<exists>r. (n, r) \<in> set nrs \<and> activity_items r \<noteq> [])" by simp
  then show ?case by (auto simp: nr own_apply split: if_splits)
qed simp

lemma owners_own: "owners rows = fold own (enumerate 0 rows) Map.empty"
  by (simp add: owners_def own_def)

lemma owned: "r \<in> set rows \<Longrightarrow> i \<in> set (activity_items r) \<Longrightarrow> owners rows (l_key i) \<noteq> None"
proof -
  assume "r \<in> set rows" "i \<in> set (activity_items r)"
  moreover then obtain n where "n < length rows" "rows ! n = r" by (auto simp: in_set_conv_nth)
  then have "(n, r) \<in> set (enumerate 0 rows)" by (simp add: in_set_enumerate_eq)
  ultimately show ?thesis unfolding owners_own by (intro own_some) auto
qed

lemma owner_activity: "owners rows k = Some n \<Longrightarrow> n < length rows \<and> is_activity (rows ! n)"
proof -
  assume "owners rows k = Some n"
  from own_from[OF this[unfolded owners_own]] obtain r where r: "(n, r) \<in> set (enumerate 0 rows)" "activity_items r \<noteq> []" by auto
  from r(2) have "is_activity r" by (cases "r") simp_all
  with r(1) show ?thesis by (simp add: in_set_enumerate_eq)
qed

lemma owner_of_some: "k \<in> set (o_members x) \<Longrightarrow> m k \<noteq> None \<Longrightarrow> owner_of m x \<noteq> None"
proof -
  assume "k \<in> set (o_members x)" "m k \<noteq> None"
  then obtain j where j: "find (\<lambda>k. m k \<noteq> None) (o_members x) = Some j" using find_None_iff[of "\<lambda>k. m k \<noteq> None" "o_members x"] by fastforce
  then have "m j \<noteq> None" by (simp add: find_Some_iff) blast
  with j show ?thesis by (simp add: owner_of_def)
qed

lemma owner_of_in: "owner_of m x = Some n \<Longrightarrow> \<exists>k. m k = Some n"
  by (auto simp: owner_of_def bind_eq_Some_conv)

lemma attach_keeps: "length (fold (attach_operation m) xs rows) = length rows \<and>
   (\<forall>n < length rows. fst (fold (attach_operation m) xs rows ! n) = fst (rows ! n) \<and> set (snd (rows ! n)) \<subseteq> set (snd (fold (attach_operation m) xs rows ! n)))"
proof (induction xs arbitrary: rows)
  case (Cons x xs)
  have "length (attach_operation m x rows) = length rows \<and> (\<forall>n < length rows. fst (attach_operation m x rows ! n) = fst (rows ! n) \<and>
      set (snd (rows ! n)) \<subseteq> set (snd (attach_operation m x rows ! n)))"
  proof (cases "owner_of m x")
    case (Some b)
    have "rows[b := (fst (rows ! b), snd (rows ! b) @ [x])] ! n = (if b = n \<and> n < length rows then (fst (rows ! b), snd (rows ! b) @ [x]) else rows ! n)" for n
      by (cases "b < length rows") (auto simp: nth_list_update list_update_beyond)
    then show ?thesis by (auto simp: attach_operation_def Some)
  qed (simp add: attach_operation_def)
  with Cons.IH[of "attach_operation m x rows"] show ?case by (metis (no_types, lifting) fold_Cons comp_apply order_trans)
qed simp

lemma attached: "x \<in> set xs \<Longrightarrow> owner_of m x = Some n \<Longrightarrow> n < length rows \<Longrightarrow> x \<in> set (snd (fold (attach_operation m) xs rows ! n))"
proof (induction xs arbitrary: rows)
  case (Cons y ys)
  show ?case
  proof (cases "x = y")
    case True
    then have "x \<in> set (snd (attach_operation m y rows ! n))" using Cons.prems by (simp add: attach_operation_def)
    then show ?thesis using attach_keeps[of m ys "attach_operation m y rows"] Cons.prems(3) attach_keeps[of m "[y]" rows] by auto
  next
    case False
    then show ?thesis using Cons attach_keeps[of m "[y]" rows] by simp
  qed
qed simp

lemma rows_kept: "map fst (attachTraceOperations rows log live) = rows"
  using attach_keeps[of "owners rows" "traceOperations log live" "map (\<lambda>r. (r, [])) rows"]
  by (intro nth_equalityI) (simp_all add: attachTraceOperations_def)

text \<open>Every event of an activity that is a member of a step is found under a step of some activity.\<close>

lemma step_shown:
  assumes "r \<in> set rows" "i \<in> set (activity_items r)" "l_key i \<in> members (traceOperations log live)"
  shows "\<exists>(q, xs) \<in> set (attachTraceOperations rows log live). is_activity q \<and> (\<exists>x \<in> set xs. l_key i \<in> set (o_members x))"
proof -
  obtain x where x: "x \<in> set (traceOperations log live)" "l_key i \<in> set (o_members x)" using assms(3) by (auto simp: members_def)
  obtain n where n: "owner_of (owners rows) x = Some n" using owner_of_some[OF x(2), of "owners rows"] owned[OF assms(1,2)] by blast
  then have row: "n < length rows" "is_activity (rows ! n)" using owner_of_in owner_activity by metis+
  let ?all = "attachTraceOperations rows log live"
  have "length ?all = length rows" "fst (?all ! n) = rows ! n" using rows_kept[of rows log live] row(1) by (metis length_map, metis length_map nth_map)
  moreover have "x \<in> set (snd (?all ! n))" using attached[OF x(1) n] row(1) by (simp add: attachTraceOperations_def)
  ultimately have "?all ! n \<in> set ?all \<and> is_activity (fst (?all ! n)) \<and> x \<in> set (snd (?all ! n))" using row by simp
  then show ?thesis using x(2) by (intro bexI[of _ "?all ! n"]) (auto simp: case_prod_beta)
qed

end
