(* ===== verification/Conversation_Properties.thy ===== *)
theory Conversation_Properties
  imports Conversation_Trace_Laws
begin

text \<open>
  The transcript is a view of the log, never a filter: whatever the user must see is in a row or
  among the steps of an activity, and nothing is shown that the log does not hold.
\<close>

lemma presented_row:
  assumes "i \<in> set log" "must_show i"
  shows "\<exists>r \<in> set (presentTranscript log Compact live). i \<in> set (row_items r) \<and> (is_activity r \<longrightarrow> traced i)"
proof -
  let ?s = "flush_turn live (fold present_item log \<lparr>s_rows = [], s_turn = [], s_failure = False\<rparr>)"
  have "presenting_ok (set log) ?s" "s_turn ?s = []" using presented_ok by simp_all
  then have "i \<in> displayed (s_rows ?s)" "list_all calm (s_rows ?s)" using assms by (auto simp: presenting_ok_def)
  then obtain r where r: "r \<in> set (s_rows ?s)" "i \<in> set (row_items r)" "calm r" by (auto simp: displayed_def list_all_iff)
  moreover have "is_activity r \<longrightarrow> traced i" using r assms(2) by (simp add: calm_def)
  ultimately show ?thesis by (auto simp: presentTranscript_def)
qed

lemma presented_only: "displayed (presentTranscript log Compact live) \<subseteq> set log \<union> (\<Union>i \<in> set log. answers i)"
  using presented_ok[of log live] by (simp add: presentTranscript_def presenting_ok_def)

lemma attached_from: "(r, ys) \<in> set (fold (attach_operation m) xs rows) \<Longrightarrow> x \<in> set ys \<Longrightarrow> x \<in> set xs \<or> (\<exists>q zs. (q, zs) \<in> set rows \<and> x \<in> set zs)"
proof (induction xs arbitrary: rows)
  case (Cons y xs)
  have step: "x \<in> set (y # xs) \<or> (\<exists>q zs. (q, zs) \<in> set rows \<and> x \<in> set zs)" if "(q, zs) \<in> set (attach_operation m y rows)" "x \<in> set zs" for q zs
  proof (cases "owner_of m y")
    case None
    then show ?thesis using that by (auto simp: attach_operation_def)
  next
    case (Some n)
    show ?thesis
    proof (cases "n < length rows")
      case True
      from that have "(q, zs) = (fst (rows ! n), snd (rows ! n) @ [y]) \<or> (q, zs) \<in> set rows"
        using set_update_subset_insert[of rows n] by (auto simp: attach_operation_def Some)
      moreover obtain q' zs' where "rows ! n = (q', zs')" by fastforce
      moreover then have "(q', zs') \<in> set rows" using True by (metis nth_mem)
      ultimately show ?thesis using that(2) by auto
    qed (use that Some in \<open>auto simp: attach_operation_def list_update_beyond\<close>)
  qed
  from Cons.IH[OF _ Cons.prems(2)] Cons.prems(1) step show ?case by fastforce
qed auto

lemma steps_are_operations: "(r, xs) \<in> set (projectConversation log live) \<Longrightarrow> x \<in> set xs \<Longrightarrow> x \<in> set (traceOperations log live)"
  using attached_from[of r xs "owners (presentTranscript log Compact live)" "traceOperations log live" "map (\<lambda>r. (r, [])) (presentTranscript log Compact live)" x]
  by (auto simp: projectConversation_def attachTraceOperations_def)

text \<open>
  C28. Every event that the user must see (messages, questions, approvals, prose, images, calls,
  results of calls and every failure) is in the projected transcript: in a message or a failure
  row, or a member of a step of an activity, also when the call it belongs to was made
  in another activity; Verbose shows it too. Everything shown is an event of the log or the answer
  that a result carries, and no step is shown as running when the task does not run.
\<close>

theorem transcript_shows_everything:
  assumes "i \<in> set log" "must_show i"
  shows "(\<exists>(r, xs) \<in> set (projectConversation log live).
      if is_activity r then \<exists>x \<in> set xs. l_key i \<in> set (o_members x) else i \<in> set (row_items r)) \<and>
    i \<in> displayed (presentTranscript log Verbose live) \<and>
    displayed (map fst (projectConversation log live)) \<subseteq> set log \<union> (\<Union>j \<in> set log. answers j) \<and>
    (\<forall>(r, xs) \<in> set (projectConversation log False). \<forall>x \<in> set xs. o_state x \<noteq> Tr_Running)"
proof (intro conjI)
  let ?rows = "presentTranscript log Compact live"
  let ?all = "attachTraceOperations ?rows log live"
  obtain r where r: "r \<in> set ?rows" "i \<in> set (row_items r)" "is_activity r \<longrightarrow> traced i" using presented_row[OF assms] by blast
  show "\<exists>(r, xs) \<in> set (projectConversation log live). if is_activity r then \<exists>x \<in> set xs. l_key i \<in> set (o_members x) else i \<in> set (row_items r)"
  proof (cases "is_activity r")
    case True
    then have "i \<in> set (activity_items r)" using r(2) by (cases "r") simp_all
    from step_shown[OF r(1) this traced_members[OF assms(1)]] r(3) True
    obtain q xs where "(q, xs) \<in> set ?all" "is_activity q" "\<exists>x \<in> set xs. l_key i \<in> set (o_members x)" by blast
    then show ?thesis by (intro bexI[of _ "(q, xs)"]) (auto simp: projectConversation_def)
  next
    case False
    have "r \<in> fst ` set ?all" using r(1) rows_kept[of ?rows log live] by (metis set_map)
    then obtain xs where "(r, xs) \<in> set ?all" by auto
    then show ?thesis using False r(2) by (intro bexI[of _ "(r, xs)"]) (auto simp: projectConversation_def)
  qed
  show "i \<in> displayed (presentTranscript log Verbose live)"
    using assms by (auto simp: displayed_def presentTranscript_def must_show_def)
  have "set (map fst (projectConversation log live)) \<subseteq> set (map fst ?all)" by (auto simp: projectConversation_def)
  then have "displayed (map fst (projectConversation log live)) \<subseteq> displayed ?rows" unfolding rows_kept displayed_def by blast
  then show "displayed (map fst (projectConversation log live)) \<subseteq> set log \<union> (\<Union>j \<in> set log. answers j)" using presented_only by blast
  show "\<forall>(r, xs) \<in> set (projectConversation log False). \<forall>x \<in> set xs. o_state x \<noteq> Tr_Running"
    using steps_are_operations none_running by blast
qed

text \<open>A turn with a call that fails after an answer was given in between.\<close>

definition log_entry :: "nat \<Rightarrow> event_kind \<Rightarrow> string \<Rightarrow> item_payload \<Rightarrow> log_item" where
  "log_entry k kind t p = \<lparr>l_key = k, l_end = Some k, l_kind = kind, l_agent = Codex, l_task = ''t1'', l_session = Some ''s1'', l_text = t,
     l_messageId = None, l_phase = None, l_payload = p\<rparr>"

definition call_log :: "log_item list" where
  "call_log = [log_entry 1 K_Status [] (no_payload\<lparr>y_subtype := Some ''dispatch''\<rparr>),
     log_entry 2 K_Call [] (no_payload\<lparr>y_id := Some ''c'', y_name := Some ''Bash''\<rparr>), log_entry 3 K_Text ''so far'' no_payload,
     log_entry 4 K_Result_Of_Call [] (no_payload\<lparr>y_toolUse := Some ''c'', y_isError := True\<rparr>)]"

lemma transcript_shows_everything_witness:
  "l_key (call_log ! 3) = 4 \<and> item_failed (call_log ! 3) \<and> (\<exists>(r, xs) \<in> set (projectConversation call_log True).
      if is_activity r then \<exists>x \<in> set xs. l_key (call_log ! 3) \<in> set (o_members x) else call_log ! 3 \<in> set (row_items r))"
proof (intro conjI)
  show "l_key (call_log ! 3) = 4" by (simp add: call_log_def log_entry_def)
  show failed: "item_failed (call_log ! 3)" by (simp add: call_log_def log_entry_def item_failed_def payload_def Let_def)
  have "call_log ! 3 \<in> set call_log" by (simp add: call_log_def)
  moreover have "must_show (call_log ! 3)" using failed by (simp add: must_show_def call_log_def log_entry_def)
  ultimately show "\<exists>(r, xs) \<in> set (projectConversation call_log True).
      if is_activity r then \<exists>x \<in> set xs. l_key (call_log ! 3) \<in> set (o_members x) else call_log ! 3 \<in> set (row_items r)"
    by (intro conjunct1[OF transcript_shows_everything])
qed

end
