(* ===== verification/Spec2Isabelle.thy ===== *)
theory Spec2Isabelle
  imports Task_Properties Routine_Properties Execution_Properties Auth_Properties Terminal_Properties
    Terminal_Host_Properties Stream_Properties Runner_Properties Conversation_Properties
begin

text \<open>
  A model of the server of Palmagent (apps/server and packages/shared), which runs coding agents
  on the owner's machine and lets the owner follow and steer them from a browser.

  \<^bold>\<open>The program and its parts.\<close> A task is one conversation with an agent. The task service
  (modules/tasks/application/use-cases/task-service.ts) keeps the live tasks, mirrors them in SQLite and
  gives each a message queue (message-controller.ts); a turn waits for a slot of the process
  supervisor (modules/agents/adapters/outbound/supervisor.ts), then a runner starts the agent. The agent
  runs either in a process of the runner daemon (bootstrap/runner-daemon.ts, reached through
  daemon-client.ts) or in an execution of its own, whose store (execution-store.ts) the server and
  the execution host share. Routines (modules/routines) create tasks or run scripts on a
  schedule. Sign-in (modules/auth) guards every request. Terminals (modules/terminals) are shells
  that outlive the server: a registry shared between processes, a service, and one host per shell.

  \<^bold>\<open>Conventions.\<close> A class with its state is a record and one definition per operation; a
  result that can throw is an \<open>app_error + 'a\<close> (\<open>Prelude\<close>). An asynchronous function is split at
  each \<open>await\<close>: what remains to be done after it is a value (a job, a ceremony, a wait, a task of a
  promise queue), so that the step relations (\<open>task_step\<close>, \<open>exec_step\<close>, \<open>view_step\<close>, \<open>auth_step\<close>,
  \<open>term_step\<close>, \<open>shell_step\<close>, \<open>daemon_step\<close>, \<open>backend_step\<close>) interleave everything that the event
  loop and other processes can interleave, crashes and restarts included where they matter. Clocks, random ids, the file
  system, the provider processes, JSON, the passkey library and the terminal emulator are
  arguments. JavaScript integers are \<open>int\<close> or \<open>nat\<close> (no operation here comes near 2^53); code units
  of pasted input are 16-bit words. Strings are character lists; where the code points of
  text matter (\<open>Streams\<close>, \<open>Runner\<close>) they are lists of naturals.

  \<^bold>\<open>Theories.\<close>
  \<^item> \<open>Prelude\<close>: errors as values, updating the first match, counting.
  \<^item> \<open>Messages\<close> (messages.ts, message-controller.ts) and \<open>Message_Laws\<close>: the queue of a task. The
    locale \<open>message_host\<close> is what the controller needs of its host.
  \<^item> \<open>Supervisor\<close>, \<open>Permissions\<close>, \<open>Task_Data\<close>, \<open>Task_Store\<close>, \<open>Tasks\<close>: the task service with its store, its turns, its
    requests and its restart. \<open>Task_Laws\<close> has the locale \<open>service_invariant\<close>, in which an
    invariant that survives the primitive updates survives every step; \<open>Task_Invariants\<close> interprets
    it for the mirror of the database and for the slots. \<open>Demo\<close> is a concrete service for the
    witnesses of \<open>Task_Properties\<close> (C1 to C13).
  \<^item> \<open>Js_Text\<close>, \<open>Schedule\<close>, \<open>Routines\<close>, \<open>Routine_Laws\<close>, \<open>Routine_Properties\<close> (C14 to C19): cron expressions, their
    next fire time, the tick, scripts and restarts.
  \<^item> \<open>Executions\<close>, \<open>Execution_Laws\<close>, \<open>Execution_Views\<close>, \<open>Execution_Properties\<close> (C20 to C24): the durable store, the
    launcher, the host's part and the view client.
  \<^item> \<open>Auth\<close>, \<open>Auth_Laws\<close>, \<open>Auth_Properties\<close> (C25 to C27): passkeys, sessions, enrollment and challenges.
  \<^item> \<open>Terminals\<close>, \<open>Terminal_Laws\<close>, \<open>Terminal_Properties\<close> (C29 to C32): registry, service and tickets.
  \<^item> \<open>Terminal_Host\<close>, \<open>Terminal_Host_Laws\<close>, \<open>Terminal_Host_Properties\<close> (C33 to C35): one shell host, its
    clients and its back pressure.
  \<^item> \<open>Streams\<close>, \<open>Stream_Properties\<close> (C36 to C38): input chunks, lines of a process, output shown by a
    native terminal.
  \<^item> \<open>Runner\<close>, \<open>Runner_Laws\<close>, \<open>Runner_Properties\<close> (C39, C40): the runner daemon and its client.
  \<^item> \<open>Conversation\<close>, \<open>Conversation_Trace\<close>, their laws and \<open>Conversation_Properties\<close> (C28): the transcript of
    a task, the steps of its activities and its label.

  \<^bold>\<open>What the lemmas show.\<close> A \<open>_Laws\<close> theory has a component's invariant and that each operation
  keeps it, and what an operation leaves of the past (\<open>evolves\<close>, \<open>coherent\<close>, \<open>tw_evolves\<close>, \<open>following\<close>). The \<open>_Properties\<close>
  theories state what follows for every reachable state, each with a run at which it applies.

  \<^bold>\<open>Bounds and loops.\<close> The search for the next fire time is a partial function that is shown
  to return (C14): it tries the minutes of at most 400 days. The other loops are
  structural or have a measure. The laws about local time are proved for zones with a fixed
  offset; C9 and C24 quantify over all queue states, not over a bounded number.

  \<^bold>\<open>Not modelled.\<close> The provider adapters (command lines and JSON of claude and codex) and what
  drives the task service from their shared sessions (refreshShared, dispatchSession, side chats);
  the stored transcript with its pages (conversation-history.ts); installation and updates; spaces,
  attachments on disk, telemetry and push; HTTP routing and validation; the web application apart
  from what its terminal shows; the Rust runtime and daemon. SQLite is taken at its documentation:
  a transaction is atomic and serial. Exceptions of sockets and of the emulator are not modelled, nor is the
  parser state of the emulator inside an unfinished escape sequence, which is why C33 speaks
  of snapshots that restore the screen they were taken from.
\<close>

end
